(* ===== verification/Firmware_Prelude.thy ===== *)
theory Firmware_Prelude
  imports Main "HOL-Library.Word"
begin

unbundle bit_operations_syntax

text \<open>
  Shared types, conventions and lemmas of the development.

  \<^item> The C integer types are words of their width (\<open>uint8\<close> \dots \<open>uint64\<close>); a signed
    type is the word of its width read by \<open>sint\<close>; a cast between unsigned types is
    \<open>ucast\<close>, a conversion from a signed type \<open>scast\<close>.
  \<^item> A C array that is read or written through a pointer is the list of its bytes.
  \<^item> Where the C code has undefined behaviour (a read outside the object, a shift by the
    width, a \<open>va_arg\<close> of the wrong type, a failed \<open>assert\<close>) a function of the model
    returns \<open>None\<close>; a function that may not return uses \<open>outcome option\<close>, where
    \<open>None\<close> is "does not return" and \<open>Some Undef\<close> is undefined behaviour.
  \<^item> \<open>clip_write\<close> is the clipped buffer write all encoders reduce to.
\<close>

type_synonym uint8 = "8 word"
type_synonym uint16 = "16 word"
type_synonym uint32 = "32 word"
type_synonym uint64 = "64 word"
type_synonym bytes = "uint8 list"

datatype 'a outcome = Undef | Stop 'a

named_theorems wire_simps "evaluation of wire format routines"

subsection \<open>Bits of bytes\<close>

lemma bit_word_high [simp]: "LENGTH('a) \<le> n \<Longrightarrow> bit (w :: 'a::len word) n = False"
  using bit_imp_le_length by (metis linorder_not_less)

lemma bit8_high [simp]: "8 \<le> n \<Longrightarrow> bit (w :: uint8) n = False"
  by simp

lemma mask_numerals:
  "(0x7F :: 'a::len word) = mask 7" "(0xFF :: 'a::len word) = mask 8"
  by (simp_all add: mask_eq_exp_minus_1)

lemma bit_1_iff_0 [simp]: "bit (1 :: 'a::len word) n \<longleftrightarrow> n = 0"
  by (simp add: bit_1_iff)

lemma less_8_cases:
  "(i::nat) < 8 \<Longrightarrow> i = 0 \<or> i = 1 \<or> i = 2 \<or> i = 3 \<or> i = 4 \<or> i = 5 \<or> i = 6 \<or> i = 7"
  by arith

text \<open>A property of all bytes below a bound can be evaluated.\<close>

lemma small_bytes:
  assumes "list_all P (map word_of_nat [0..<n])" "unat b < n"
  shows "P (b :: uint8)"
proof -
  have "\<forall>k \<in> {0..<n}. P (word_of_nat k)" using assms(1) by (simp add: list_all_iff)
  from bspec [OF this, of "unat b"] assms(2) show ?thesis by simp
qed

subsection \<open>Clipped writes into a buffer\<close>

definition clip_write :: "nat \<Rightarrow> nat \<Rightarrow> 'a list \<Rightarrow> 'a list \<Rightarrow> 'a list" where
  \<comment> \<open>write \<open>bs\<close> at \<open>p\<close>, leaving out everything at or beyond \<open>len\<close>\<close>
  "clip_write len p bs out =
     take p out @ take (len - p) bs @ drop (p + min (length bs) (len - p)) out"

lemma clip_write_Nil [simp]: "clip_write len p [] out = out"
  by (simp add: clip_write_def)

lemma clip_write_beyond [simp]: "len \<le> p \<Longrightarrow> clip_write len p bs out = out"
  by (simp add: clip_write_def)

lemma length_clip_write [simp]: "len \<le> length out \<Longrightarrow> length (clip_write len p bs out) = length out"
  by (auto simp: clip_write_def min_def)

lemma nth_clip_write:
  assumes "len \<le> length out" "i < length out"
  shows "clip_write len p bs out ! i =
    (if p \<le> i \<and> i < p + length bs \<and> i < len then bs ! (i - p) else out ! i)"
  using assms by (auto simp: clip_write_def nth_append min_def)

lemma clip_write_append:
  assumes "len \<le> length out"
  shows "clip_write len (p + length xs) ys (clip_write len p xs out) = clip_write len p (xs @ ys) out"
proof (rule nth_equalityI)
  show "length (clip_write len (p + length xs) ys (clip_write len p xs out)) =
      length (clip_write len p (xs @ ys) out)"
    using assms by simp
  fix i assume "i < length (clip_write len (p + length xs) ys (clip_write len p xs out))"
  with assms have "i < length out" by simp
  with assms show "clip_write len (p + length xs) ys (clip_write len p xs out) ! i =
      clip_write len p (xs @ ys) out ! i"
    by (auto simp: nth_clip_write nth_append diff_diff_add)
qed

lemma clip_write_all:
  "p + length bs \<le> len \<Longrightarrow> clip_write len p bs out = take p out @ bs @ drop (p + length bs) out"
  by (simp add: clip_write_def min_def)

lemma clip_write_single:
  assumes "len \<le> length out"
  shows "(if p < len then out[p := b] else out) = clip_write len p [b] out"
  using assms by (auto simp: clip_write_def upd_conv_take_nth_drop)

lemma take_clip_write:
  "p + length bs \<le> len \<Longrightarrow> len \<le> length out \<Longrightarrow>
   take (p + length bs) (clip_write len p bs out) = take p out @ bs"
  by (simp add: clip_write_all)

lemma clip_write_offset:
  \<comment> \<open>writing through a pointer into the middle of a buffer\<close>
  assumes "p \<le> len" "len \<le> length out"
  shows "take p out @ clip_write (len - p) 0 bs (drop p out) = clip_write len p bs out"
  using assms by (simp add: clip_write_def add.commute)

end
