(* ===== verification/Device_Config.thy ===== *)
theory Device_Config
  imports Firmware_Prelude
begin

text \<open>
  The device configuration \<open>DevCfg\<close> of \<^verbatim>\<open>src/Inc/eeprom.h\<close>, its defaults
  (\<^verbatim>\<open>src/Src/eeprom.c\<close>) and the setter macros \<open>DEVCFG_SET\<close> and \<open>DEVCFG_MEMCPY\<close>.

  The product family is a compile-time choice (\<open>STA\<close>, \<open>STX\<close> or \<open>STE\<close>). The record holds the
  fields of all families; a function whose body depends on the family takes it as an argument.
  Enumerations are bytes (the ARM EABI the firmware is built for has short enumerations) and the
  bit fields of the code are booleans.
\<close>

section \<open>The configuration\<close>

datatype family = STA | STX | STE

instantiation family :: enum
begin

definition enum_family :: "family list" where
  "enum_family = [STA, STX, STE]"

definition enum_all_family :: "(family \<Rightarrow> bool) \<Rightarrow> bool" where
  "enum_all_family P \<longleftrightarrow> P STA \<and> P STX \<and> P STE"

definition enum_ex_family :: "(family \<Rightarrow> bool) \<Rightarrow> bool" where
  "enum_ex_family P \<longleftrightarrow> P STA \<or> P STX \<or> P STE"

instance
proof
  have all: "P STA \<and> P STX \<and> P STE \<longleftrightarrow> (\<forall>f. P f)" for P by (metis family.exhaust)
  show "(UNIV :: family set) = set enum_class.enum" by (auto simp: enum_family_def intro: family.exhaust)
  show "distinct (enum_class.enum :: family list)" by (simp add: enum_family_def)
  show "enum_class.enum_all P \<longleftrightarrow> Ball UNIV P" for P :: "family \<Rightarrow> bool" by (simp add: enum_all_family_def all)
  show "enum_class.enum_ex P \<longleftrightarrow> Bex UNIV P" for P :: "family \<Rightarrow> bool"
    using all [of "\<lambda>f. \<not> P f"] by (auto simp: enum_ex_family_def)
qed

end

record changed_flags =
  any :: bool
  lrw :: bool
  bma400 :: bool
  hdc2080 :: bool
  sfh7776 :: bool
  resched :: bool

record use_sensor =
  use_bma400 :: bool
  use_sfh7776 :: bool
  use_hdc2080 :: bool

record DeviceConfig =
  changed :: changed_flags
  isOtaa :: bool
  devEui :: bytes
  appEui :: bytes
  appKey :: bytes
  devAddr :: uint32
  nwkSKey :: bytes
  appSKey :: bytes
  region :: uint8
  txPort :: uint8
  txPower :: uint8
  sf :: uint8
  bw :: uint8
  confirmedMsgs :: bool
  adaptiveDatarate :: bool
  dutyCycle :: bool
  sendInterval :: uint32
  sendTrigger :: uint8
  sendStrategy :: uint8
  hdc2080_mode :: uint8
  hdc2080_threshold :: uint32   \<comment> \<open>an \<open>int32_t\<close>\<close>
  bma400_threshold :: uint32
  bma400_config :: uint16
  sfh7776_threshold_upper :: uint16
  sfh7776_threshold_lower :: uint16
  useSensor :: use_sensor
  singleCount :: uint8
  doubleCount :: uint8
  longCount :: uint8

definition HDC2080_TEMPERATURE_LOW :: uint8 where "HDC2080_TEMPERATURE_LOW = 0"
definition HDC2080_TEMPERATURE_HIGH :: uint8 where "HDC2080_TEMPERATURE_HIGH = 1"
definition HDC2080_HUMIDITY_LOW :: uint8 where "HDC2080_HUMIDITY_LOW = 2"
definition HDC2080_HUMIDITY_HIGH :: uint8 where "HDC2080_HUMIDITY_HIGH = 3"

lemmas hdc2080_modes = HDC2080_TEMPERATURE_LOW_def HDC2080_TEMPERATURE_HIGH_def
  HDC2080_HUMIDITY_LOW_def HDC2080_HUMIDITY_HIGH_def

definition LORAMAC_REGION_EU868 :: uint8 where "LORAMAC_REGION_EU868 = 5"
definition LORAMAC_REGION_US915 :: uint8 where "LORAMAC_REGION_US915 = 8"

lemmas regions = LORAMAC_REGION_EU868_def LORAMAC_REGION_US915_def

definition no_changes :: changed_flags where
  "no_changes = \<lparr>any = False, lrw = False, bma400 = False, hdc2080 = False, sfh7776 = False,
     resched = False\<rparr>"

definition all_changes :: changed_flags where
  "all_changes = \<lparr>any = True, lrw = True, bma400 = True, hdc2080 = True, sfh7776 = True,
     resched = True\<rparr>"

definition DevCfg_default :: DeviceConfig where
  \<comment> \<open>the initialiser of \<open>DevCfg\<close>; members it does not name are zero\<close>
  "DevCfg_default = \<lparr>changed = no_changes, isOtaa = True, devEui = replicate 8 0,
     appEui = replicate 8 0, appKey = replicate 16 0, devAddr = 0, nwkSKey = replicate 16 0,
     appSKey = replicate 16 0, region = LORAMAC_REGION_EU868, txPort = 1, txPower = 16, sf = 12,
     bw = 1, confirmedMsgs = True, adaptiveDatarate = True, dutyCycle = True,
     sendInterval = 86400, sendTrigger = 0, sendStrategy = 0, hdc2080_mode = 0,
     hdc2080_threshold = 0, bma400_threshold = 0, bma400_config = 0,
     sfh7776_threshold_upper = 0, sfh7776_threshold_lower = 0,
     useSensor = \<lparr>use_bma400 = False, use_sfh7776 = False, use_hdc2080 = False\<rparr>,
     singleCount = 0, doubleCount = 0, longCount = 0\<rparr>"

definition config_wf :: "DeviceConfig \<Rightarrow> bool" where
  \<comment> \<open>the sizes of the arrays\<close>
  "config_wf c = (length (devEui c) = 8 \<and> length (appEui c) = 8 \<and> length (appKey c) = 16 \<and>
     length (nwkSKey c) = 16 \<and> length (appSKey c) = 16)"

lemma config_wf_default: "config_wf DevCfg_default"
  by (simp add: config_wf_def DevCfg_default_def)

section \<open>The setters\<close>

definition mark_any :: "DeviceConfig \<Rightarrow> DeviceConfig" where
  "mark_any c = c\<lparr>changed := (changed c)\<lparr>any := True\<rparr>\<rparr>"

definition DEVCFG_SET ::
  "(DeviceConfig \<Rightarrow> 'a) \<Rightarrow> (('a \<Rightarrow> 'a) \<Rightarrow> DeviceConfig \<Rightarrow> DeviceConfig) \<Rightarrow> ('a \<Rightarrow> uint64) \<Rightarrow> (uint64 \<Rightarrow> 'a) \<Rightarrow>
   uint64 \<Rightarrow> DeviceConfig \<Rightarrow> DeviceConfig \<times> bool" where
  \<comment> \<open>\<open>widen\<close> and \<open>narrow\<close> are the conversions of the comparison and of the assignment\<close>
  "DEVCFG_SET get upd widen narrow v c =
    (if widen (get c) \<noteq> v then (mark_any (upd (\<lambda>_. narrow v) c), True) else (c, False))"

definition DEVCFG_MEMCPY ::
  "(DeviceConfig \<Rightarrow> bytes) \<Rightarrow> ((bytes \<Rightarrow> bytes) \<Rightarrow> DeviceConfig \<Rightarrow> DeviceConfig) \<Rightarrow>
   bytes \<Rightarrow> DeviceConfig \<Rightarrow> DeviceConfig \<times> bool" where
  "DEVCFG_MEMCPY get upd v c =
    (if get c \<noteq> v then (mark_any (upd (\<lambda>_. v) c), True) else (c, False))"

definition and_then :: "((bool \<Rightarrow> bool) \<Rightarrow> changed_flags \<Rightarrow> changed_flags) \<Rightarrow> DeviceConfig \<times> bool \<Rightarrow> DeviceConfig" where
  \<comment> \<open>\<open>\<dots> && (DevCfg.changed.flag = true)\<close>\<close>
  "and_then flag r = (case r of (c, ch) \<Rightarrow>
     if ch then c\<lparr>changed := flag (\<lambda>_. True) (changed c)\<rparr> else c)"

definition of_bool64 :: "bool \<Rightarrow> uint64" where "of_bool64 b = (if b then 1 else 0)"
definition to_bool :: "uint64 \<Rightarrow> bool" where "to_bool v = (v \<noteq> 0)"

abbreviation set_bool where "set_bool get upd v \<equiv> DEVCFG_SET get upd of_bool64 to_bool v"
abbreviation set_word where "set_word get upd v \<equiv> DEVCFG_SET get upd ucast ucast v"
abbreviation set_int where "set_int get upd v \<equiv> DEVCFG_SET get upd scast ucast v"
  \<comment> \<open>an \<open>int32_t\<close> member is sign extended in the comparison\<close>

subsection \<open>What a setter does to a member\<close>

text \<open>
  A member is a pair of a selector and an update with the laws of a variable of its own. A setter
  writes the narrowed value, reports a change exactly when the comparison of the code differs, and
  touches nothing else but the flags.
\<close>

locale config_member =
  fixes get :: "DeviceConfig \<Rightarrow> 'a" and upd :: "('a \<Rightarrow> 'a) \<Rightarrow> DeviceConfig \<Rightarrow> DeviceConfig"
    and widen :: "'a \<Rightarrow> uint64" and narrow :: "uint64 \<Rightarrow> 'a"
  assumes get_upd: "get (upd f c) = f (get c)"
    and upd_same: "upd (\<lambda>_. get c) c = c"
    and get_changed: "get (c\<lparr>changed := g\<rparr>) = get c"
    and changed_upd: "changed (upd f c) = changed c"
    and upd_upd: "upd f (upd h c) = upd (\<lambda>x. f (h x)) c"
    and upd_changed: "upd f (c\<lparr>changed := g\<rparr>) = (upd f c)\<lparr>changed := g\<rparr>"
    and narrow_widen: "narrow (widen x) = x"
begin

abbreviation setter where "setter v flag c \<equiv> and_then flag (DEVCFG_SET get upd widen narrow v c)"

lemma setter_value: "get (setter v flag c) = narrow v"
  by (auto simp: DEVCFG_SET_def and_then_def mark_any_def get_changed get_upd narrow_widen)

lemma setter_unchanged: "widen (get c) = v \<Longrightarrow> setter v flag c = c"
  by (simp add: DEVCFG_SET_def and_then_def)

lemma setter_any:
  "changed (setter v flag c) =
    (if widen (get c) = v then changed c else flag (\<lambda>_. True) (changed c \<lparr>any := True\<rparr>))"
  by (auto simp: DEVCFG_SET_def and_then_def mark_any_def changed_upd)

lemma setter_is_assignment: "(setter v flag c)\<lparr>changed := g\<rparr> = (upd (\<lambda>_. narrow v) c)\<lparr>changed := g\<rparr>"
proof (cases "widen (get c) = v")
  case True
  then have "narrow v = get c" by (metis narrow_widen)
  with True show ?thesis by (simp add: DEVCFG_SET_def and_then_def upd_same)
next
  case False
  then show ?thesis by (simp add: DEVCFG_SET_def and_then_def mark_any_def)
qed

lemma setter_again:
  \<comment> \<open>setting a value the member can hold a second time changes nothing\<close>
  "widen (narrow v) = v \<Longrightarrow> setter v flag' (setter v flag c) = setter v flag c"
  by (rule setter_unchanged) (simp add: setter_value)

end

lemma widen_narrow:
  "to_bool (of_bool64 b) = b"
  "ucast (ucast (x :: uint8) :: uint64) = x"
  "ucast (ucast (y :: uint16) :: uint64) = y"
  "ucast (ucast (z :: uint32) :: uint64) = z"
  "ucast (scast (z :: uint32) :: uint64) = z"
  by (simp_all add: to_bool_def of_bool64_def)
    (auto intro!: bit_word_eqI simp: bit_simps)

section \<open>Parts of the configuration and the flags that track them\<close>

definition lrw_part where
  "lrw_part c = ((isOtaa c, devEui c, appEui c, appKey c, devAddr c, nwkSKey c, appSKey c),
     region c, txPort c, txPower c, sf c, bw c, confirmedMsgs c, adaptiveDatarate c, dutyCycle c)"

definition resched_part where "resched_part c = (sendInterval c, sendTrigger c, sendStrategy c)"

definition hdc2080_part where
  "hdc2080_part c = (hdc2080_mode c, hdc2080_threshold c, use_hdc2080 (useSensor c))"

definition sfh7776_part where
  "sfh7776_part c = (sfh7776_threshold_upper c, sfh7776_threshold_lower c, use_sfh7776 (useSensor c))"

definition bma400_part where
  "bma400_part c = (bma400_threshold c, bma400_config c, use_bma400 (useSensor c))"

lemmas config_parts = lrw_part_def resched_part_def hdc2080_part_def sfh7776_part_def bma400_part_def

definition tracked :: "DeviceConfig \<Rightarrow> DeviceConfig \<Rightarrow> bool" where
  \<comment> \<open>\<open>c\<close> came from \<open>c0\<close>, and whatever differs has its flag raised\<close>
  "tracked c0 c \<longleftrightarrow> (c = c0 \<or> any (changed c)) \<and>
     (lrw_part c = lrw_part c0 \<or> lrw (changed c)) \<and>
     (resched_part c = resched_part c0 \<or> resched (changed c)) \<and>
     (hdc2080_part c = hdc2080_part c0 \<or> hdc2080 (changed c)) \<and>
     (sfh7776_part c = sfh7776_part c0 \<or> sfh7776 (changed c)) \<and>
     (bma400_part c = bma400_part c0 \<or> bma400 (changed c))"

lemma tracked_refl [simp]: "tracked c c"
  by (simp add: tracked_def)

lemma parts_changed [simp]:
  "lrw_part (c\<lparr>changed := g\<rparr>) = lrw_part c" "resched_part (c\<lparr>changed := g\<rparr>) = resched_part c"
  "hdc2080_part (c\<lparr>changed := g\<rparr>) = hdc2080_part c" "sfh7776_part (c\<lparr>changed := g\<rparr>) = sfh7776_part c"
  "bma400_part (c\<lparr>changed := g\<rparr>) = bma400_part c"
  by (simp_all add: config_parts)

text \<open>A setter followed by its flag is tracked when it writes only into the part of the flag.\<close>

lemma and_then_DEVCFG:
  "and_then flag (DEVCFG_SET get upd widen narrow v c) =
    (if widen (get c) = v then c
     else (upd (\<lambda>_. narrow v) c)\<lparr>changed := flag (\<lambda>_. True) ((changed (upd (\<lambda>_. narrow v) c))\<lparr>any := True\<rparr>)\<rparr>)"
  "and_then flag (DEVCFG_MEMCPY mget mupd b c) =
    (if mget c = b then c
     else (mupd (\<lambda>_. b) c)\<lparr>changed := flag (\<lambda>_. True) ((changed (mupd (\<lambda>_. b) c))\<lparr>any := True\<rparr>)\<rparr>)"
  by (simp_all add: and_then_def DEVCFG_SET_def DEVCFG_MEMCPY_def mark_any_def)

lemma tracked_lrw:
  assumes "tracked c0 c"
  shows "tracked c0 (and_then lrw_update (set_bool isOtaa isOtaa_update v c))"
    "tracked c0 (and_then lrw_update (DEVCFG_MEMCPY devEui devEui_update b c))"
    "tracked c0 (and_then lrw_update (DEVCFG_MEMCPY appEui appEui_update b c))"
    "tracked c0 (and_then lrw_update (DEVCFG_MEMCPY appKey appKey_update b c))"
    "tracked c0 (and_then lrw_update (set_word devAddr devAddr_update v c))"
    "tracked c0 (and_then lrw_update (DEVCFG_MEMCPY nwkSKey nwkSKey_update b c))"
    "tracked c0 (and_then lrw_update (DEVCFG_MEMCPY appSKey appSKey_update b c))"
    "tracked c0 (and_then lrw_update (set_word region region_update v c))"
    "tracked c0 (and_then lrw_update (set_word txPort txPort_update v c))"
    "tracked c0 (and_then lrw_update (set_word txPower txPower_update v c))"
    "tracked c0 (and_then lrw_update (set_word sf sf_update v c))"
    "tracked c0 (and_then lrw_update (set_word bw bw_update v c))"
    "tracked c0 (and_then lrw_update (set_bool confirmedMsgs confirmedMsgs_update v c))"
    "tracked c0 (and_then lrw_update (set_bool adaptiveDatarate adaptiveDatarate_update v c))"
    "tracked c0 (and_then lrw_update (set_bool dutyCycle dutyCycle_update v c))"
  using assms unfolding and_then_DEVCFG by (auto simp: tracked_def config_parts)

lemma tracked_resched:
  assumes "tracked c0 c"
  shows "tracked c0 (and_then resched_update (set_word sendInterval sendInterval_update v c))"
    "tracked c0 (and_then resched_update (set_word sendTrigger sendTrigger_update v c))"
    "tracked c0 (and_then resched_update (set_word sendStrategy sendStrategy_update v c))"
  using assms unfolding and_then_DEVCFG by (auto simp: tracked_def config_parts)

lemma tracked_sensors:
  assumes "tracked c0 c"
  shows "tracked c0 (and_then hdc2080_update (set_word hdc2080_mode hdc2080_mode_update v c))"
    "tracked c0 (and_then hdc2080_update (set_int hdc2080_threshold hdc2080_threshold_update v c))"
    "tracked c0 (and_then sfh7776_update (set_word sfh7776_threshold_upper sfh7776_threshold_upper_update v c))"
    "tracked c0 (and_then sfh7776_update (set_word sfh7776_threshold_lower sfh7776_threshold_lower_update v c))"
    "tracked c0 (and_then bma400_update (set_word bma400_threshold bma400_threshold_update v c))"
    "tracked c0 (and_then bma400_update (set_word bma400_config bma400_config_update v c))"
  using assms unfolding and_then_DEVCFG by (auto simp: tracked_def config_parts)

lemma tracked_use:
  assumes "tracked c0 c"
  shows "tracked c0 (and_then bma400_update (set_bool (\<lambda>c. use_bma400 (useSensor c)) (\<lambda>f. useSensor_update (use_bma400_update f)) v c))"
    "tracked c0 (and_then sfh7776_update (set_bool (\<lambda>c. use_sfh7776 (useSensor c)) (\<lambda>f. useSensor_update (use_sfh7776_update f)) v c))"
    "tracked c0 (and_then hdc2080_update (set_bool (\<lambda>c. use_hdc2080 (useSensor c)) (\<lambda>f. useSensor_update (use_hdc2080_update f)) v c))"
  using assms unfolding and_then_DEVCFG by (auto simp: tracked_def config_parts)

lemmas tracked_setters = tracked_lrw tracked_resched tracked_sensors tracked_use

section \<open>The members\<close>

text \<open>The contract of a member, discharged for the members whose setter reads a decoded integer.\<close>

interpretation isOtaa: config_member isOtaa isOtaa_update of_bool64 to_bool
  by unfold_locales (simp_all add: widen_narrow comp_def)

interpretation devAddr: config_member devAddr devAddr_update ucast ucast
  by unfold_locales (simp_all add: widen_narrow comp_def)

interpretation txPort: config_member txPort txPort_update ucast ucast
  by unfold_locales (simp_all add: widen_narrow comp_def)

interpretation sendInterval: config_member sendInterval sendInterval_update ucast ucast
  by unfold_locales (simp_all add: widen_narrow comp_def)

interpretation hdc_threshold: config_member hdc2080_threshold hdc2080_threshold_update scast ucast
  by unfold_locales (simp_all add: widen_narrow comp_def)

end
