(* ===== verification/Lorawan_Mac.thy ===== *)
theory Lorawan_Mac
  imports Device_Config
begin

text \<open>
  The part of the vendored LoRaMac-node stack the firmware's configuration goes through: the MAC
  information base (\<open>LoRaMacMibGetRequestConfirm\<close> and \<open>LoRaMacMibSetRequestConfirm\<close> of
  \<^verbatim>\<open>src/Drivers/LoRaMac-node/mac/LoRaMac.c\<close>) for the attributes the firmware reads and writes,
  with the range checks of the two regions it is built for (\<^verbatim>\<open>mac/region\<close>). The state \<open>mac\<close> holds
  the members of \<open>Nvm\<close> behind these attributes and whether a transmission is running.
\<close>

section \<open>The non-volatile context\<close>

definition ACTIVATION_TYPE_NONE :: uint8 where "ACTIVATION_TYPE_NONE = 0"
definition ACTIVATION_TYPE_ABP :: uint8 where "ACTIVATION_TYPE_ABP = 1"
definition ACTIVATION_TYPE_OTAA :: uint8 where "ACTIVATION_TYPE_OTAA = 2"

lemmas activations = ACTIVATION_TYPE_NONE_def ACTIVATION_TYPE_ABP_def ACTIVATION_TYPE_OTAA_def

record mac =
  mac_region :: uint8
  NetworkActivation :: uint8
  mac_dev_eui :: bytes
  mac_join_eui :: bytes
  nwk_key :: bytes
  f_nwk_s_int_key :: bytes
  s_nwk_s_int_key :: bytes
  nwk_s_enc_key :: bytes
  app_s_key :: bytes
  mac_dev_addr :: uint32
  net_id :: uint32
  lrwan_version :: uint32
  ChannelsDatarate :: uint8             \<comment> \<open>an \<open>int8_t\<close>\<close>
  ChannelsDatarateDefault :: uint8      \<comment> \<open>an \<open>int8_t\<close>\<close>
  ChannelsTxPower :: uint8              \<comment> \<open>an \<open>int8_t\<close>\<close>
  ChannelsTxPowerDefault :: uint8       \<comment> \<open>an \<open>int8_t\<close>\<close>
  AdrCtrlOn :: bool
  DutyCycleOn :: bool
  PublicNetwork :: bool
  SystemMaxRxError :: uint32
  tx_running :: bool

section \<open>Regions\<close>

definition RegionCommonValueInRange :: "uint8 \<Rightarrow> int \<Rightarrow> int \<Rightarrow> bool" where
  "RegionCommonValueInRange v lo hi \<longleftrightarrow> lo \<le> sint v \<and> sint v \<le> hi"

datatype verify_attribute = PHY_TX_DR uint8 | PHY_DEF_TX_DR uint8 | PHY_TX_POWER uint8 | PHY_DUTY_CYCLE

fun RegionEU868Verify :: "verify_attribute \<Rightarrow> bool" where
  "RegionEU868Verify (PHY_TX_DR v) = RegionCommonValueInRange v 0 7"
| "RegionEU868Verify (PHY_DEF_TX_DR v) = RegionCommonValueInRange v 0 5"
| "RegionEU868Verify (PHY_TX_POWER v) = RegionCommonValueInRange v 0 7"
| "RegionEU868Verify PHY_DUTY_CYCLE = True"

fun RegionUS915Verify :: "verify_attribute \<Rightarrow> bool" where
  "RegionUS915Verify (PHY_TX_DR v) = RegionCommonValueInRange v 0 4"
| "RegionUS915Verify (PHY_DEF_TX_DR v) = RegionCommonValueInRange v 0 5"
| "RegionUS915Verify (PHY_TX_POWER v) = RegionCommonValueInRange v 0 14"
| "RegionUS915Verify PHY_DUTY_CYCLE = False"

definition RegionVerify :: "uint8 \<Rightarrow> verify_attribute \<Rightarrow> bool" where
  "RegionVerify r a =
    (if r = LORAMAC_REGION_EU868 then RegionEU868Verify a
     else if r = LORAMAC_REGION_US915 then RegionUS915Verify a else False)"

definition DataratesEU868 :: bytes where "DataratesEU868 = [12, 11, 10, 9, 8, 7, 7, 50]"
definition DataratesUS915 :: bytes where
  "DataratesUS915 = [10, 9, 8, 7, 8, 0, 0, 0, 12, 11, 10, 9, 8, 7, 0, 0]"
definition BandwidthsEU868 :: "uint32 list" where
  "BandwidthsEU868 = [125000, 125000, 125000, 125000, 125000, 125000, 250000, 0]"
definition BandwidthsUS915 :: "uint32 list" where
  "BandwidthsUS915 = [125000, 125000, 125000, 125000, 500000, 0, 0, 0, 500000, 500000, 500000, 500000,
     500000, 500000, 0, 0]"

definition RegionCommonGetBandwidth :: "uint8 \<Rightarrow> uint32 list \<Rightarrow> uint8 option" where
  "RegionCommonGetBandwidth dr bandwidths =
    (if length bandwidths \<le> unat dr then None
     else Some (let b = bandwidths ! unat dr in if b = 250000 then 1 else if b = 500000 then 2 else 0))"

definition datarate_at :: "uint8 \<Rightarrow> bytes \<Rightarrow> uint8 option" where
  "datarate_at dr tab = (if length tab \<le> unat dr then None else Some (tab ! unat dr))"

definition PHY_SF_FROM_DR :: "uint8 \<Rightarrow> uint8 \<Rightarrow> uint8 option" where
  \<comment> \<open>\<open>RegionGetPhyParam\<close>; an index outside the table is undefined behaviour\<close>
  "PHY_SF_FROM_DR r dr =
    (if r = LORAMAC_REGION_EU868 then datarate_at dr DataratesEU868
     else if r = LORAMAC_REGION_US915 then datarate_at dr DataratesUS915 else Some 0)"

definition PHY_BW_FROM_DR :: "uint8 \<Rightarrow> uint8 \<Rightarrow> uint8 option" where
  "PHY_BW_FROM_DR r dr =
    (if r = LORAMAC_REGION_EU868 then RegionCommonGetBandwidth dr BandwidthsEU868
     else if r = LORAMAC_REGION_US915 then RegionCommonGetBandwidth dr BandwidthsUS915 else Some 0)"

section \<open>The information base\<close>

datatype mib_set =
    MIB_NETWORK_ACTIVATION uint8
  | MIB_DEV_EUI bytes
  | MIB_JOIN_EUI bytes
  | MIB_ADR bool
  | MIB_NET_ID uint32
  | MIB_DEV_ADDR uint32
  | MIB_NWK_KEY bytes
  | MIB_F_NWK_S_INT_KEY bytes
  | MIB_S_NWK_S_INT_KEY bytes
  | MIB_NWK_S_ENC_KEY bytes
  | MIB_APP_S_KEY bytes
  | MIB_CHANNELS_DEFAULT_DATARATE uint8
  | MIB_CHANNELS_DATARATE uint8
  | MIB_CHANNELS_DEFAULT_TX_POWER uint8
  | MIB_CHANNELS_TX_POWER uint8
  | MIB_ABP_LORAWAN_VERSION uint32
  | MIB_PUBLIC_NETWORK bool
  | MIB_SYSTEM_MAX_RX_ERROR uint32

datatype mac_status = LORAMAC_STATUS_OK | LORAMAC_STATUS_BUSY | LORAMAC_STATUS_PARAMETER_INVALID

definition checked :: "bool \<Rightarrow> (mac \<Rightarrow> mac) \<Rightarrow> mac \<Rightarrow> mac \<times> mac_status" where
  "checked ok f m = (if ok then (f m, LORAMAC_STATUS_OK) else (m, LORAMAC_STATUS_PARAMETER_INVALID))"

definition mib_key :: "((bytes \<Rightarrow> bytes) \<Rightarrow> mac \<Rightarrow> mac) \<Rightarrow> bytes \<Rightarrow> mac \<Rightarrow> mac \<times> mac_status" where
  \<comment> \<open>a session key; \<open>LoRaMacCryptoSetKey\<close> finds each of these key identifiers\<close>
  [simp]: "mib_key upd k m = checked True (upd (\<lambda>_. k)) m"

definition mib_channel ::
  "(uint8 \<Rightarrow> verify_attribute) \<Rightarrow> ((uint8 \<Rightarrow> uint8) \<Rightarrow> mac \<Rightarrow> mac) \<Rightarrow> uint8 \<Rightarrow> mac \<Rightarrow> mac \<times> mac_status" where
  \<comment> \<open>data rate and transmit power, checked against the region\<close>
  [simp]: "mib_channel attr upd v m = checked (RegionVerify (mac_region m) (attr v)) (upd (\<lambda>_. v)) m"

fun mib_apply :: "mib_set \<Rightarrow> mac \<Rightarrow> mac \<times> mac_status" where
  "mib_apply (MIB_NETWORK_ACTIVATION a) m =
     checked (a \<noteq> ACTIVATION_TYPE_OTAA) (\<lambda>m. m\<lparr>NetworkActivation := a\<rparr>) m"
| "mib_apply (MIB_DEV_EUI b) m = checked True (\<lambda>m. m\<lparr>mac_dev_eui := b\<rparr>) m"
| "mib_apply (MIB_JOIN_EUI b) m = checked True (\<lambda>m. m\<lparr>mac_join_eui := b\<rparr>) m"
| "mib_apply (MIB_ADR b) m = checked True (\<lambda>m. m\<lparr>AdrCtrlOn := b\<rparr>) m"
| "mib_apply (MIB_NET_ID n) m = checked True (\<lambda>m. m\<lparr>net_id := n\<rparr>) m"
| "mib_apply (MIB_DEV_ADDR a) m = checked True (\<lambda>m. m\<lparr>mac_dev_addr := a\<rparr>) m"
| "mib_apply (MIB_NWK_KEY k) m = checked True (\<lambda>m. m\<lparr>nwk_key := k\<rparr>) m"
| "mib_apply (MIB_F_NWK_S_INT_KEY k) m = mib_key f_nwk_s_int_key_update k m"
| "mib_apply (MIB_S_NWK_S_INT_KEY k) m = mib_key s_nwk_s_int_key_update k m"
| "mib_apply (MIB_NWK_S_ENC_KEY k) m = mib_key nwk_s_enc_key_update k m"
| "mib_apply (MIB_APP_S_KEY k) m = mib_key app_s_key_update k m"
| "mib_apply (MIB_CHANNELS_DEFAULT_DATARATE d) m = mib_channel PHY_DEF_TX_DR ChannelsDatarateDefault_update d m"
| "mib_apply (MIB_CHANNELS_DATARATE d) m = mib_channel PHY_TX_DR ChannelsDatarate_update d m"
| "mib_apply (MIB_CHANNELS_DEFAULT_TX_POWER p) m = mib_channel PHY_TX_POWER ChannelsTxPowerDefault_update p m"
| "mib_apply (MIB_CHANNELS_TX_POWER p) m = mib_channel PHY_TX_POWER ChannelsTxPower_update p m"
| "mib_apply (MIB_ABP_LORAWAN_VERSION v) m =
     checked (ucast (drop_bit 16 v) \<le> (1 :: uint8)) (\<lambda>m. m\<lparr>lrwan_version := v\<rparr>) m"
| "mib_apply (MIB_PUBLIC_NETWORK b) m = checked True (\<lambda>m. m\<lparr>PublicNetwork := b\<rparr>) m"
| "mib_apply (MIB_SYSTEM_MAX_RX_ERROR n) m = checked True (\<lambda>m. m\<lparr>SystemMaxRxError := n\<rparr>) m"

definition LoRaMacMibSetRequestConfirm :: "mib_set \<Rightarrow> mac \<Rightarrow> mac \<times> mac_status" where
  "LoRaMacMibSetRequestConfirm req m =
    (if tx_running m then (m, LORAMAC_STATUS_BUSY) else mib_apply req m)"

definition mib_put :: "mib_set \<Rightarrow> mac \<Rightarrow> mac" where
  \<comment> \<open>a call whose status is ignored\<close>
  "mib_put req m = fst (LoRaMacMibSetRequestConfirm req m)"

definition LoRaMacTestSetDutyCycleOn :: "bool \<Rightarrow> mac \<Rightarrow> mac" where
  "LoRaMacTestSetDutyCycleOn b m =
    (if RegionVerify (mac_region m) PHY_DUTY_CYCLE then m\<lparr>DutyCycleOn := b\<rparr> else m)"

lemma mib_put_idle: "\<not> tx_running m \<Longrightarrow> mib_put req m = fst (mib_apply req m)"
  by (simp add: mib_put_def LoRaMacMibSetRequestConfirm_def)

lemma mib_put_busy: "tx_running m \<Longrightarrow> mib_put req m = m"
  by (simp add: mib_put_def LoRaMacMibSetRequestConfirm_def)

lemma tx_running_put [simp]: "tx_running (mib_put req m) = tx_running m"
  by (cases req) (simp_all add: mib_put_def LoRaMacMibSetRequestConfirm_def checked_def)

lemma mac_region_put [simp]: "mac_region (mib_put req m) = mac_region m"
  by (cases req) (simp_all add: mib_put_def LoRaMacMibSetRequestConfirm_def checked_def)

end
