(* ===== verification/Message_Ids.thy ===== *)
theory Message_Ids
  imports Firmware_Prelude
begin

unbundle bit_operations_syntax

text \<open>
  The field keys of \<^verbatim>\<open>src/Inc/protobuf.h\<close>: the identifier of the field in the upper 29 bits, its
  wire type in the lower three. \<open>PBMSG_\<close> keys are those of the message DeviceConfiguration,
  \<open>PBSMSG_\<close> those of DeviceSensors and \<open>PBEEPROM_\<close> the private ones of the EEPROM image.
\<close>

definition PB_TAGTYPE_VARINT :: uint32 where "PB_TAGTYPE_VARINT = 0"
definition PB_TAGTYPE_FIXED64 :: uint32 where "PB_TAGTYPE_FIXED64 = 1"
definition PB_TAGTYPE_BYTES :: uint32 where "PB_TAGTYPE_BYTES = 2"
definition PB_TAGTYPE_FIXED32 :: uint32 where "PB_TAGTYPE_FIXED32 = 5"

definition pb_key :: "uint32 \<Rightarrow> uint32 \<Rightarrow> uint32" where
  "pb_key ident kind = push_bit 3 ident OR kind"

definition PBMSG_TX_DEVICE_PART_NUMBER :: uint32 where
  "PBMSG_TX_DEVICE_PART_NUMBER = pb_key 1 PB_TAGTYPE_VARINT"
definition PBMSG_TX_DEVICE_FW_VERSION :: uint32 where
  "PBMSG_TX_DEVICE_FW_VERSION = pb_key 2 PB_TAGTYPE_VARINT"
definition PBMSG_TX_SECURE_ELEMENT_EMPTY_SLOTS :: uint32 where
  "PBMSG_TX_SECURE_ELEMENT_EMPTY_SLOTS = pb_key 3 PB_TAGTYPE_VARINT"
definition PBMSG_BX_SECURE_ELEMENT_USE :: uint32 where
  "PBMSG_BX_SECURE_ELEMENT_USE = pb_key 4 PB_TAGTYPE_VARINT"
definition PBMSG_BX_LORA_OTAA :: uint32 where
  "PBMSG_BX_LORA_OTAA = pb_key 5 PB_TAGTYPE_VARINT"
definition PBMSG_BX_LORA_DEV_EUI :: uint32 where
  "PBMSG_BX_LORA_DEV_EUI = pb_key 6 PB_TAGTYPE_FIXED64"
definition PBMSG_BX_LORA_APP_EUI :: uint32 where
  "PBMSG_BX_LORA_APP_EUI = pb_key 7 PB_TAGTYPE_FIXED64"
definition PBMSG_BX_LORA_APP_KEY :: uint32 where
  "PBMSG_BX_LORA_APP_KEY = pb_key 8 PB_TAGTYPE_BYTES"
definition PBMSG_BX_LORA_DEV_ADDR :: uint32 where
  "PBMSG_BX_LORA_DEV_ADDR = pb_key 9 PB_TAGTYPE_FIXED32"
definition PBMSG_BX_LORA_MAC_NET_SESSION_KEY :: uint32 where
  "PBMSG_BX_LORA_MAC_NET_SESSION_KEY = pb_key 10 PB_TAGTYPE_BYTES"
definition PBMSG_BX_LORA_MAC_APP_SESSION_KEY :: uint32 where
  "PBMSG_BX_LORA_MAC_APP_SESSION_KEY = pb_key 11 PB_TAGTYPE_BYTES"
definition PBMSG_TX_LORA_JOINED :: uint32 where
  "PBMSG_TX_LORA_JOINED = pb_key 12 PB_TAGTYPE_VARINT"
definition PBMSG_TX_LORA_FP :: uint32 where
  "PBMSG_TX_LORA_FP = pb_key 13 PB_TAGTYPE_VARINT"
definition PBMSG_BX_LORA_PORT :: uint32 where
  "PBMSG_BX_LORA_PORT = pb_key 14 PB_TAGTYPE_VARINT"
definition PBMSG_TX_LORA_TXP :: uint32 where
  "PBMSG_TX_LORA_TXP = pb_key 15 PB_TAGTYPE_VARINT"
definition PBMSG_TX_LORA_SF :: uint32 where
  "PBMSG_TX_LORA_SF = pb_key 16 PB_TAGTYPE_VARINT"
definition PBMSG_TX_LORA_BW :: uint32 where
  "PBMSG_TX_LORA_BW = pb_key 17 PB_TAGTYPE_VARINT"
definition PBMSG_TX_LORA_CONFIRMED_MESSAGES :: uint32 where
  "PBMSG_TX_LORA_CONFIRMED_MESSAGES = pb_key 18 PB_TAGTYPE_VARINT"
definition PBMSG_TX_LORA_ADAPTIVE_DATA_RATE :: uint32 where
  "PBMSG_TX_LORA_ADAPTIVE_DATA_RATE = pb_key 19 PB_TAGTYPE_VARINT"
definition PBMSG_TX_LORA_RESPECT_DUTY_CYCLE :: uint32 where
  "PBMSG_TX_LORA_RESPECT_DUTY_CYCLE = pb_key 20 PB_TAGTYPE_VARINT"
definition PBMSG_BX_SENSOR_TIMEBASE :: uint32 where
  "PBMSG_BX_SENSOR_TIMEBASE = pb_key 21 PB_TAGTYPE_VARINT"
definition PBMSG_BX_SENSOR_SEND_TRIGGER :: uint32 where
  "PBMSG_BX_SENSOR_SEND_TRIGGER = pb_key 22 PB_TAGTYPE_VARINT"
definition PBMSG_BX_SENSOR_SEND_STRATEGY :: uint32 where
  "PBMSG_BX_SENSOR_SEND_STRATEGY = pb_key 23 PB_TAGTYPE_VARINT"
definition PBMSG_BX_SENSOR_HUMIDITY_UPPER_THRESHOLD :: uint32 where
  "PBMSG_BX_SENSOR_HUMIDITY_UPPER_THRESHOLD = pb_key 24 PB_TAGTYPE_VARINT"
definition PBMSG_BX_SENSOR_HUMIDITY_LOWER_THRESHOLD :: uint32 where
  "PBMSG_BX_SENSOR_HUMIDITY_LOWER_THRESHOLD = pb_key 25 PB_TAGTYPE_VARINT"
definition PBMSG_BX_SENSOR_TEMPERATURE_UPPER_THRESHOLD :: uint32 where
  "PBMSG_BX_SENSOR_TEMPERATURE_UPPER_THRESHOLD = pb_key 26 PB_TAGTYPE_VARINT"
definition PBMSG_BX_SENSOR_TEMPERATURE_LOWER_THRESHOLD :: uint32 where
  "PBMSG_BX_SENSOR_TEMPERATURE_LOWER_THRESHOLD = pb_key 27 PB_TAGTYPE_VARINT"
definition PBMSG_BX_SENSOR_LUMINANCE_UPPER_THRESHOLD :: uint32 where
  "PBMSG_BX_SENSOR_LUMINANCE_UPPER_THRESHOLD = pb_key 28 PB_TAGTYPE_VARINT"
definition PBMSG_BX_SENSOR_LUMINANCE_LOWER_THRESHOLD :: uint32 where
  "PBMSG_BX_SENSOR_LUMINANCE_LOWER_THRESHOLD = pb_key 29 PB_TAGTYPE_VARINT"
definition PBMSG_BX_SENSOR_AXIS_THRESHOLD :: uint32 where
  "PBMSG_BX_SENSOR_AXIS_THRESHOLD = pb_key 30 PB_TAGTYPE_VARINT"
definition PBMSG_BX_SENSOR_AXIS_CONFIGURE :: uint32 where
  "PBMSG_BX_SENSOR_AXIS_CONFIGURE = pb_key 31 PB_TAGTYPE_VARINT"
definition PBEEPROM_BUTTON_SINGLE_COUNT :: uint32 where
  "PBEEPROM_BUTTON_SINGLE_COUNT = pb_key 2047 PB_TAGTYPE_VARINT"
definition PBEEPROM_BUTTON_DOUBLE_COUNT :: uint32 where
  "PBEEPROM_BUTTON_DOUBLE_COUNT = pb_key 2046 PB_TAGTYPE_VARINT"
definition PBEEPROM_BUTTON_LONG_COUNT :: uint32 where
  "PBEEPROM_BUTTON_LONG_COUNT = pb_key 2045 PB_TAGTYPE_VARINT"
definition PBSMSG_TX_DEVICE_PART_NUMBER :: uint32 where
  "PBSMSG_TX_DEVICE_PART_NUMBER = pb_key 1 PB_TAGTYPE_VARINT"
definition PBSMSG_TX_DEVICE_BATTERY_VOLTAGE :: uint32 where
  "PBSMSG_TX_DEVICE_BATTERY_VOLTAGE = pb_key 2 PB_TAGTYPE_VARINT"
definition PBSMSG_TX_SENSOR_TEMPERATURE :: uint32 where
  "PBSMSG_TX_SENSOR_TEMPERATURE = pb_key 3 PB_TAGTYPE_VARINT"
definition PBSMSG_TX_SENSOR_HUMIDITY :: uint32 where
  "PBSMSG_TX_SENSOR_HUMIDITY = pb_key 4 PB_TAGTYPE_VARINT"
definition PBSMSG_TX_SENSOR_PRESSURE :: uint32 where
  "PBSMSG_TX_SENSOR_PRESSURE = pb_key 5 PB_TAGTYPE_VARINT"
definition PBSMSG_TX_SENSOR_AIR_QUALITY :: uint32 where
  "PBSMSG_TX_SENSOR_AIR_QUALITY = pb_key 6 PB_TAGTYPE_VARINT"
definition PBSMSG_TX_SENSOR_LUMINANCE :: uint32 where
  "PBSMSG_TX_SENSOR_LUMINANCE = pb_key 7 PB_TAGTYPE_VARINT"
definition PBSMSG_TX_SENSOR_AIR_VOC_PPM :: uint32 where
  "PBSMSG_TX_SENSOR_AIR_VOC_PPM = pb_key 14 PB_TAGTYPE_FIXED32"
definition PBSMSG_TX_SENSOR_AIR_CO2_PPM :: uint32 where
  "PBSMSG_TX_SENSOR_AIR_CO2_PPM = pb_key 15 PB_TAGTYPE_FIXED32"
definition PBSMSG_TX_SENSOR_AIR_ACCURACY :: uint32 where
  "PBSMSG_TX_SENSOR_AIR_ACCURACY = pb_key 16 PB_TAGTYPE_VARINT"
definition PBSMSG_TX_SENSOR_X_AXIS :: uint32 where
  "PBSMSG_TX_SENSOR_X_AXIS = pb_key 8 PB_TAGTYPE_VARINT"
definition PBSMSG_TX_SENSOR_Y_AXIS :: uint32 where
  "PBSMSG_TX_SENSOR_Y_AXIS = pb_key 9 PB_TAGTYPE_VARINT"
definition PBSMSG_TX_SENSOR_Z_AXIS :: uint32 where
  "PBSMSG_TX_SENSOR_Z_AXIS = pb_key 10 PB_TAGTYPE_VARINT"
definition PBSMSG_TX_SENSOR_GESTURE_SINGLE_COUNT :: uint32 where
  "PBSMSG_TX_SENSOR_GESTURE_SINGLE_COUNT = pb_key 11 PB_TAGTYPE_VARINT"
definition PBSMSG_TX_SENSOR_GESTURE_DOUBLE_COUNT :: uint32 where
  "PBSMSG_TX_SENSOR_GESTURE_DOUBLE_COUNT = pb_key 12 PB_TAGTYPE_VARINT"
definition PBSMSG_TX_SENSOR_GESTURE_LONG_COUNT :: uint32 where
  "PBSMSG_TX_SENSOR_GESTURE_LONG_COUNT = pb_key 13 PB_TAGTYPE_VARINT"

definition PBENUM_PARTNR_STA :: uint64 where "PBENUM_PARTNR_STA = 1"
definition PBENUM_PARTNR_STX :: uint64 where "PBENUM_PARTNR_STX = 2"
definition PBENUM_PARTNR_STE :: uint64 where "PBENUM_PARTNR_STE = 3"
definition PBENUM_FP_EU868 :: uint64 where "PBENUM_FP_EU868 = 1"
definition PBENUM_FP_US915 :: uint64 where "PBENUM_FP_US915 = 2"
definition PBENUM_BW_125 :: uint64 where "PBENUM_BW_125 = 1"
definition PBENUM_BW_250 :: uint64 where "PBENUM_BW_250 = 2"
definition PBENUM_BW_500 :: uint64 where "PBENUM_BW_500 = 3"
definition PBMSGID_DEVICE_CONFIGURATION :: uint8 where "PBMSGID_DEVICE_CONFIGURATION = 0"
definition PBMSGID_DEVICE_SENSORS :: uint8 where "PBMSGID_DEVICE_SENSORS = 1"

text \<open>The keys as numbers.\<close>

lemma config_key_values:
  "PBMSG_TX_DEVICE_PART_NUMBER = 8"
  "PBMSG_TX_DEVICE_FW_VERSION = 16"
  "PBMSG_TX_SECURE_ELEMENT_EMPTY_SLOTS = 24"
  "PBMSG_BX_SECURE_ELEMENT_USE = 32"
  "PBMSG_BX_LORA_OTAA = 40"
  "PBMSG_BX_LORA_DEV_EUI = 49"
  "PBMSG_BX_LORA_APP_EUI = 57"
  "PBMSG_BX_LORA_APP_KEY = 66"
  "PBMSG_BX_LORA_DEV_ADDR = 77"
  "PBMSG_BX_LORA_MAC_NET_SESSION_KEY = 82"
  "PBMSG_BX_LORA_MAC_APP_SESSION_KEY = 90"
  "PBMSG_TX_LORA_JOINED = 96"
  "PBMSG_TX_LORA_FP = 104"
  "PBMSG_BX_LORA_PORT = 112"
  "PBMSG_TX_LORA_TXP = 120"
  "PBMSG_TX_LORA_SF = 128"
  "PBMSG_TX_LORA_BW = 136"
  "PBMSG_TX_LORA_CONFIRMED_MESSAGES = 144"
  "PBMSG_TX_LORA_ADAPTIVE_DATA_RATE = 152"
  "PBMSG_TX_LORA_RESPECT_DUTY_CYCLE = 160"
  "PBMSG_BX_SENSOR_TIMEBASE = 168"
  "PBMSG_BX_SENSOR_SEND_TRIGGER = 176"
  "PBMSG_BX_SENSOR_SEND_STRATEGY = 184"
  "PBMSG_BX_SENSOR_HUMIDITY_UPPER_THRESHOLD = 192"
  "PBMSG_BX_SENSOR_HUMIDITY_LOWER_THRESHOLD = 200"
  "PBMSG_BX_SENSOR_TEMPERATURE_UPPER_THRESHOLD = 208"
  "PBMSG_BX_SENSOR_TEMPERATURE_LOWER_THRESHOLD = 216"
  "PBMSG_BX_SENSOR_LUMINANCE_UPPER_THRESHOLD = 224"
  "PBMSG_BX_SENSOR_LUMINANCE_LOWER_THRESHOLD = 232"
  "PBMSG_BX_SENSOR_AXIS_THRESHOLD = 240"
  "PBMSG_BX_SENSOR_AXIS_CONFIGURE = 248"
  "PBEEPROM_BUTTON_SINGLE_COUNT = 16376"
  "PBEEPROM_BUTTON_DOUBLE_COUNT = 16368"
  "PBEEPROM_BUTTON_LONG_COUNT = 16360"
  by (simp_all add: pb_key_def PB_TAGTYPE_VARINT_def PB_TAGTYPE_FIXED64_def PB_TAGTYPE_BYTES_def
    PB_TAGTYPE_FIXED32_def
    PBMSG_TX_DEVICE_PART_NUMBER_def PBMSG_TX_DEVICE_FW_VERSION_def
    PBMSG_TX_SECURE_ELEMENT_EMPTY_SLOTS_def PBMSG_BX_SECURE_ELEMENT_USE_def
    PBMSG_BX_LORA_OTAA_def PBMSG_BX_LORA_DEV_EUI_def PBMSG_BX_LORA_APP_EUI_def
    PBMSG_BX_LORA_APP_KEY_def PBMSG_BX_LORA_DEV_ADDR_def PBMSG_BX_LORA_MAC_NET_SESSION_KEY_def
    PBMSG_BX_LORA_MAC_APP_SESSION_KEY_def PBMSG_TX_LORA_JOINED_def PBMSG_TX_LORA_FP_def
    PBMSG_BX_LORA_PORT_def PBMSG_TX_LORA_TXP_def PBMSG_TX_LORA_SF_def PBMSG_TX_LORA_BW_def
    PBMSG_TX_LORA_CONFIRMED_MESSAGES_def PBMSG_TX_LORA_ADAPTIVE_DATA_RATE_def
    PBMSG_TX_LORA_RESPECT_DUTY_CYCLE_def PBMSG_BX_SENSOR_TIMEBASE_def
    PBMSG_BX_SENSOR_SEND_TRIGGER_def PBMSG_BX_SENSOR_SEND_STRATEGY_def
    PBMSG_BX_SENSOR_HUMIDITY_UPPER_THRESHOLD_def PBMSG_BX_SENSOR_HUMIDITY_LOWER_THRESHOLD_def
    PBMSG_BX_SENSOR_TEMPERATURE_UPPER_THRESHOLD_def
    PBMSG_BX_SENSOR_TEMPERATURE_LOWER_THRESHOLD_def
    PBMSG_BX_SENSOR_LUMINANCE_UPPER_THRESHOLD_def PBMSG_BX_SENSOR_LUMINANCE_LOWER_THRESHOLD_def
    PBMSG_BX_SENSOR_AXIS_THRESHOLD_def PBMSG_BX_SENSOR_AXIS_CONFIGURE_def
    PBEEPROM_BUTTON_SINGLE_COUNT_def PBEEPROM_BUTTON_DOUBLE_COUNT_def
    PBEEPROM_BUTTON_LONG_COUNT_def)

lemma sensor_key_values:
  "PBSMSG_TX_DEVICE_PART_NUMBER = 8"
  "PBSMSG_TX_DEVICE_BATTERY_VOLTAGE = 16"
  "PBSMSG_TX_SENSOR_TEMPERATURE = 24"
  "PBSMSG_TX_SENSOR_HUMIDITY = 32"
  "PBSMSG_TX_SENSOR_PRESSURE = 40"
  "PBSMSG_TX_SENSOR_AIR_QUALITY = 48"
  "PBSMSG_TX_SENSOR_LUMINANCE = 56"
  "PBSMSG_TX_SENSOR_AIR_VOC_PPM = 117"
  "PBSMSG_TX_SENSOR_AIR_CO2_PPM = 125"
  "PBSMSG_TX_SENSOR_AIR_ACCURACY = 128"
  "PBSMSG_TX_SENSOR_X_AXIS = 64"
  "PBSMSG_TX_SENSOR_Y_AXIS = 72"
  "PBSMSG_TX_SENSOR_Z_AXIS = 80"
  "PBSMSG_TX_SENSOR_GESTURE_SINGLE_COUNT = 88"
  "PBSMSG_TX_SENSOR_GESTURE_DOUBLE_COUNT = 96"
  "PBSMSG_TX_SENSOR_GESTURE_LONG_COUNT = 104"
  by (simp_all add: pb_key_def PB_TAGTYPE_VARINT_def PB_TAGTYPE_FIXED64_def PB_TAGTYPE_BYTES_def
    PB_TAGTYPE_FIXED32_def
    PBSMSG_TX_DEVICE_PART_NUMBER_def PBSMSG_TX_DEVICE_BATTERY_VOLTAGE_def
    PBSMSG_TX_SENSOR_TEMPERATURE_def PBSMSG_TX_SENSOR_HUMIDITY_def PBSMSG_TX_SENSOR_PRESSURE_def
    PBSMSG_TX_SENSOR_AIR_QUALITY_def PBSMSG_TX_SENSOR_LUMINANCE_def
    PBSMSG_TX_SENSOR_AIR_VOC_PPM_def PBSMSG_TX_SENSOR_AIR_CO2_PPM_def
    PBSMSG_TX_SENSOR_AIR_ACCURACY_def PBSMSG_TX_SENSOR_X_AXIS_def PBSMSG_TX_SENSOR_Y_AXIS_def
    PBSMSG_TX_SENSOR_Z_AXIS_def PBSMSG_TX_SENSOR_GESTURE_SINGLE_COUNT_def
    PBSMSG_TX_SENSOR_GESTURE_DOUBLE_COUNT_def PBSMSG_TX_SENSOR_GESTURE_LONG_COUNT_def)

lemmas pbenum_values = PBENUM_PARTNR_STA_def PBENUM_PARTNR_STX_def PBENUM_PARTNR_STE_def PBENUM_FP_EU868_def
  PBENUM_FP_US915_def PBENUM_BW_125_def PBENUM_BW_250_def PBENUM_BW_500_def

end
