(* ===== verification/Wire_Format.thy ===== *)
theory Wire_Format
  imports Firmware_Prelude
begin

unbundle bit_operations_syntax

text \<open>
  The protobuf wire format primitives of \<^verbatim>\<open>src/Src/protobuf.c\<close>.
\<close>

section \<open>Fixed-width little endian integers\<close>

definition u64 :: "bytes \<Rightarrow> uint64" where
  "u64 b = push_bit 56 (ucast (b ! 7)) OR push_bit 48 (ucast (b ! 6)) OR
     push_bit 40 (ucast (b ! 5)) OR push_bit 32 (ucast (b ! 4)) OR
     push_bit 24 (ucast (b ! 3)) OR push_bit 16 (ucast (b ! 2)) OR
     push_bit 8 (ucast (b ! 1)) OR ucast (b ! 0)"

definition b64 :: "uint64 \<Rightarrow> bytes" where
  "b64 v = [ucast (drop_bit 0 v AND 0xFF), ucast (drop_bit 8 v AND 0xFF),
     ucast (drop_bit 16 v AND 0xFF), ucast (drop_bit 24 v AND 0xFF),
     ucast (drop_bit 32 v AND 0xFF), ucast (drop_bit 40 v AND 0xFF),
     ucast (drop_bit 48 v AND 0xFF), ucast (drop_bit 56 v AND 0xFF)]"

lemma length_b64 [simp]: "length (b64 v) = 8"
  by (simp add: b64_def)

lemma bit_u64:
  assumes "n < 64"
  shows "bit (u64 b) n = bit (b ! (n div 8)) (n mod 8)"
proof -
  have n: "n mod 8 = n - 8 * (n div 8)" "8 * (n div 8) \<le> n" "n < 8 * (n div 8) + 8"
    by (simp_all add: minus_mult_div_eq_mod)
  from assms have "n div 8 < 8" by simp
  from less_8_cases [OF this] n assms show ?thesis
    by (elim disjE) (auto simp: u64_def bit_simps)
qed

lemma nth_b64: "i < 8 \<Longrightarrow> b64 v ! i = ucast (drop_bit (8 * i) v)"
  by (rule bit_word_eqI, drule less_8_cases, elim disjE)
    (simp_all add: b64_def bit_simps mask_numerals)

lemma b64_u64:
  assumes "length b = 8"
  shows "b64 (u64 b) = b"
proof (rule nth_equalityI)
  fix i assume "i < length (b64 (u64 b))"
  then have i: "i < 8" by simp
  show "b64 (u64 b) ! i = b ! i"
  proof (rule bit_word_eqI)
    fix j assume "j < LENGTH(8)"
    with i show "bit (b64 (u64 b) ! i) j = bit (b ! i) j"
      by (simp add: nth_b64 bit_simps bit_u64)
  qed
qed (use assms in simp)

lemma u64_b64: "u64 (b64 v) = v"
proof (rule bit_word_eqI)
  fix n assume "n < LENGTH(64)"
  then show "bit (u64 (b64 v)) n = bit v n"
    by (simp add: bit_u64 nth_b64 bit_simps)
qed

section \<open>Signed integers: zig-zag\<close>

text \<open>\<open>int64_t\<close> and \<open>uint64_t\<close> share their words: \<open>val < 0\<close> is the sign bit.\<close>

definition PBEncodeSInt :: "uint64 \<Rightarrow> uint64" where
  "PBEncodeSInt val = push_bit 1 val XOR (if sint val < 0 then - 1 else 0)"

definition PBDecodeSInt :: "uint64 \<Rightarrow> uint64" where
  "PBDecodeSInt val = (if val AND 1 \<noteq> 0 then NOT (drop_bit 1 val) else drop_bit 1 val)"

lemma sint_neg_iff_bit: "sint (v :: uint64) < 0 \<longleftrightarrow> bit v 63"
  using bit_last_iff [of v] by simp

lemma and_1_iff_bit: "v AND 1 \<noteq> 0 \<longleftrightarrow> bit (v :: 'a::len word) 0"
  by (simp add: and_one_eq bit_0 odd_iff_mod_2_eq_one[symmetric])

lemma bit_PBEncodeSInt:
  "n < 64 \<Longrightarrow> bit (PBEncodeSInt v) n \<longleftrightarrow> ((n \<noteq> 0 \<and> bit v (n - 1)) \<noteq> bit v 63)"
  unfolding PBEncodeSInt_def sint_neg_iff_bit
  by (auto simp: bit_simps bit_double_iff mult.commute [of v])

lemma bit_PBDecodeSInt:
  "n < 64 \<Longrightarrow> bit (PBDecodeSInt v) n \<longleftrightarrow> ((n \<noteq> 63 \<and> bit v (Suc n)) \<noteq> bit v 0)"
  unfolding PBDecodeSInt_def and_1_iff_bit by (auto simp: bit_simps)

lemma PBDecodeSInt_PBEncodeSInt: "PBDecodeSInt (PBEncodeSInt v) = v"
proof (rule bit_word_eqI)
  fix n assume "n < LENGTH(64)"
  then show "bit (PBDecodeSInt (PBEncodeSInt v)) n = bit v n"
    by (cases "n = 63") (auto simp: bit_PBDecodeSInt bit_PBEncodeSInt)
qed

lemma PBEncodeSInt_PBDecodeSInt: "PBEncodeSInt (PBDecodeSInt v) = v"
proof (rule bit_word_eqI)
  fix n assume "n < LENGTH(64)"
  then show "bit (PBEncodeSInt (PBDecodeSInt v)) n = bit v n"
    by (cases "n = 0") (auto simp: bit_PBDecodeSInt bit_PBEncodeSInt)
qed

section \<open>Encoding one key-value pair\<close>

datatype va_arg = VaU64 uint64 | VaU32 uint32 | VaBytes nat bytes

definition low7 :: "'a::len word \<Rightarrow> uint8" where
  \<comment> \<open>\<open>(x & 0x7f) | (x >> 7 ? 0x80 : 0)\<close>\<close>
  "low7 x = (ucast x AND 0x7F) OR (if drop_bit 7 x \<noteq> 0 then 0x80 else 0)"

definition put :: "nat \<Rightarrow> uint8 \<Rightarrow> bytes \<times> nat \<Rightarrow> bytes \<times> nat" where
  \<comment> \<open>\<open>if(size++ < len) out[size - 1] = b\<close>\<close>
  "put len b st = (case st of (out, sz) \<Rightarrow>
     (if sz < len then out[sz := b] else out, sz + 1))"

definition copy_in :: "nat \<Rightarrow> nat \<Rightarrow> bytes \<Rightarrow> bytes \<times> nat \<Rightarrow> (bytes \<times> nat) option" where
  \<comment> \<open>the \<open>cpylen\<close> rule and the \<open>memcpy\<close> of \<open>n\<close> bytes of \<open>bs\<close>\<close>
  "copy_in len n bs st = (case st of (out, sz) \<Rightarrow>
     let cpylen = (if sz > len then 0 else if sz + n > len then len - sz else n)
     in if length bs < cpylen then None
        else Some (take sz out @ take cpylen bs @ drop (sz + cpylen) out, sz + n))"

lemma drop_bit_7_less: "x \<noteq> 0 \<Longrightarrow> unat (drop_bit 7 (x :: 'a::len word)) < unat x"
  unfolding unat_drop_bit_eq by (subst drop_bit_eq_div) (simp add: unat_gt_0)

lemma drop_bit_7_decreases:
  "drop_bit 7 (x :: 'a::len word) \<noteq> 0 \<Longrightarrow> unat (drop_bit 7 x) < unat x"
  by (rule drop_bit_7_less) auto

lemma drop_bit_7_ucast: "drop_bit 7 (ucast (i :: uint32) :: uint64) = ucast (drop_bit 7 i)"
  by (rule bit_word_eqI) (auto simp: bit_simps dest: bit_imp_le_length)

function key_loop :: "nat \<Rightarrow> uint32 \<Rightarrow> bytes \<times> nat \<Rightarrow> bytes \<times> nat" where
  "key_loop len i st = (if i = 0 then st else key_loop len (drop_bit 7 i) (put len (low7 i) st))"
  by auto
termination
  by (relation "measure (\<lambda>(len, i, st). unat i)")
    (simp_all add: drop_bit_7_less)
declare key_loop.simps [simp del]

function varint_loop :: "nat \<Rightarrow> uint64 \<Rightarrow> bytes \<times> nat \<Rightarrow> bytes \<times> nat" where
  "varint_loop len x st =
    (let st' = put len (low7 x) st; x' = drop_bit 7 x
     in if x' \<noteq> 0 then varint_loop len x' st' else st')"
  by auto
termination
  by (relation "measure (\<lambda>(len, i, st). unat i)") (simp_all add: drop_bit_7_decreases)
declare varint_loop.simps [simp del]

definition put_key :: "nat \<Rightarrow> uint32 \<Rightarrow> bytes \<times> nat \<Rightarrow> bytes \<times> nat" where
  "put_key len key st = key_loop len (drop_bit 4 (drop_bit 3 key))
     (put len ((ucast key AND 0x7F) OR (if drop_bit 7 key \<noteq> 0 then 0x80 else 0)) st)"

definition PBEncodeField :: "bytes \<Rightarrow> nat \<Rightarrow> uint32 \<Rightarrow> va_arg \<Rightarrow> (bytes \<times> nat) option" where
  "PBEncodeField out len key ap =
    (let type = key AND 0x7; id = drop_bit 3 key
     in if \<not> (type = 0 \<or> type = 1 \<or> type = 2 \<or> type = 5) \<or> length out < len \<or> id = 0 then None
        else
          let st = put_key len key (out, 0)
          in case ap of
               VaU64 x \<Rightarrow>
                 if type = 0 then Some (varint_loop len x st)
                 else if type = 1 then copy_in len 8 (b64 x) st
                 else None
             | VaU32 x \<Rightarrow> if type = 5 then copy_in len 4 (take 4 (b64 (ucast x))) st else None
             | VaBytes buflen buf \<Rightarrow>
                 if type = 2 then copy_in len buflen buf (varint_loop len (word_of_nat buflen) st)
                 else None)"

text \<open>The reference: an unbounded encoder.\<close>

function varint_bytes :: "uint64 \<Rightarrow> bytes" where
  "varint_bytes x = low7 x # (if drop_bit 7 x \<noteq> 0 then varint_bytes (drop_bit 7 x) else [])"
  by auto
termination
  by (relation "measure unat") (simp_all add: drop_bit_7_decreases)
declare varint_bytes.simps [simp del]

fun value_bytes :: "va_arg \<Rightarrow> bytes" where
  "value_bytes (VaU64 x) = varint_bytes x"
| "value_bytes (VaU32 x) = take 4 (b64 (ucast x))"
| "value_bytes (VaBytes n bs) = varint_bytes (word_of_nat n) @ take n bs"

definition field_bytes :: "uint32 \<Rightarrow> va_arg \<Rightarrow> bytes" where
  "field_bytes key ap = varint_bytes (ucast key) @
    (if key AND 7 = 1 then (case ap of VaU64 x \<Rightarrow> b64 x | _ \<Rightarrow> []) else value_bytes ap)"

definition field_ok :: "uint32 \<Rightarrow> va_arg \<Rightarrow> bool" where
  \<comment> \<open>an identifier, and the argument the type of the key asks for\<close>
  "field_ok key ap = (drop_bit 3 key \<noteq> 0 \<and>
    (case ap of VaU64 _ \<Rightarrow> key AND 7 = 0 \<or> key AND 7 = 1
     | VaU32 _ \<Rightarrow> key AND 7 = 5
     | VaBytes n bs \<Rightarrow> key AND 7 = 2 \<and> n \<le> length bs))"

lemma put_clip: "len \<le> length out \<Longrightarrow> put len b (out, p) = (clip_write len p [b] out, p + 1)"
  by (simp add: put_def clip_write_single)

lemma copy_in_clip:
  assumes "len \<le> length out" "n \<le> length bs"
  shows "copy_in len n bs (out, p) = Some (clip_write len p (take n bs) out, p + n)"
  using assms by (auto simp: copy_in_def clip_write_def Let_def min_def not_less)

lemma varint_loop_clip:
  "len \<le> length out \<Longrightarrow> varint_loop len x (out, p) =
    (clip_write len p (varint_bytes x) out, p + length (varint_bytes x))"
proof (induction x arbitrary: out p rule: varint_bytes.induct)
  case (1 x)
  show ?case
  proof (cases "drop_bit 7 x = 0")
    case True
    with 1 show ?thesis by (subst varint_loop.simps, subst (1 2) varint_bytes.simps) (simp add: put_clip)
  next
    case False
    with 1 show ?thesis
      using clip_write_append [of len out p "[low7 x]" "varint_bytes (drop_bit 7 x)"]
      by (subst varint_loop.simps, subst (1 2) varint_bytes.simps) (simp add: put_clip)
  qed
qed

lemma ucast_eq_0_iff: "(ucast (i :: uint32) :: uint64) = 0 \<longleftrightarrow> i = 0"
proof
  assume "(ucast i :: uint64) = 0"
  then have "bit (ucast i :: uint64) n = False" for n by simp
  then show "i = 0" by (intro bit_word_eqI) (simp add: bit_simps)
qed simp

lemma low7_ucast: "low7 (ucast (i :: uint32) :: uint64) = low7 i"
proof -
  have *: "drop_bit 7 (ucast i :: uint64) = 0 \<longleftrightarrow> drop_bit 7 i = 0"
    by (simp add: drop_bit_7_ucast ucast_eq_0_iff)
  have "(ucast (ucast i :: uint64) :: uint8) AND 0x7F = ucast i AND 0x7F"
    by (rule bit_word_eqI) (auto simp: bit_simps)
  with * show ?thesis by (simp add: low7_def)
qed

lemma key_loop_clip:
  "len \<le> length out \<Longrightarrow> i \<noteq> 0 \<Longrightarrow> key_loop len i (out, p) =
    (clip_write len p (varint_bytes (ucast i)) out, p + length (varint_bytes (ucast i)))"
proof (induction len i "(out, p)" arbitrary: out p rule: key_loop.induct)
  case (1 len i)
  show ?case
  proof (cases "drop_bit 7 i = 0")
    case True
    with 1 show ?thesis
      by (subst key_loop.simps, subst (1 2) varint_bytes.simps)
        (simp add: put_clip drop_bit_7_ucast ucast_eq_0_iff low7_ucast key_loop.simps [of len 0])
  next
    case False
    with 1 show ?thesis
      using clip_write_append [of len out p "[low7 i]" "varint_bytes (ucast (drop_bit 7 i))"]
      by (subst key_loop.simps, subst (1 2) varint_bytes.simps) (simp add: put_clip drop_bit_7_ucast ucast_eq_0_iff low7_ucast)
  qed
qed

lemma varint_bytes_neq_Nil [simp]: "varint_bytes x \<noteq> []"
  by (subst varint_bytes.simps) simp

lemma key_bytes:
  assumes "len \<le> length out" "drop_bit 3 key \<noteq> 0"
  shows "put_key len key (out, 0) =
    (clip_write len 0 (varint_bytes (ucast (key :: uint32))) out, length (varint_bytes (ucast key)))"
proof -
  have d: "drop_bit 4 (drop_bit 3 key) = drop_bit 7 key" by simp
  have l: "(ucast key AND 0x7F) OR (if drop_bit 7 key \<noteq> 0 then 0x80 else 0) = low7 key"
    by (simp add: low7_def)
  show ?thesis
  proof (cases "drop_bit 7 key = 0")
    case True
    with assms show ?thesis unfolding put_key_def d l
      by (subst (1 2) varint_bytes.simps)
        (simp add: put_clip drop_bit_7_ucast low7_ucast key_loop.simps [of len 0])
  next
    case False
    with assms show ?thesis unfolding put_key_def d l
      using clip_write_append [of len out 0 "[low7 key]" "varint_bytes (ucast (drop_bit 7 key))"]
      by (subst (1 2) varint_bytes.simps)
        (simp add: put_clip drop_bit_7_ucast low7_ucast ucast_eq_0_iff key_loop_clip)
  qed
qed

lemma copy_in_after:
  assumes "len \<le> length out" "n \<le> length bs"
  shows "copy_in len n bs (clip_write len 0 xs out, length xs) =
    Some (clip_write len 0 (xs @ take n bs) out, length xs + n)"
  using assms copy_in_clip [of len "clip_write len 0 xs out" n bs "length xs"]
    clip_write_append [of len out 0 xs "take n bs"] by simp

lemma varint_loop_after:
  assumes "len \<le> length out"
  shows "varint_loop len x (clip_write len 0 xs out, length xs) =
    (clip_write len 0 (xs @ varint_bytes x) out, length (xs @ varint_bytes x))"
  using assms varint_loop_clip [of len "clip_write len 0 xs out" x "length xs"]
    clip_write_append [of len out 0 xs "varint_bytes x"] by simp

theorem PBEncodeField_field_bytes:
  assumes "len \<le> length out" "field_ok key ap"
  shows "PBEncodeField out len key ap =
    Some (clip_write len 0 (field_bytes key ap) out, length (field_bytes key ap))"
proof -
  have id: "drop_bit 3 key \<noteq> 0" using assms(2) by (simp add: field_ok_def)
  note step = PBEncodeField_def Let_def key_bytes [OF assms(1) id] field_bytes_def
    varint_loop_after [OF assms(1)] copy_in_after [OF assms(1)]
  show ?thesis
  proof (cases ap)
    case (VaU64 x)
    with assms id show ?thesis by (auto simp: step field_ok_def)
  next
    case (VaU32 x)
    with assms id show ?thesis by (auto simp: step field_ok_def)
  next
    case (VaBytes n bs)
    with assms id show ?thesis
      using copy_in_after [OF assms(1), of n bs "varint_bytes (ucast key) @ varint_bytes (word_of_nat n)"]
      by (auto simp: step field_ok_def)
  qed
qed

section \<open>Decoding a varint\<close>

function varint_scan :: "bytes \<Rightarrow> nat \<Rightarrow> nat \<Rightarrow> nat \<Rightarrow> uint64 \<Rightarrow> (nat \<times> uint8 \<times> uint64) option" where
  \<comment> \<open>the \<open>do\<close> loop: the position of the input byte, \<open>bits\<close> and the value so far\<close>
  "varint_scan buf p maxbits bits v =
    (let p' = p + (if bits \<noteq> 0 then 1 else 0); nextbits = min 7 (maxbits - bits)
     in if length buf \<le> p' \<or> 64 \<le> bits then None
        else let v' = v OR push_bit bits (ucast (mask nextbits AND buf ! p'));
                 bits' = bits + nextbits
             in if 0x80 AND buf ! p' \<noteq> 0 \<and> bits' < maxbits
                then varint_scan buf p' maxbits bits' v'
                else Some (bits', buf ! p', v'))"
  by auto
termination
  by (relation "measure (\<lambda>(buf, p, maxbits, bits, v). maxbits - bits)") auto
declare varint_scan.simps [simp del]

definition dest_bytes :: "nat \<Rightarrow> nat" where
  "dest_bytes maxbits = (let d = maxbits div 8 + (if maxbits mod 8 \<noteq> 0 then 1 else 0)
     in if d \<le> 1 then 1 else if d \<le> 2 then 2 else if d \<le> 4 then 4 else 8)"

definition PBDecodeVarint :: "bytes \<Rightarrow> nat \<Rightarrow> uint8 \<Rightarrow> nat \<Rightarrow> uint64 \<Rightarrow> (uint8 \<times> uint64) option" where
  \<comment> \<open>\<open>vsize\<close> is the size of the object \<open>value\<close> points to, \<open>v\<close> its contents\<close>
  "PBDecodeVarint buf p maxbits vsize v =
    (if vsize < dest_bytes (unat maxbits) then None
     else case varint_scan buf p (unat maxbits) 0 v of
       None \<Rightarrow> None
     | Some (bits, b, v') \<Rightarrow>
         Some (if b AND 0x80 \<noteq> 0 then 0
               else of_nat (bits div 7 + (if bits mod 7 \<noteq> 0 then 1 else 0)), v'))"

lemma low7_cont: "0x80 AND low7 x \<noteq> 0 \<longleftrightarrow> drop_bit 7 x \<noteq> 0"
proof -
  have "0x80 AND ((y :: uint8) AND 0x7F) = 0" for y
    by (simp add: and.left_commute)
  moreover have "0x80 AND (y AND 0x7F OR 0x80) = (0x80 :: uint8)" for y
    by (rule bit_word_eqI) (auto simp: bit_simps)
  ultimately show ?thesis by (simp add: low7_def)
qed

lemma bit_low7: "n < 7 \<Longrightarrow> bit (low7 (x :: 'a::len word)) n = bit x n"
proof -
  assume n: "n < 7"
  then have "bit (0x80 :: uint8) n = False" using less_8_cases [of n] by auto
  then show ?thesis using n by (auto simp: low7_def mask_numerals bit_simps)
qed

lemma drop_bit_0_bound:
  assumes "drop_bit m (x :: 'a::len word) = 0" "bit x n"
  shows "n < m"
proof (rule ccontr)
  assume "\<not> n < m"
  with assms(2) have "bit (drop_bit m x) (n - m)" by (simp add: bit_simps)
  with assms(1) show False by simp
qed

lemma varint_scan_at:
  assumes "p + (if bits \<noteq> 0 then 1 else 0) = p'" "p' < length buf" "bits < 64"
  shows "varint_scan buf p maxbits bits v =
    (let v' = v OR push_bit bits (ucast (mask (min 7 (maxbits - bits)) AND buf ! p'));
         bits' = bits + min 7 (maxbits - bits)
     in if 0x80 AND buf ! p' \<noteq> 0 \<and> bits' < maxbits
        then varint_scan buf p' maxbits bits' v'
        else Some (bits', buf ! p', v'))"
  unfolding varint_scan.simps [of buf p] Let_def assms(1) using assms(2,3) by simp

lemma varint_scan_step:
  assumes "length pre = p + (if bits \<noteq> 0 then 1 else 0)" "bits < 64"
  shows "varint_scan (pre @ c # post) p maxbits bits v =
    (let v' = v OR push_bit bits (ucast (mask (min 7 (maxbits - bits)) AND c));
         bits' = bits + min 7 (maxbits - bits)
     in if 0x80 AND c \<noteq> 0 \<and> bits' < maxbits
        then varint_scan (pre @ c # post) (length pre) maxbits bits' v'
        else Some (bits', c, v'))"
proof -
  have "length pre < length (pre @ c # post)" by simp
  from varint_scan_at [OF assms(1) [symmetric] this assms(2)] show ?thesis
    unfolding nth_append_length .
qed

lemma varint_scan_varint_bytes:
  assumes "drop_bit (maxbits - bits) x = 0" "bits < maxbits" "maxbits \<le> 64"
    "length pre = p + (if bits \<noteq> 0 then 1 else 0)" "bits mod 7 = 0"
  shows "\<exists>b. varint_scan (pre @ varint_bytes x @ post) p maxbits bits v =
     Some (min maxbits (bits + 7 * length (varint_bytes x)), b, v OR push_bit bits x) \<and>
     0x80 AND b = 0 \<and> bits + 7 * (length (varint_bytes x) - 1) < maxbits"
  using assms
proof (induction x arbitrary: pre p bits v rule: varint_bytes.induct)
  case (1 x)
  let ?rest = "if drop_bit 7 x \<noteq> 0 then varint_bytes (drop_bit 7 x) else []"
  have bytes: "varint_bytes x = low7 x # ?rest" by (rule varint_bytes.simps)
  show ?case
  proof (cases "drop_bit 7 x = 0")
    case True
    have hi: "bit x n \<Longrightarrow> n < 7 \<and> n < maxbits - bits" for n
      using drop_bit_0_bound [OF True] drop_bit_0_bound [OF "1.prems"(1)] by blast
    have lo: "bit x n \<Longrightarrow> bit (low7 x) n" for n using hi bit_low7 by blast
    have "push_bit bits (ucast (mask (min 7 (maxbits - bits)) AND low7 x)) = push_bit bits x"
      by (rule bit_word_eqI) (auto simp: bit_simps bit_low7 dest: hi lo)
    with True "1.prems" show ?thesis
      using low7_cont [of x] varint_scan_step [of pre p bits "low7 x" post maxbits v]
      by (simp add: bytes)
  next
    case False
    obtain n where "bit (drop_bit 7 x) n" using False by (auto simp: bit_eq_iff)
    then have "bit x (7 + n)" by (simp add: bit_simps)
    from drop_bit_0_bound [OF "1.prems"(1) this] have gt: "7 < maxbits - bits" by simp
    have v: "(v OR push_bit bits (ucast (mask 7 AND low7 x))) OR push_bit (bits + 7) (drop_bit 7 x) =
       v OR push_bit bits x"
    proof (rule bit_word_eqI)
      fix n assume "n < LENGTH(64)"
      then show "bit ((v OR push_bit bits (ucast (mask 7 AND low7 x))) OR push_bit (bits + 7) (drop_bit 7 x)) n =
          bit (v OR push_bit bits x) n"
        by (cases "n < bits + 7") (auto simp: bit_simps bit_low7)
    qed
    let ?v = "v OR push_bit bits (ucast (mask 7 AND low7 x))"
    let ?k = "length (varint_bytes (drop_bit 7 x))"
    have "bits < 64" "bits + 7 < maxbits" using "1.prems" gt by simp_all
    then have eq: "varint_scan (pre @ varint_bytes x @ post) p maxbits bits v =
      varint_scan ((pre @ [low7 x]) @ varint_bytes (drop_bit 7 x) @ post) (length pre) maxbits (bits + 7) ?v"
      using varint_scan_step [of pre p bits "low7 x" "varint_bytes (drop_bit 7 x) @ post" maxbits v]
        False "1.prems"(4) gt low7_cont [of x] by (simp add: bytes Let_def)
    have pre: "drop_bit (maxbits - (bits + 7)) (drop_bit 7 x) = 0" "(bits + 7) mod 7 = 0"
      "length (pre @ [low7 x]) = length pre + (if bits + 7 \<noteq> 0 then 1 else 0)"
      using "1.prems"(1,5) gt by (simp_all add: mod_add_self2)
    have "0 < ?k" by simp
    then have k: "7 * ?k = 7 + 7 * (?k - 1)" by linarith
    have len: "bits + 7 * length (varint_bytes x) = bits + 7 + 7 * ?k"
      using False by (simp add: bytes)
    obtain b where "varint_scan ((pre @ [low7 x]) @ varint_bytes (drop_bit 7 x) @ post) (length pre)
        maxbits (bits + 7) ?v =
        Some (min maxbits (bits + 7 + 7 * ?k), b, ?v OR push_bit (bits + 7) (drop_bit 7 x))"
      "0x80 AND b = 0" "bits + 7 + 7 * (?k - 1) < maxbits"
      using "1.IH" [OF False pre(1) \<open>bits + 7 < maxbits\<close> "1.prems"(3) pre(3,2), of ?v] by blast
    then show ?thesis unfolding eq v len using False k by (intro exI [of _ b]) (simp add: bytes)
  qed
qed

lemma ceil_7:
  assumes "7 * (k - 1) < (m::nat)" "0 < k"
  shows "min m (7 * k) div 7 + (if min m (7 * k) mod 7 \<noteq> 0 then 1 else 0) = k"
proof (cases "7 * k \<le> m")
  case False
  from assms(2) obtain j where j: "k = Suc j" by (cases k) auto
  with assms(1) False obtain r where "m = 7 * j + r" "0 < r" "r < 7"
    using less_imp_add_positive [of "7 * j" m] by auto
  with j False show ?thesis by simp
qed simp

theorem PBDecodeVarint_varint_bytes:
  assumes "drop_bit (unat maxbits) x = 0" "0 < maxbits" "unat maxbits \<le> 64"
    "dest_bytes (unat maxbits) \<le> vsize"
  shows "PBDecodeVarint (pre @ varint_bytes x @ post) (length pre) maxbits vsize v =
    Some (of_nat (length (varint_bytes x)), v OR x)"
proof -
  have "0 < unat maxbits" using assms(2) by (simp add: unat_gt_0 word_neq_0_conv)
  with assms varint_scan_varint_bytes
    [where maxbits = "unat maxbits" and bits = 0 and x = x and pre = pre and p = "length pre" and post = post and v = v]
  obtain b where *: "varint_scan (pre @ varint_bytes x @ post) (length pre) (unat maxbits) 0 v =
      Some (min (unat maxbits) (7 * length (varint_bytes x)), b, v OR x)"
      "0x80 AND b = 0" "7 * (length (varint_bytes x) - 1) < unat maxbits"
    by auto
  have "of_nat (min (unat maxbits) (7 * length (varint_bytes x)) div 7 +
      (if min (unat maxbits) (7 * length (varint_bytes x)) mod 7 \<noteq> 0 then 1 else 0)) =
      (of_nat (length (varint_bytes x)) :: uint8)"
    using ceil_7 [OF *(3)] by simp
  with * assms(4) show ?thesis
    by (simp add: PBDecodeVarint_def and.commute [of b] del: of_nat_add)
qed

lemma varint_scan_returns:
  assumes "bits < maxbits" "maxbits \<le> 64"
    "p + (if bits \<noteq> 0 then 1 else 0) + (maxbits - bits + 6) div 7 \<le> length buf"
  shows "\<exists>bits' b v'. varint_scan buf p maxbits bits v = Some (bits', b, v') \<and>
     bits < bits' \<and> bits' \<le> maxbits"
  using assms
proof (induction buf p maxbits bits v rule: varint_scan.induct)
  case (1 buf p maxbits bits v)
  let ?p = "p + (if bits \<noteq> 0 then 1 else 0)" and ?n = "min 7 (maxbits - bits)"
  let ?v = "v OR push_bit bits (ucast (mask ?n AND buf ! ?p))"
  have g: "?p < length buf" "bits < 64" using "1.prems" by (auto split: if_splits)
  note at = varint_scan_at [OF refl g, of maxbits v, unfolded Let_def]
  have g': "\<not> (length buf \<le> ?p \<or> 64 \<le> bits)" using g by simp
  show ?case
  proof (cases "0x80 AND buf ! ?p \<noteq> 0 \<and> bits + ?n < maxbits")
    case True
    then have n: "?n = 7" by auto
    then have "?p + (if bits + ?n \<noteq> 0 then 1 else 0) + (maxbits - (bits + ?n) + 6) div 7 \<le> length buf"
      using "1.prems"(3) True by simp
    from "1.IH" [OF refl refl g' refl refl True _ _ this] True "1.prems"
    obtain bits' b v' where *: "varint_scan buf ?p maxbits (bits + ?n) ?v = Some (bits', b, v')"
      "bits + ?n < bits'" "bits' \<le> maxbits" by blast
    with True show ?thesis unfolding at by (auto simp del: min_less_iff_conj)
  next
    case False
    then have "varint_scan buf p maxbits bits v = Some (bits + ?n, buf ! ?p, ?v)"
      unfolding at by (simp only: if_False)
    with "1.prems" show ?thesis by auto
  qed
qed

section \<open>Properties\<close>

text \<open>C30. For a key with an identifier and the argument its type asks for,
  \<open>PBEncodeField\<close> returns the size of the whole encoded field, however small the buffer is, and
  writes the prefix of the field that fits: its effect is the clipped write of the reference
  encoding \<open>field_bytes\<close> at the start of the buffer, and nothing beyond \<open>len\<close> is touched.\<close>

theorem PBEncodeField_writes_field:
  assumes "len \<le> length out" "field_ok key ap"
  shows "PBEncodeField out len key ap =
    Some (clip_write len 0 (field_bytes key ap) out, length (field_bytes key ap))"
  using assms by (rule PBEncodeField_field_bytes)

theorem PBEncodeField_writes_field_witness:
  "PBEncodeField [1, 2, 3, 4] 2 40 (VaU64 300) = Some ([40, 0xAC, 3, 4], 3)"
proof -
  have f: "field_bytes 40 (VaU64 300) = [40, 0xAC, 2]" by code_simp
  have "PBEncodeField [1, 2, 3, 4] 2 40 (VaU64 300) =
      Some (clip_write 2 0 (field_bytes 40 (VaU64 300)) [1, 2, 3, 4], length (field_bytes 40 (VaU64 300)))"
    by (rule PBEncodeField_writes_field) (simp, code_simp)
  then show ?thesis by (simp add: f clip_write_def)
qed

text \<open>C31. \<open>PBDecodeVarint\<close> reads back every integer of at most \<open>maxbits\<close> bits
  from its varint, wherever it stands in the buffer: it returns the number of bytes of the varint
  and ors the integer into the target, when the target object is large enough.\<close>

theorem varint_roundtrip:
  assumes "drop_bit (unat maxbits) x = 0" "0 < maxbits" "unat maxbits \<le> 64"
    "dest_bytes (unat maxbits) \<le> vsize"
  shows "PBDecodeVarint (pre @ varint_bytes x @ post) (length pre) maxbits vsize v =
    Some (of_nat (length (varint_bytes x)), v OR x)"
  using assms by (rule PBDecodeVarint_varint_bytes)

theorem varint_roundtrip_witness: "PBDecodeVarint [7, 0xAC, 2, 9] 1 64 8 0 = Some (2, 300)"
proof -
  have b: "varint_bytes 300 = [0xAC, 2]" by code_simp
  have "PBDecodeVarint ([7] @ varint_bytes 300 @ [9]) (length [7 :: uint8]) 64 8 0 =
      Some (of_nat (length (varint_bytes 300)), 0 OR 300)"
    by (rule varint_roundtrip) code_simp+
  then show ?thesis by (simp add: b)
qed

text \<open>The zig-zag mapping of signed integers is a bijection of the 64-bit
  words: \<open>PBDecodeSInt\<close> and \<open>PBEncodeSInt\<close> are inverse to each other.\<close>

theorem zigzag_bijection:
  "PBDecodeSInt (PBEncodeSInt v) = v \<and> PBEncodeSInt (PBDecodeSInt w) = w"
  by (simp add: PBDecodeSInt_PBEncodeSInt PBEncodeSInt_PBDecodeSInt)

end
