(* ===== verification/Field_Parser.thy ===== *)
theory Field_Parser
  imports Wire_Format
begin

unbundle bit_operations_syntax

text \<open>
  The key-value reader that \<^verbatim>\<open>PBDecodeMsg\<close> (\<^verbatim>\<open>src/Src/protobuf.c\<close>) and \<^verbatim>\<open>EEPROM_Load\<close>
  (\<^verbatim>\<open>src/Src/eeprom.c\<close>) share. The two loops have the same text; they differ in the type of
  \<open>len - pos\<close> (an \<open>int\<close> for the first, an \<open>uint32_t\<close> for the second), which is the parameter
  \<open>rem\<close> here, and in what a field does to the configuration, which is the parameter \<open>act\<close>.

  The message is the list of the bytes that may be read from the message pointer on (the whole
  rest of the object it points into, not only the \<open>len\<close> bytes of the message). \<open>pos\<close> is the
  \<open>uint8_t\<close> of the code and wraps. The debug output of the code is left out.
\<close>

section \<open>One field\<close>

datatype field_read =
    FieldUB                                  \<comment> \<open>undefined behaviour: a read outside the object\<close>
  | FieldAbort                               \<comment> \<open>\<open>goto abort\<close> (\<open>goto err\<close>)\<close>
  | FieldGood uint32 uint8 uint64 uint8      \<comment> \<open>key, \<open>val_rawbytes\<close>, \<open>val_int\<close>, \<open>pos\<close>\<close>

datatype key_read = KeyUB | KeyAbort | KeyGood uint32 uint8 uint8  \<comment> \<open>\<open>tagnr\<close>, \<open>tagtype\<close>, \<open>pos\<close>\<close>

definition bytes_at :: "bytes \<Rightarrow> nat \<Rightarrow> nat \<Rightarrow> bytes option" where
  "bytes_at msg p n = (if p + n \<le> length msg then Some (take n (drop p msg)) else None)"

definition read_key :: "(uint8 \<Rightarrow> int) \<Rightarrow> bytes \<Rightarrow> uint8 \<Rightarrow> key_read" where
  "read_key rem msg pos =
    (if length msg \<le> unat pos then KeyUB
     else let b = msg ! unat pos; tagtype = b AND 0x7 in
       if b AND 0x80 \<noteq> 0 then
         let tagnr_bitlimit = (if rem pos < 5 then word_of_int (rem pos * 7) else 25)
         in case PBDecodeVarint msg (unat pos + 1) tagnr_bitlimit 4 0 of
              None \<Rightarrow> KeyUB
            | Some (tagnr_bytes, v) \<Rightarrow>
                if tagnr_bytes = 0 then KeyAbort
                else let tagnr = push_bit 4 (ucast v) OR ucast (drop_bit 3 (b AND 0x78))
                     in if tagnr = 0 then KeyAbort else KeyGood tagnr tagtype (pos + (tagnr_bytes + 1))
       else
         let tagnr = ucast (drop_bit 3 (b AND 0x78))
         in if tagnr = 0 then KeyAbort else KeyGood tagnr tagtype (pos + 1))"

definition read_value :: "(uint8 \<Rightarrow> int) \<Rightarrow> bytes \<Rightarrow> uint32 \<Rightarrow> uint8 \<Rightarrow> uint8 \<Rightarrow> field_read" where
  "read_value rem msg tagnr tagtype pos =
    (let key = push_bit 3 tagnr OR ucast tagtype in
     if rem pos = 0 then FieldAbort
     else if tagtype = 0 then
       let varint_bitlimit = (if rem pos < 10 then word_of_int (rem pos * 7) else 64)
       in case PBDecodeVarint msg (unat pos) varint_bitlimit 8 0 of
            None \<Rightarrow> FieldUB
          | Some (raw, v) \<Rightarrow> if raw = 0 then FieldAbort else FieldGood key raw v pos
     else if tagtype = 1 then
       (case bytes_at msg (unat pos) 8 of
          None \<Rightarrow> FieldUB
        | Some b \<Rightarrow> FieldGood key 8 (u64 b) pos)
     else if tagtype = 2 then
       let varint_bitlimit = (if rem pos = 1 then 7 else 8)
       in case PBDecodeVarint msg (unat pos) varint_bitlimit 8 0 of
            None \<Rightarrow> FieldUB
          | Some (n, v) \<Rightarrow>
              if n = 0 then FieldAbort
              else let pos' = pos + n;
                       raw = (if v > 250 \<or> v > ucast (word_of_int (rem pos') :: uint8) then 0
                              else ucast v :: uint8)
                   in if raw = 0 then FieldAbort else FieldGood key raw v pos'
     else if tagtype = 5 then
       (case bytes_at msg (unat pos) 4 of
          None \<Rightarrow> FieldUB
        | Some b \<Rightarrow> FieldGood key 4 (u64 (b @ [0, 0, 0, 0])) pos)
     else FieldAbort)"

definition read_field :: "(uint8 \<Rightarrow> int) \<Rightarrow> bytes \<Rightarrow> uint8 \<Rightarrow> field_read" where
  "read_field rem msg pos =
    (case read_key rem msg pos of
       KeyUB \<Rightarrow> FieldUB
     | KeyAbort \<Rightarrow> FieldAbort
     | KeyGood tagnr tagtype pos' \<Rightarrow> read_value rem msg tagnr tagtype pos')"

section \<open>The loop over the fields\<close>

type_synonym 's action = "uint32 \<Rightarrow> uint8 \<Rightarrow> uint64 \<Rightarrow> bytes option \<Rightarrow> 's \<Rightarrow> 's option"
  \<comment> \<open>what a field does: key, \<open>val_rawbytes\<close>, \<open>val_int\<close>, the bytes at \<open>pos\<close> if they are readable\<close>

partial_function (option) kv_loop ::
  "(uint8 \<Rightarrow> int) \<Rightarrow> bytes \<Rightarrow> 's action \<Rightarrow> uint8 \<Rightarrow> 's \<Rightarrow> (bool \<times> 's) outcome option" where
  \<comment> \<open>the flag tells the end of the message from an abort\<close>
  "kv_loop rem msg act pos s =
    (if rem pos = 0 then Some (Stop (True, s))
     else case read_field rem msg pos of
       FieldUB \<Rightarrow> Some Undef
     | FieldAbort \<Rightarrow> Some (Stop (False, s))
     | FieldGood key raw v pos' \<Rightarrow>
         (case act key raw v (bytes_at msg (unat pos') (unat raw)) s of
            None \<Rightarrow> Some Undef
          | Some s' \<Rightarrow> kv_loop rem msg act (pos' + raw) s'))"

declare kv_loop.simps [code]

lemma kv_loop_invariant:
  assumes run: "kv_loop rem msg act pos s = Some (Stop (completed, s'))" and "P s"
    and step: "\<And>key raw v payload s s'. P s \<Longrightarrow> (\<forall>b. payload = Some b \<longrightarrow> length b = unat raw) \<Longrightarrow>
      act key raw v payload s = Some s' \<Longrightarrow> P s'"
  shows "P s'"
proof -
  have "\<forall>completed s'. act' = act \<longrightarrow> P s \<longrightarrow> r = Stop (completed, s') \<longrightarrow> P s'"
    if "kv_loop rem msg act' pos s = Some r" for rem msg act' pos s r
  proof (rule kv_loop.raw_induct [OF _ that,
      where P = "\<lambda>rem msg act' pos s r. \<forall>completed s'. act' = act \<longrightarrow> P s \<longrightarrow> r = Stop (completed, s') \<longrightarrow> P s'"],
      goal_cases)
    case (1 kv rem msg act' pos s r)
    show ?case
    proof (intro allI impI)
      fix completed s' assume a: "act' = act" "P s" "r = Stop (completed, s')"
      show "P s'"
      proof (cases "rem pos = 0")
        case True
        with 1(2) a show ?thesis by simp
      next
        case False
        show ?thesis
        proof (cases "read_field rem msg pos")
          case (FieldGood key raw v pos')
          let ?payload = "bytes_at msg (unat pos') (unat raw)"
          obtain s'' where s'': "act key raw v ?payload s = Some s''"
            "kv rem msg act (pos' + raw) s'' = Some r"
            using 1(2) False FieldGood a by (auto split: option.splits)
          have "P s''"
            using step [OF \<open>P s\<close> _ s''(1)] by (auto simp: bytes_at_def split: if_splits)
          then show ?thesis using 1(1) [OF s''(2)] a by simp
        qed (use 1(2) False a in auto)
      qed
    qed
  qed
  with assms show ?thesis by blast
qed

lemma kv_loop_no_return:
  \<comment> \<open>a set of loop states closed under the loop is never left\<close>
  assumes closed: "\<And>pos s. Q pos s \<Longrightarrow> rem pos \<noteq> 0 \<and> (\<exists>key raw v pos' s'.
      read_field rem msg pos = FieldGood key raw v pos' \<and>
      act key raw v (bytes_at msg (unat pos') (unat raw)) s = Some s' \<and> Q (pos' + raw) s')"
    and "Q pos s"
  shows "kv_loop rem msg act pos s = None"
proof -
  have "rem' = rem \<and> msg' = msg \<and> act' = act \<longrightarrow> \<not> Q pos s"
    if "kv_loop rem' msg' act' pos s = Some r" for rem' msg' act' pos s r
  proof (rule kv_loop.raw_induct [OF _ that,
      where P = "\<lambda>rem' msg' act' pos s r. rem' = rem \<and> msg' = msg \<and> act' = act \<longrightarrow> \<not> Q pos s"], goal_cases)
    case (1 kv rem' msg' act' pos s r)
    show ?case
    proof (intro impI notI)
      assume a: "rem' = rem \<and> msg' = msg \<and> act' = act" and "Q pos s"
      with closed [OF \<open>Q pos s\<close>] 1(2) obtain pos' s' where "kv rem msg act pos' s' = Some r" "Q pos' s'"
        by auto
      with 1(1) a show False by blast
    qed
  qed
  with assms(2) show ?thesis by fastforce
qed

section \<open>Reading what the encoder wrote\<close>

fun val_of :: "va_arg \<Rightarrow> uint64" where
  "val_of (VaU64 x) = x"
| "val_of (VaU32 x) = ucast x"
| "val_of (VaBytes n bs) = word_of_nat n"

definition raw_bytes :: "uint32 \<Rightarrow> va_arg \<Rightarrow> bytes" where
  "raw_bytes key ap = (case ap of
     VaU64 x \<Rightarrow> if key AND 7 = 1 then b64 x else varint_bytes x
   | VaU32 x \<Rightarrow> take 4 (b64 (ucast x))
   | VaBytes n bs \<Rightarrow> take n bs)"

definition prefix_bytes :: "va_arg \<Rightarrow> bytes" where
  "prefix_bytes ap = (case ap of VaBytes n bs \<Rightarrow> varint_bytes (word_of_nat n) | _ \<Rightarrow> [])"

definition field_readable :: "uint32 \<Rightarrow> va_arg \<Rightarrow> bool" where
  \<comment> \<open>a field the encoder takes, whose payload is not empty and short enough for the reader\<close>
  "field_readable key ap = (field_ok key ap \<and>
    (case ap of VaBytes n bs \<Rightarrow> 1 \<le> n \<and> n \<le> 250 | _ \<Rightarrow> True))"

type_synonym field = "uint32 \<times> va_arg"

definition apply_field :: "'s action \<Rightarrow> field \<Rightarrow> 's \<Rightarrow> 's option" where
  "apply_field act f s = (case f of (key, ap) \<Rightarrow>
     act key (of_nat (length (raw_bytes key ap))) (val_of ap) (Some (raw_bytes key ap)) s)"

fun apply_fields :: "'s action \<Rightarrow> field list \<Rightarrow> 's \<Rightarrow> 's option" where
  "apply_fields act [] s = Some s"
| "apply_fields act (f # fs) s = Option.bind (apply_field act f s) (apply_fields act fs)"

definition fields_bytes :: "field list \<Rightarrow> bytes" where
  "fields_bytes fs = concat (map (\<lambda>(key, ap). field_bytes key ap) fs)"

subsection \<open>Sizes and bits of the parts of a field\<close>

lemma length_varint_bytes_bound:
  "drop_bit (7 * k) x = 0 \<longleftrightarrow> length (varint_bytes x) \<le> k" if "0 < k"
  using that
proof (induction x arbitrary: k rule: varint_bytes.induct)
  case (1 x)
  show ?case
  proof (cases "drop_bit 7 x = 0")
    case True
    moreover have "drop_bit (7 * k) x = drop_bit (7 * (k - 1)) (drop_bit 7 x)"
      using 1(2) by (simp add: algebra_simps)
    ultimately show ?thesis using 1(2) by (subst varint_bytes.simps) simp
  next
    case False
    obtain j where k: "k = Suc j" using 1(2) by (cases k) auto
    have d: "drop_bit (7 * k) x = drop_bit (7 * j) (drop_bit 7 x)" by (simp add: k add.commute)
    show ?thesis
    proof (cases "j = 0")
      case True
      with False k show ?thesis by (subst varint_bytes.simps) simp
    next
      case False
      with 1(1) [OF \<open>drop_bit 7 x \<noteq> 0\<close>, of j] \<open>drop_bit 7 x \<noteq> 0\<close> k d show ?thesis
        by (subst varint_bytes.simps) simp
    qed
  qed
qed

lemma length_varint_bytes: "1 \<le> length (varint_bytes x)" "length (varint_bytes x) \<le> 10"
proof -
  show "1 \<le> length (varint_bytes x)" by (simp add: Suc_le_eq)
  have "drop_bit (7 * 10) x = 0" by (rule bit_word_eqI) (simp add: bit_simps)
  then show "length (varint_bytes x) \<le> 10" using length_varint_bytes_bound [of 10 x] by simp
qed

lemma varint_bytes_key_tail:
  "varint_bytes (ucast (key :: uint32)) = low7 key #
     (if drop_bit 7 key \<noteq> 0 then varint_bytes (ucast (drop_bit 7 key)) else [])"
  by (subst varint_bytes.simps) (simp add: low7_ucast drop_bit_7_ucast ucast_eq_0_iff)

lemma length_key_tail: "length (varint_bytes (ucast (drop_bit 7 (key :: uint32)))) \<le> 4"
proof -
  have "drop_bit (7 * 4) (ucast (drop_bit 7 key) :: uint64) = 0"
    by (rule bit_word_eqI) (auto simp: bit_simps dest: bit_imp_le_length)
  then show ?thesis using length_varint_bytes_bound [of 4] by simp
qed

lemma byte_masks: "(0x78 :: uint8) = push_bit 3 (mask 4)" "(0x7 :: 'a::len word) = mask 3"
  by (simp_all add: mask_eq_exp_minus_1)

lemma key_low_parts:
  fixes key :: uint32
  shows "ucast (drop_bit 3 (low7 key AND 0x78)) = (drop_bit 3 key AND mask 4 :: uint32)"
    and "low7 key AND 0x7 = ucast (key AND 7)"
    and "low7 key AND 0x80 \<noteq> 0 \<longleftrightarrow> drop_bit 7 key \<noteq> 0"
proof -
  show "ucast (drop_bit 3 (low7 key AND 0x78)) = (drop_bit 3 key AND mask 4 :: uint32)"
    by (rule bit_word_eqI) (auto simp: byte_masks bit_simps bit_low7)
  show "low7 key AND 0x7 = ucast (key AND 7)"
    by (rule bit_word_eqI) (auto simp: byte_masks bit_simps bit_low7)
  show "low7 key AND 0x80 \<noteq> 0 \<longleftrightarrow> drop_bit 7 key \<noteq> 0"
    using low7_cont [of key] by (simp add: and.commute)
qed

lemma key_split:
  fixes key :: uint32
  shows "push_bit 4 (drop_bit 7 key) OR (drop_bit 3 key AND mask 4) = drop_bit 3 key"
    and "push_bit 3 (drop_bit 3 key) OR ucast (ucast (key AND 7) :: uint8) = key"
proof -
  show "push_bit 4 (drop_bit 7 key) OR (drop_bit 3 key AND mask 4) = drop_bit 3 key"
  proof (rule bit_word_eqI)
    fix n assume "n < LENGTH(32)"
    then show "bit (push_bit 4 (drop_bit 7 key) OR (drop_bit 3 key AND mask 4)) n = bit (drop_bit 3 key) n"
      by (cases "n < 4") (auto simp: bit_simps)
  qed
  show "push_bit 3 (drop_bit 3 key) OR ucast (ucast (key AND 7) :: uint8) = key"
  proof (rule bit_word_eqI)
    fix n assume "n < LENGTH(32)"
    then show "bit (push_bit 3 (drop_bit 3 key) OR ucast (ucast (key AND 7) :: uint8)) n = bit key n"
      by (cases "n < 3") (auto simp: byte_masks bit_simps)
  qed
qed

lemma dest_bytes_4: "m \<le> 32 \<Longrightarrow> dest_bytes m \<le> 4"
proof -
  assume "m \<le> 32"
  then have "m div 8 + (if m mod 8 \<noteq> 0 then 1 else 0) \<le> 4" by presburger
  then show ?thesis by (simp add: dest_bytes_def Let_def)
qed

lemma dest_bytes_8: "dest_bytes m \<le> 8"
  by (simp add: dest_bytes_def Let_def)

lemma field_bytes_parts:
  "field_ok key ap \<Longrightarrow> field_bytes key ap = varint_bytes (ucast key) @ prefix_bytes ap @ raw_bytes key ap"
  by (cases ap) (auto simp: field_bytes_def prefix_bytes_def raw_bytes_def field_ok_def)

lemma length_raw_bytes:
  assumes "field_readable key ap"
  shows "1 \<le> length (raw_bytes key ap)" "length (raw_bytes key ap) \<le> 250"
proof -
  have "length (varint_bytes x) \<le> 250" for x using length_varint_bytes(2) [of x] by simp
  with assms length_varint_bytes(1)
  show "1 \<le> length (raw_bytes key ap)" "length (raw_bytes key ap) \<le> 250"
    by (auto simp: field_readable_def field_ok_def raw_bytes_def split: va_arg.splits)
qed

lemma unat_word8: "n < 256 \<Longrightarrow> unat (word_of_nat n :: uint8) = n"
  by (simp add: unsigned_of_nat take_bit_nat_eq_self)

lemma b64_high_zero: "take 4 (b64 (ucast (x :: uint32))) @ [0, 0, 0, 0] = b64 (ucast x)"
proof (rule nth_equalityI)
  fix i assume "i < length (take 4 (b64 (ucast x)) @ [0, 0, 0, 0 :: uint8])"
  then have i: "i < 8" by simp
  have "b64 (ucast x) ! i = 0" if "4 \<le> i"
    using i that by (intro bit_word_eqI) (auto simp: nth_b64 bit_simps)
  with i show "(take 4 (b64 (ucast x)) @ [0, 0, 0, 0]) ! i = b64 (ucast x) ! i"
    by (auto simp: nth_append nth_Cons' not_less)
qed simp

lemma bytes_at_append: "length bs = n \<Longrightarrow> bytes_at (pre @ bs @ post) (length pre) n = Some bs"
  by (simp add: bytes_at_def)

section \<open>The reader's interface\<close>

text \<open>
  All the reader needs of \<open>len - pos\<close>: as long as \<open>pos\<close> is within the message it is the number
  of bytes left. Both instances of the code satisfy it, whatever their integer types.
\<close>

locale kv_reader =
  fixes rem :: "uint8 \<Rightarrow> int" and len :: nat
  assumes len_bound: "len \<le> 255"
    and rem_within: "unat pos \<le> len \<Longrightarrow> rem pos = int len - int (unat pos)"
begin

lemma limit_word:
  assumes "unat pos = p" "p \<le> len" "len - p \<le> 36"
  shows "unat (word_of_int (rem pos * 7) :: uint8) = 7 * (len - p)"
proof -
  have "rem pos * 7 = int (7 * (len - p))" using rem_within [of pos] assms by simp
  then have "(word_of_int (rem pos * 7) :: uint8) = word_of_nat (7 * (len - p))"
    by (simp only: of_int_of_nat_eq)
  moreover have "unat (word_of_nat n :: uint8) = n" if "n < 256" for n
    using that by (simp add: unsigned_of_nat take_bit_nat_eq_self)
  moreover have "7 * (len - p) < 256" using assms(3) by linarith
  ultimately show ?thesis by presburger
qed

definition key_limit :: "uint8 \<Rightarrow> uint8" where
  "key_limit pos = (if rem pos < 5 then word_of_int (rem pos * 7) else 25)"

lemma key_limit:
  assumes pos: "unat pos = p" and room: "p + length (varint_bytes (ucast (drop_bit 7 key))) < len"
  shows "drop_bit (unat (key_limit pos)) (ucast (drop_bit 7 (key :: uint32)) :: uint64) = 0"
    and "0 < unat (key_limit pos)" "unat (key_limit pos) \<le> 32"
proof -
  have r: "rem pos = int len - int p" using rem_within [of pos] room pos by simp
  have "drop_bit (unat (key_limit pos)) (ucast (drop_bit 7 key) :: uint64) = 0 \<and>
    0 < unat (key_limit pos) \<and> unat (key_limit pos) \<le> 32"
  proof (cases "rem pos < 5")
    case True
    then have u: "unat (key_limit pos) = 7 * (len - p)"
      using limit_word [OF pos] r room by (simp add: key_limit_def)
    then show ?thesis using length_varint_bytes_bound [of "len - p" "ucast (drop_bit 7 key)"] True r room
      by (intro conjI; simp; linarith)
  next
    case False
    have "drop_bit 25 (ucast (drop_bit 7 key) :: uint64) = 0"
      by (rule bit_word_eqI) (auto simp: bit_simps dest: bit_imp_le_length)
    with False show ?thesis by (simp add: key_limit_def)
  qed
  then show "drop_bit (unat (key_limit pos)) (ucast (drop_bit 7 key) :: uint64) = 0"
    "0 < unat (key_limit pos)" "unat (key_limit pos) \<le> 32" by simp_all
qed

lemma decode_key_tail:
  assumes pos: "unat pos = length pre"
    and room: "length pre + length (varint_bytes (ucast (drop_bit 7 key))) < len"
  shows "PBDecodeVarint (pre @ b # varint_bytes (ucast (drop_bit 7 (key :: uint32))) @ post)
      (unat pos + 1) (key_limit pos) 4 0 =
    Some (of_nat (length (varint_bytes (ucast (drop_bit 7 key)))), ucast (drop_bit 7 key))"
proof -
  note k = key_limit [OF pos room]
  have "0 < key_limit pos" using k(2) by (simp add: word_gt_0_no unat_gt_0 word_neq_0_conv)
  moreover have "unat (key_limit pos) \<le> 64" using k(3) by simp
  ultimately show ?thesis
    using PBDecodeVarint_varint_bytes [of "key_limit pos" "ucast (drop_bit 7 key)" 4 "pre @ [b]" post 0,
        OF k(1) _ _ dest_bytes_4 [OF k(3)]] pos
    by simp
qed

lemma read_key_field:
  assumes pos: "unat pos = length pre" and key: "drop_bit 3 key \<noteq> 0"
    and room: "length pre + length (varint_bytes (ucast key)) < len"
  shows "read_key rem (pre @ varint_bytes (ucast key) @ post) pos =
    KeyGood (drop_bit 3 key) (ucast (key AND 7)) (pos + of_nat (length (varint_bytes (ucast key))))"
proof -
  let ?msg = "pre @ varint_bytes (ucast key) @ post"
  let ?t = "varint_bytes (ucast (drop_bit 7 key))"
  have hd: "?msg ! unat pos = low7 key" using pos
    by (subst varint_bytes_key_tail) simp
  have inside: "(length ?msg \<le> unat pos) = False" using pos by simp
  show ?thesis
  proof (cases "drop_bit 7 key = 0")
    case True
    then have "varint_bytes (ucast key) = [low7 key]" by (subst varint_bytes_key_tail) simp
    moreover have "drop_bit 3 key AND mask 4 = drop_bit 3 key" using key_split(1) [of key] True by simp
    ultimately show ?thesis
      unfolding read_key_def Let_def hd key_low_parts inside using True key by simp
  next
    case False
    then have b: "varint_bytes (ucast key) = low7 key # ?t" by (subst varint_bytes_key_tail) simp
    have d: "PBDecodeVarint ?msg (unat pos + 1) (key_limit pos) 4 0 =
        Some (of_nat (length ?t), ucast (drop_bit 7 key))"
      using decode_key_tail [OF pos] room unfolding b by simp
    have "length ?t < 256" "0 < length ?t" using length_key_tail [of key] by simp_all
    then have n: "(of_nat (length ?t) = (0 :: uint8)) = False"
      by (simp add: word_of_nat_eq_0_iff nat_dvd_not_less)
    have z: "(drop_bit 3 key = 0) = False" "(drop_bit 7 key = 0) = False" using key False by simp_all
    have c: "ucast (ucast (drop_bit 7 key) :: uint64) = drop_bit 7 key"
      by (rule bit_word_eqI) (auto simp: bit_simps)
    show ?thesis
      unfolding read_key_def Let_def hd key_limit_def [symmetric] d key_low_parts inside
        option.case prod.case n c key_split z by (simp add: b)
  qed
qed

lemma read_value_varint:
  assumes pos: "unat pos = length pre" and room: "length pre + length (varint_bytes x) \<le> len"
    and key: "key AND 7 = 0"
  shows "read_value rem (pre @ varint_bytes x @ post) (drop_bit 3 key) (ucast (key AND 7)) pos =
    FieldGood key (of_nat (length (varint_bytes x))) x pos"
proof -
  define limit :: uint8 where "limit = (if rem pos < 10 then word_of_int (rem pos * 7) else 64)"
  have r: "rem pos = int len - int (length pre)" using rem_within [of pos] room pos by simp
  have "0 < length (varint_bytes x)" by simp
  have lim: "drop_bit (unat limit) x = 0 \<and> 0 < unat limit \<and> unat limit \<le> 64"
  proof (cases "rem pos < 10")
    case True
    then have u: "unat limit = 7 * (len - length pre)"
      using limit_word [OF pos] r room by (simp add: limit_def)
    then show ?thesis
      using length_varint_bytes_bound [of "len - length pre" x] True r room \<open>0 < length (varint_bytes x)\<close>
      by (intro conjI; simp; linarith)
  next
    case False
    have "drop_bit 64 x = 0" by (rule bit_word_eqI) (simp add: bit_simps)
    with False show ?thesis by (simp add: limit_def)
  qed
  then have "0 < limit" by (simp add: unat_gt_0 word_neq_0_conv)
  with lim have d: "PBDecodeVarint (pre @ varint_bytes x @ post) (unat pos) limit 8 0 =
      Some (of_nat (length (varint_bytes x)), x)"
    using PBDecodeVarint_varint_bytes [of limit x 8 pre post 0] dest_bytes_8 pos by simp
  have n: "(of_nat (length (varint_bytes x)) = (0 :: uint8)) = False"
    using length_varint_bytes [of x] by (simp add: word_of_nat_eq_0_iff nat_dvd_not_less)
  have "0 < rem pos" using r room length_varint_bytes(1) [of x] by linarith
  then have r0: "(rem pos = 0) = False" by simp
  show ?thesis
    unfolding read_value_def Let_def limit_def [symmetric] d option.case prod.case n r0
    using key key_split(2) [of key] by simp
qed

lemma read_value_bytes:
  assumes pos: "unat pos = length pre" and n: "1 \<le> n" "n \<le> 250" "n \<le> length bs"
    and room: "length pre + length (varint_bytes (word_of_nat n)) + n \<le> len"
    and key: "key AND 7 = 2"
  shows "read_value rem (pre @ varint_bytes (word_of_nat n) @ take n bs @ post)
      (drop_bit 3 key) (ucast (key AND 7)) pos =
    FieldGood key (of_nat n) (word_of_nat n) (pos + of_nat (length (varint_bytes (word_of_nat n))))"
proof -
  let ?x = "word_of_nat n :: uint64" let ?L = "length (varint_bytes ?x)"
  have L: "1 \<le> ?L" "?L \<le> 10" using length_varint_bytes [of ?x] by simp_all
  have r: "rem pos = int len - int (length pre)" using rem_within [of pos] room pos by simp
  then have r1: "(rem pos = 0) = False" "(rem pos = 1) = False" using room n L by auto
  have un: "unat ?x = n" using n(2) by (simp add: unsigned_of_nat take_bit_nat_eq_self)
  have "unat (drop_bit 8 ?x) = 0" unfolding unat_drop_bit_eq un using n(2) by (simp add: drop_bit_eq_div)
  then have "drop_bit 8 ?x = 0" by (simp only: unat_eq_0)
  then have d: "PBDecodeVarint (pre @ varint_bytes ?x @ take n bs @ post) (unat pos) 8 8 0 = Some (of_nat ?L, ?x)"
    using PBDecodeVarint_varint_bytes [of 8 ?x 8 pre "take n bs @ post" 0] dest_bytes_8 pos by simp
  have nz: "(of_nat ?L = (0 :: uint8)) = False"
    using L by (simp add: word_of_nat_eq_0_iff nat_dvd_not_less)
  have p': "unat (pos + of_nat ?L) = length pre + ?L"
  proof -
    have "length pre + ?L < 256" using room len_bound by simp
    then show ?thesis using pos L unat_word8 [of ?L] by (simp add: unat_plus_if_size word_size)
  qed
  have "rem (pos + of_nat ?L) = int (len - (length pre + ?L))"
    using rem_within [of "pos + of_nat ?L"] p' room by simp
  then have u: "unat (ucast (word_of_int (rem (pos + of_nat ?L)) :: uint8) :: uint64) = len - (length pre + ?L)"
    using len_bound unat_word8 [of "len - (length pre + ?L)"]
    by (simp add: unsigned_of_nat unsigned_ucast_eq take_bit_nat_eq_self)
  have c: "(?x > 250 \<or> ?x > ucast (word_of_int (rem (pos + of_nat ?L)) :: uint8)) = False"
    using n u un room by (simp add: word_less_nat_alt)
  have w: "(ucast ?x :: uint8) = of_nat n"
    by (rule word_unat_eq_iff [THEN iffD2]) (use n in \<open>simp add: unsigned_ucast_eq unsigned_of_nat take_bit_nat_eq_self\<close>)
  have w0: "((of_nat n :: uint8) = 0) = False"
    using n by (simp add: word_of_nat_eq_0_iff nat_dvd_not_less)
  show ?thesis
    unfolding read_value_def Let_def r1 if_False d option.case prod.case nz c w w0
    using key key_split(2) [of key] by (simp add: r1 d nz c w w0)
qed

lemma read_value_field:
  assumes pos: "unat pos = length pre" and ok: "field_readable key ap"
    and room: "length pre + length (prefix_bytes ap @ raw_bytes key ap) \<le> len"
  shows "read_value rem (pre @ prefix_bytes ap @ raw_bytes key ap @ post)
      (drop_bit 3 key) (ucast (key AND 7)) pos =
    FieldGood key (of_nat (length (raw_bytes key ap))) (val_of ap) (pos + of_nat (length (prefix_bytes ap)))"
proof -
  have "rem pos = int len - int (length pre)" using rem_within [of pos] room pos by simp
  moreover have "0 < length (raw_bytes key ap)" using length_raw_bytes(1) [OF ok] by linarith
  ultimately have r0: "rem pos \<noteq> 0" using room by auto
  show ?thesis
  proof (cases ap)
    case (VaU64 x)
    then consider "key AND 7 = 0" | "key AND 7 = 1" using ok by (auto simp: field_readable_def field_ok_def)
    then show ?thesis
    proof cases
      case 1
      then show ?thesis using read_value_varint [OF pos _ 1, of x post] room VaU64
        by (simp add: prefix_bytes_def raw_bytes_def)
    next
      case 2
      then show ?thesis using r0 pos VaU64 key_split(2) [of key] bytes_at_append [of "b64 x" 8 pre post]
        by (simp add: read_value_def prefix_bytes_def raw_bytes_def u64_b64)
    qed
  next
    case (VaU32 x)
    then have "key AND 7 = 5" using ok by (auto simp: field_readable_def field_ok_def)
    then show ?thesis
      using r0 pos VaU32 key_split(2) [of key] bytes_at_append [of "take 4 (b64 (ucast x))" 4 pre post]
      by (simp add: read_value_def prefix_bytes_def raw_bytes_def b64_high_zero u64_b64)
  next
    case (VaBytes n bs)
    with ok have n: "key AND 7 = 2" "1 \<le> n" "n \<le> 250" "n \<le> length bs"
      by (auto simp: field_readable_def field_ok_def)
    show ?thesis using read_value_bytes [OF pos n(2,3,4) _ n(1)] room n VaBytes
      by (simp add: prefix_bytes_def raw_bytes_def)
  qed
qed

lemma read_field_field:
  assumes pos: "unat pos = length pre" and ok: "field_readable key ap"
    and room: "length pre + length (field_bytes key ap) \<le> len"
  shows "read_field rem (pre @ field_bytes key ap @ post) pos =
      FieldGood key (of_nat (length (raw_bytes key ap))) (val_of ap)
        (word_of_nat (length pre + length (varint_bytes (ucast key)) + length (prefix_bytes ap)))"
proof -
  let ?k = "varint_bytes (ucast key)"
  have fok: "field_ok key ap" using ok by (simp add: field_readable_def)
  note parts = field_bytes_parts [OF fok]
  have raw: "0 < length (raw_bytes key ap)" using length_raw_bytes(1) [OF ok] by linarith
  have id: "drop_bit 3 key \<noteq> 0" using fok by (simp add: field_ok_def)
  have "length pre + length ?k < len" using room raw by (simp add: parts del: length_greater_0_conv)
  from read_key_field [OF pos id this]
  have k: "read_key rem (pre @ field_bytes key ap @ post) pos =
      KeyGood (drop_bit 3 key) (ucast (key AND 7)) (pos + of_nat (length ?k))"
    by (simp add: parts)
  have p: "pos = word_of_nat (length pre)" unfolding pos [symmetric] by simp
  have small: "length pre + length ?k < 256" using room len_bound by (simp add: parts)
  then have "unat (pos + of_nat (length ?k)) = length (pre @ ?k)"
    using unat_word8 [of "length pre + length ?k"] by (simp add: p)
  from read_value_field [OF this ok, of post] room
  have "read_value rem (pre @ field_bytes key ap @ post) (drop_bit 3 key) (ucast (key AND 7))
      (pos + of_nat (length ?k)) =
    FieldGood key (of_nat (length (raw_bytes key ap))) (val_of ap)
      (pos + of_nat (length ?k) + of_nat (length (prefix_bytes ap)))"
    by (simp add: parts)
  then show ?thesis unfolding read_field_def k key_read.case by (simp add: p)
qed

theorem kv_loop_fields:
  assumes "\<forall>(key, ap) \<in> set fs. field_readable key ap"
    and "unat pos = length pre" "length pre + length (fields_bytes fs) = len"
  shows "kv_loop rem (pre @ fields_bytes fs @ post) act pos s =
    Some (case apply_fields act fs s of None \<Rightarrow> Undef | Some s' \<Rightarrow> Stop (True, s'))"
  using assms
proof (induction fs arbitrary: pre pos s)
  case Nil
  then show ?case using rem_within [of pos] by (subst kv_loop.simps) (simp add: fields_bytes_def)
next
  case (Cons f fs)
  obtain key ap where f: "f = (key, ap)" by (cases f)
  have ok: "field_readable key ap" and fok: "field_ok key ap"
    using Cons.prems(1) f by (auto simp: field_readable_def)
  let ?fb = "field_bytes key ap" and ?raw = "raw_bytes key ap"
  let ?q = "length pre + length (varint_bytes (ucast key)) + length (prefix_bytes ap)"
  have split: "fields_bytes (f # fs) = ?fb @ fields_bytes fs" by (simp add: fields_bytes_def f)
  have raw: "0 < length ?raw" "length ?raw < 256" using length_raw_bytes [OF ok] by linarith+
  have sz: "length pre + length ?fb \<le> len" "?q + length ?raw = length (pre @ ?fb)"
    using Cons.prems(3) split field_bytes_parts [OF fok] by simp_all
  have "length pre < len" using sz raw(1) unfolding length_append by linarith
  then have r0: "(rem pos = 0) = False" using rem_within [of pos] Cons.prems(2) by simp
  have q: "?q < 256" using sz len_bound by simp
  have at: "bytes_at (pre @ ?fb @ fields_bytes fs @ post) (unat (word_of_nat ?q :: uint8))
      (unat (of_nat (length ?raw) :: uint8)) = Some ?raw"
    unfolding unat_word8 [OF q] unat_word8 [OF raw(2)] field_bytes_parts [OF fok]
    using bytes_at_append [of ?raw "length ?raw" "pre @ varint_bytes (ucast key) @ prefix_bytes ap"
        "fields_bytes fs @ post"] by (simp add: add.assoc)
  have next_pos: "word_of_nat ?q + of_nat (length ?raw) = (word_of_nat (length (pre @ ?fb)) :: uint8)"
    using sz(2) by (metis of_nat_add)
  have "unat (word_of_nat (length (pre @ ?fb)) :: uint8) = length (pre @ ?fb)"
    using unat_word8 [of "length (pre @ ?fb)"] sz len_bound by simp
  then have rec: "kv_loop rem (pre @ ?fb @ fields_bytes fs @ post) act (word_of_nat ?q + of_nat (length ?raw)) s'
      = Some (case apply_fields act fs s' of None \<Rightarrow> Undef | Some s'' \<Rightarrow> Stop (True, s''))" for s'
    unfolding next_pos using Cons.IH [of "word_of_nat (length (pre @ ?fb))" "pre @ ?fb" s'] Cons.prems(1,3) split
    by simp
  have "kv_loop rem (pre @ ?fb @ fields_bytes fs @ post) act pos s =
      (case apply_field act f s of None \<Rightarrow> Some Undef
       | Some s' \<Rightarrow> Some (case apply_fields act fs s' of None \<Rightarrow> Undef | Some s'' \<Rightarrow> Stop (True, s'')))"
    by (subst kv_loop.simps)
      (simp only: r0 if_False read_field_field [OF Cons.prems(2) ok sz(1)] field_read.case at rec
        apply_field_def f prod.case cong: option.case_cong)
  then show ?case by (simp add: split split: option.splits)
qed

end

end
