(* ===== verification/Nfc_Decode.thy ===== *)
theory Nfc_Decode
  imports Lorawan_Mac Message_Ids Field_Parser
begin

text \<open>
  \<^verbatim>\<open>PBDecodeMsg\<close> of \<^verbatim>\<open>src/Src/protobuf.c\<close>: a configuration message received over NFC is applied
  to \<open>DevCfg\<close>, field by field. The only other effect of the code is the request to the MAC layer
  to leave the network; the requests are logged in \<open>mac_requests\<close>.
\<close>

section \<open>The fields\<close>

record nfc_rx =
  dev_cfg :: DeviceConfig
  saw_bma400 :: bool
  saw_hdc2080 :: bool
  saw_sfh7776 :: bool
  mac_requests :: "mib_set list"

definition on_cfg :: "(DeviceConfig \<Rightarrow> DeviceConfig) \<Rightarrow> nfc_rx \<Rightarrow> nfc_rx" where
  "on_cfg f s = s\<lparr>dev_cfg := f (dev_cfg s)\<rparr>"

definition nfc_key_field ::
  "(DeviceConfig \<Rightarrow> bytes) \<Rightarrow> ((bytes \<Rightarrow> bytes) \<Rightarrow> DeviceConfig \<Rightarrow> DeviceConfig) \<Rightarrow> bytes option \<Rightarrow> nfc_rx \<Rightarrow> nfc_rx option" where
  "nfc_key_field get upd payload s = (case payload of
     None \<Rightarrow> None
   | Some b \<Rightarrow> Some (on_cfg (\<lambda>c. and_then lrw_update (DEVCFG_MEMCPY get upd b c)) s))"

definition set_hdc2080 :: "uint64 \<Rightarrow> uint8 \<Rightarrow> nfc_rx \<Rightarrow> nfc_rx" where
  "set_hdc2080 v mode s =
    (on_cfg (\<lambda>c. and_then hdc2080_update (set_word hdc2080_mode hdc2080_mode_update (ucast mode)
        (and_then hdc2080_update (set_int hdc2080_threshold hdc2080_threshold_update v c)))) s)
      \<lparr>saw_hdc2080 := True\<rparr>"

definition nfc_sensor_field :: "family \<Rightarrow> uint32 \<Rightarrow> uint64 \<Rightarrow> nfc_rx \<Rightarrow> nfc_rx" where
  \<comment> \<open>the fields 21 to 31, the last eight in STX builds only\<close>
  "nfc_sensor_field fam key v s =
    (if key = PBMSG_BX_SENSOR_TIMEBASE then
       on_cfg (\<lambda>c. and_then resched_update (set_word sendInterval sendInterval_update v c)) s
     else if key = PBMSG_BX_SENSOR_SEND_TRIGGER then
       on_cfg (\<lambda>c. and_then resched_update (set_word sendTrigger sendTrigger_update v c)) s
     else if key = PBMSG_BX_SENSOR_SEND_STRATEGY then
       on_cfg (\<lambda>c. and_then resched_update (set_word sendStrategy sendStrategy_update v c)) s
     else if fam = STX then
       (if key = PBMSG_BX_SENSOR_HUMIDITY_UPPER_THRESHOLD then set_hdc2080 v HDC2080_HUMIDITY_HIGH s
        else if key = PBMSG_BX_SENSOR_HUMIDITY_LOWER_THRESHOLD then set_hdc2080 v HDC2080_HUMIDITY_LOW s
        else if key = PBMSG_BX_SENSOR_TEMPERATURE_UPPER_THRESHOLD then
          set_hdc2080 (PBDecodeSInt v) HDC2080_TEMPERATURE_HIGH s
        else if key = PBMSG_BX_SENSOR_TEMPERATURE_LOWER_THRESHOLD then
          set_hdc2080 (PBDecodeSInt v) HDC2080_TEMPERATURE_LOW s
        else if key = PBMSG_BX_SENSOR_LUMINANCE_UPPER_THRESHOLD then
          (on_cfg (\<lambda>c. and_then sfh7776_update
            (set_word sfh7776_threshold_upper sfh7776_threshold_upper_update v c)) s)\<lparr>saw_sfh7776 := True\<rparr>
        else if key = PBMSG_BX_SENSOR_LUMINANCE_LOWER_THRESHOLD then
          (on_cfg (\<lambda>c. and_then sfh7776_update
            (set_word sfh7776_threshold_lower sfh7776_threshold_lower_update v c)) s)\<lparr>saw_sfh7776 := True\<rparr>
        else if key = PBMSG_BX_SENSOR_AXIS_THRESHOLD then
          (on_cfg (\<lambda>c. and_then bma400_update
            (set_word bma400_threshold bma400_threshold_update v c)) s)\<lparr>saw_bma400 := True\<rparr>
        else if key = PBMSG_BX_SENSOR_AXIS_CONFIGURE then
          (on_cfg (\<lambda>c. and_then bma400_update
            (set_word bma400_config bma400_config_update v c)) s)\<lparr>saw_bma400 := True\<rparr>
        else s)
     else s)"

definition nfc_action :: "family \<Rightarrow> nfc_rx action" where
  "nfc_action fam key raw v payload s =
    (if key = PBMSG_BX_LORA_OTAA then
       Some (on_cfg (\<lambda>c. and_then lrw_update (set_bool isOtaa isOtaa_update (of_bool64 (v \<noteq> 0)) c)) s)
     else if key = PBMSG_BX_LORA_DEV_EUI then
       Some (on_cfg (\<lambda>c. and_then lrw_update (DEVCFG_MEMCPY devEui devEui_update (b64 v) c)) s)
     else if key = PBMSG_BX_LORA_APP_EUI then
       Some (on_cfg (\<lambda>c. and_then lrw_update (DEVCFG_MEMCPY appEui appEui_update (b64 v) c)) s)
     else if key = PBMSG_BX_LORA_APP_KEY \<and> raw = 16 then nfc_key_field appKey appKey_update payload s
     else if key = PBMSG_BX_LORA_DEV_ADDR then
       Some (on_cfg (\<lambda>c. and_then lrw_update (set_word devAddr devAddr_update v c)) s)
     else if key = PBMSG_BX_LORA_MAC_NET_SESSION_KEY \<and> raw = 16 then
       nfc_key_field nwkSKey nwkSKey_update payload s
     else if key = PBMSG_BX_LORA_MAC_APP_SESSION_KEY \<and> raw = 16 then
       nfc_key_field appSKey appSKey_update payload s
     else if key = PBMSG_TX_LORA_JOINED then
       Some (if v = 0 then s\<lparr>mac_requests := mac_requests s @ [MIB_NETWORK_ACTIVATION ACTIVATION_TYPE_NONE]\<rparr> else s)
     else if key = PBMSG_TX_LORA_FP then
       Some (if v = PBENUM_FP_EU868 then
               on_cfg (\<lambda>c. and_then lrw_update (set_word region region_update (ucast LORAMAC_REGION_EU868) c)) s
             else if v = PBENUM_FP_US915 then
               on_cfg (\<lambda>c. and_then lrw_update (set_word region region_update (ucast LORAMAC_REGION_US915) c)) s
             else s)
     else if key = PBMSG_BX_LORA_PORT then
       Some (on_cfg (\<lambda>c. and_then lrw_update (set_word txPort txPort_update v c)) s)
     else if key = PBMSG_TX_LORA_TXP then
       Some (on_cfg (\<lambda>c. and_then lrw_update (set_word txPower txPower_update v c)) s)
     else if key = PBMSG_TX_LORA_SF then
       Some (on_cfg (\<lambda>c. and_then lrw_update (set_word sf sf_update v c)) s)
     else if key = PBMSG_TX_LORA_BW then
       Some (on_cfg (\<lambda>c. and_then lrw_update (set_word bw bw_update v c)) s)
     else if key = PBMSG_TX_LORA_CONFIRMED_MESSAGES then
       Some (on_cfg (\<lambda>c. and_then lrw_update
         (set_bool confirmedMsgs confirmedMsgs_update (of_bool64 (v \<noteq> 0)) c)) s)
     else if key = PBMSG_TX_LORA_ADAPTIVE_DATA_RATE then
       Some (on_cfg (\<lambda>c. and_then lrw_update
         (set_bool adaptiveDatarate adaptiveDatarate_update (of_bool64 (v \<noteq> 0)) c)) s)
     else if key = PBMSG_TX_LORA_RESPECT_DUTY_CYCLE then
       Some (on_cfg (\<lambda>c. and_then lrw_update
         (set_bool dutyCycle dutyCycle_update (of_bool64 (v \<noteq> 0)) c)) s)
     else Some (nfc_sensor_field fam key v s))"

section \<open>The message\<close>

definition nfc_rem :: "uint8 \<Rightarrow> uint8 \<Rightarrow> int" where
  "nfc_rem len pos = int (unat len) - int (unat pos)"

definition nfc_finish :: "family \<Rightarrow> nfc_rx \<Rightarrow> nfc_rx" where
  \<comment> \<open>the code after the label \<open>abort\<close>\<close>
  "nfc_finish fam s = (if fam = STX then on_cfg (\<lambda>c.
     let use = (\<lambda>get upd. set_bool (\<lambda>c. get (useSensor c)) (\<lambda>f. useSensor_update (upd f)));
         c1 = and_then bma400_update (use use_bma400 use_bma400_update (of_bool64 (saw_bma400 s)) c);
         c2 = and_then sfh7776_update (use use_sfh7776 use_sfh7776_update (of_bool64 (saw_sfh7776 s)) c1)
     in and_then hdc2080_update (use use_hdc2080 use_hdc2080_update (of_bool64 (saw_hdc2080 s)) c2)) s
   else s)"

definition nfc_start :: "DeviceConfig \<Rightarrow> nfc_rx" where
  "nfc_start c = \<lparr>dev_cfg = c, saw_bma400 = False, saw_hdc2080 = False, saw_sfh7776 = False,
     mac_requests = []\<rparr>"

definition PBDecodeMsg :: "family \<Rightarrow> bytes \<Rightarrow> uint8 \<Rightarrow> DeviceConfig \<Rightarrow> (DeviceConfig \<times> mib_set list) outcome option" where
  "PBDecodeMsg fam msg len c =
    (let finish = (\<lambda>s. let s' = nfc_finish fam s in Stop (dev_cfg s', mac_requests s'));
         s = nfc_start c
     in if len < 1 then Some (finish s)
        else if msg = [] then Some Undef
        else if msg ! 0 \<noteq> 0 \<or> len = 1 then Some (finish s)
        else case kv_loop (nfc_rem len) msg (nfc_action fam) 1 s of
          None \<Rightarrow> None
        | Some Undef \<Rightarrow> Some Undef
        | Some (Stop (completed, s')) \<Rightarrow> Some (finish s'))"

section \<open>Well-formed messages\<close>

interpretation nfc: kv_reader "nfc_rem len" "unat len" for len
proof
  have "unat len < 2 ^ LENGTH(8)" by (rule unsigned_less)
  then show "unat len \<le> 255" by simp
qed (simp add: nfc_rem_def)

lemma nfc_action_total: "\<exists>s'. nfc_action fam key raw v (Some b) s = Some s'"
  by (simp add: nfc_action_def nfc_key_field_def)

lemma apply_fields_total: "\<exists>s'. apply_fields (nfc_action fam) fs s = Some s'"
proof (induction fs arbitrary: s)
  case (Cons f fs)
  obtain s' where "apply_field (nfc_action fam) f s = Some s'"
    using nfc_action_total unfolding apply_field_def by (cases f) (simp, blast)
  with Cons.IH [of s'] show ?case by simp
qed simp

definition nfc_apply :: "family \<Rightarrow> field list \<Rightarrow> nfc_rx \<Rightarrow> nfc_rx" where
  \<comment> \<open>the specification: one field after the other\<close>
  "nfc_apply fam fs s = the (apply_fields (nfc_action fam) fs s)"

lemma nfc_apply_Nil [simp]: "nfc_apply fam [] s = s"
  by (simp add: nfc_apply_def)

lemma nfc_apply_Cons:
  "nfc_apply fam ((key, ap) # fs) s = nfc_apply fam fs
     (the (nfc_action fam key (of_nat (length (raw_bytes key ap))) (val_of ap) (Some (raw_bytes key ap)) s))"
  using nfc_action_total [of fam key "of_nat (length (raw_bytes key ap))" "val_of ap" "raw_bytes key ap" s]
  by (auto simp: nfc_apply_def apply_field_def)

lemma field_bytes_neq_Nil [simp]: "field_bytes key ap \<noteq> []"
  by (simp add: field_bytes_def)

lemma kv_loop_nfc:
  assumes "\<forall>(key, ap) \<in> set fs. field_readable key ap" "unat len = 1 + length (fields_bytes fs)"
  shows "kv_loop (nfc_rem len) (0 # fields_bytes fs @ post) (nfc_action fam) 1 s =
    Some (Stop (True, nfc_apply fam fs s))"
proof -
  obtain s' where "apply_fields (nfc_action fam) fs s = Some s'"
    using apply_fields_total by blast
  then show ?thesis
    using nfc.kv_loop_fields [OF assms(1), of 1 "[0]" len post "nfc_action fam" s] assms(2)
    by (simp add: nfc_apply_def)
qed

lemma PBDecodeMsg_nfc_apply:
  assumes "\<forall>(key, ap) \<in> set fs. field_readable key ap" "fs \<noteq> []"
    "unat len = 1 + length (fields_bytes fs)"
  shows "PBDecodeMsg fam (0 # fields_bytes fs @ post) len c =
    Some (let s = nfc_finish fam (nfc_apply fam fs (nfc_start c)) in Stop (dev_cfg s, mac_requests s))"
proof -
  have "0 < length (fields_bytes fs)"
    using assms(2) by (cases fs) (auto simp: fields_bytes_def)
  then have "1 < unat len" using assms(3) by linarith
  then have len: "(len < 1) = False" "(len = 1) = False" by (auto simp: word_less_nat_alt)
  show ?thesis
    unfolding PBDecodeMsg_def Let_def len kv_loop_nfc [OF assms(1,3)] by simp
qed

section \<open>Arbitrary messages\<close>

lemma tracked_finish: "tracked c0 (dev_cfg s) \<Longrightarrow> tracked c0 (dev_cfg (nfc_finish fam s))"
  by (simp add: nfc_finish_def on_cfg_def Let_def tracked_use)

lemma pred_option_if:
  "pred_option P x \<Longrightarrow> pred_option P y \<Longrightarrow> pred_option P (if b then x else y)"
  "pred_option P (Some s) \<Longrightarrow> pred_option P (Some t) \<Longrightarrow> pred_option P (Some (if b then s else t))"
  by simp_all

lemma pred_option_Some: "pred_option P x \<Longrightarrow> x = Some y \<Longrightarrow> P y"
  by simp

lemma tracked_if:
  "tracked c0 (dev_cfg s) \<Longrightarrow> tracked c0 (dev_cfg t) \<Longrightarrow> tracked c0 (dev_cfg (if b then s else t))"
  by simp

lemma tracked_sensor_field:
  "tracked c0 (dev_cfg s) \<Longrightarrow> tracked c0 (dev_cfg (nfc_sensor_field fam key v s))"
  unfolding nfc_sensor_field_def set_hdc2080_def on_cfg_def
  by (intro tracked_if) (simp_all add: tracked_setters)

lemma tracked_action:
  assumes "tracked c0 (dev_cfg s)"
  shows "pred_option (\<lambda>s'. tracked c0 (dev_cfg s')) (nfc_action fam key raw v payload s)"
  using assms unfolding nfc_action_def nfc_key_field_def on_cfg_def
  by (intro pred_option_if) (simp_all add: tracked_setters tracked_sensor_field split: option.split)

lemma PBDecodeMsg_result:
  assumes "PBDecodeMsg fam msg len c = Some (Stop (c', rs))"
  obtains s where "c' = dev_cfg (nfc_finish fam s)" "rs = mac_requests (nfc_finish fam s)"
    "s = nfc_start c \<or> (\<exists>completed. kv_loop (nfc_rem len) msg (nfc_action fam) 1 (nfc_start c) =
       Some (Stop (completed, s)))"
  using assms unfolding PBDecodeMsg_def Let_def
  by (auto split: if_splits option.splits outcome.splits)

lemma PBDecodeMsg_tracked_all:
  assumes "PBDecodeMsg fam msg len c = Some (Stop (c', rs))"
  shows "tracked c c'"
proof -
  obtain s where c': "c' = dev_cfg (nfc_finish fam s)"
    and s: "s = nfc_start c \<or> (\<exists>completed. kv_loop (nfc_rem len) msg (nfc_action fam) 1 (nfc_start c) =
       Some (Stop (completed, s)))"
    using PBDecodeMsg_result [OF assms] by metis
  have start: "tracked c (dev_cfg (nfc_start c))" by (simp add: nfc_start_def)
  from s have "tracked c (dev_cfg s)"
    using kv_loop_invariant [where P = "\<lambda>s. tracked c (dev_cfg s)"] start
      tracked_action [THEN pred_option_Some] by blast
  then show ?thesis by (simp add: c' tracked_finish)
qed

subsection \<open>The sizes of the arrays\<close>

lemma config_wf_changed [simp]: "config_wf (c\<lparr>changed := f\<rparr>) = config_wf c"
  by (simp add: config_wf_def)

lemma config_wf_and_then [simp]: "config_wf (and_then flag r) = config_wf (fst r)"
  by (simp add: and_then_def split: prod.split)

lemma config_wf_SET: "(\<And>f. config_wf (upd f c) = config_wf c) \<Longrightarrow> config_wf (fst (DEVCFG_SET get upd widen narrow v c)) = config_wf c"
  by (simp add: DEVCFG_SET_def mark_any_def)

lemma config_wf_MEMCPY: "config_wf c \<Longrightarrow> config_wf (upd (\<lambda>_. v) c) \<Longrightarrow> config_wf (fst (DEVCFG_MEMCPY get upd v c))"
  by (simp add: DEVCFG_MEMCPY_def mark_any_def)

lemmas config_wf_setters = config_wf_SET config_wf_MEMCPY

lemma config_wf_updates:
  "\<And>f. config_wf (isOtaa_update f c) = config_wf c"
  "\<And>f. config_wf (devAddr_update f c) = config_wf c"
  "\<And>f. config_wf (region_update f c) = config_wf c"
  "\<And>f. config_wf (txPort_update f c) = config_wf c"
  "\<And>f. config_wf (txPower_update f c) = config_wf c"
  "\<And>f. config_wf (sf_update f c) = config_wf c"
  "\<And>f. config_wf (bw_update f c) = config_wf c"
  "\<And>f. config_wf (confirmedMsgs_update f c) = config_wf c"
  "\<And>f. config_wf (adaptiveDatarate_update f c) = config_wf c"
  "\<And>f. config_wf (dutyCycle_update f c) = config_wf c"
  "\<And>f. config_wf (sendInterval_update f c) = config_wf c"
  "\<And>f. config_wf (sendTrigger_update f c) = config_wf c"
  "\<And>f. config_wf (sendStrategy_update f c) = config_wf c"
  "\<And>f. config_wf (hdc2080_mode_update f c) = config_wf c"
  "\<And>f. config_wf (hdc2080_threshold_update f c) = config_wf c"
  "\<And>f. config_wf (sfh7776_threshold_upper_update f c) = config_wf c"
  "\<And>f. config_wf (sfh7776_threshold_lower_update f c) = config_wf c"
  "\<And>f. config_wf (bma400_threshold_update f c) = config_wf c"
  "\<And>f. config_wf (bma400_config_update f c) = config_wf c"
  "\<And>f. config_wf (useSensor_update f c) = config_wf c"
  "config_wf c \<Longrightarrow> length b = 8 \<Longrightarrow> config_wf (devEui_update (\<lambda>_. b) c)"
  "config_wf c \<Longrightarrow> length b = 8 \<Longrightarrow> config_wf (appEui_update (\<lambda>_. b) c)"
  "config_wf c \<Longrightarrow> length b = 16 \<Longrightarrow> config_wf (appKey_update (\<lambda>_. b) c)"
  "config_wf c \<Longrightarrow> length b = 16 \<Longrightarrow> config_wf (nwkSKey_update (\<lambda>_. b) c)"
  "config_wf c \<Longrightarrow> length b = 16 \<Longrightarrow> config_wf (appSKey_update (\<lambda>_. b) c)"
  by (simp_all add: config_wf_def)

lemma wf_sensor_field: "config_wf (dev_cfg (nfc_sensor_field fam key v s)) = config_wf (dev_cfg s)"
proof -
  have if_wf: "config_wf (dev_cfg (if b then x else y)) = config_wf (dev_cfg s)"
    if "config_wf (dev_cfg x) = config_wf (dev_cfg s)" "config_wf (dev_cfg y) = config_wf (dev_cfg s)" for b x y
    using that by simp
  show ?thesis unfolding nfc_sensor_field_def set_hdc2080_def on_cfg_def
    by (intro if_wf) (simp_all add: config_wf_SET config_wf_updates)
qed

lemma pred_option_cond:
  "(b \<Longrightarrow> pred_option P x) \<Longrightarrow> (\<not> b \<Longrightarrow> pred_option P y) \<Longrightarrow> pred_option P (if b then x else y)"
  by simp

lemma wf_key_field:
  fixes raw :: uint8
  assumes "config_wf (dev_cfg s)" "\<forall>b. payload = Some b \<longrightarrow> length b = unat raw" "raw = 16"
    and "\<And>b. length b = 16 \<Longrightarrow> config_wf (upd (\<lambda>_. b) (dev_cfg s))"
  shows "pred_option (\<lambda>s'. config_wf (dev_cfg s')) (nfc_key_field get upd payload s)"
  using assms by (auto simp: nfc_key_field_def on_cfg_def config_wf_MEMCPY split: option.split)

lemma wf_action:
  assumes "config_wf (dev_cfg s)" "\<forall>b. payload = Some b \<longrightarrow> length b = unat raw"
  shows "pred_option (\<lambda>s'. config_wf (dev_cfg s')) (nfc_action fam key raw v payload s)"
proof -
  have key: "pred_option (\<lambda>s'. config_wf (dev_cfg s')) (nfc_key_field get upd payload s)"
    if "key = k \<and> raw = 16" "\<And>b. length b = 16 \<Longrightarrow> config_wf (upd (\<lambda>_. b) (dev_cfg s))" for k get upd
    using that by (intro wf_key_field [OF assms]) auto
  have set: "pred_option (\<lambda>s'. config_wf (dev_cfg s')) (Some (on_cfg f s))" if "config_wf (f (dev_cfg s))" for f
    using that by (simp add: on_cfg_def)
  have keep: "pred_option (\<lambda>s'. config_wf (dev_cfg s')) (Some s)" using assms(1) by simp
  have sensor: "pred_option (\<lambda>s'. config_wf (dev_cfg s')) (Some (nfc_sensor_field fam key v s))"
    using assms(1) by (simp add: wf_sensor_field)
  have mem: "config_wf (dev_cfg s)" by (rule assms(1))
  show ?thesis
    unfolding nfc_action_def if_distrib [of Some]
    by (intro pred_option_cond; (rule sensor keep | (rule set; simp add: config_wf_SET config_wf_MEMCPY config_wf_updates mem)
        | (rule key, assumption, simp add: config_wf_updates mem) | (simp add: mem))?)
qed

lemma PBDecodeMsg_wf:
  assumes "PBDecodeMsg fam msg len c = Some (Stop (c', rs))" "config_wf c"
  shows "config_wf c'"
proof -
  obtain s where c': "c' = dev_cfg (nfc_finish fam s)"
    and s: "s = nfc_start c \<or> (\<exists>completed. kv_loop (nfc_rem len) msg (nfc_action fam) 1 (nfc_start c) = Some (Stop (completed, s)))"
    using PBDecodeMsg_result [OF assms(1)] by metis
  have start: "config_wf (dev_cfg (nfc_start c))" using assms(2) by (simp add: nfc_start_def)
  from s have "config_wf (dev_cfg s)"
    using kv_loop_invariant [where P = "\<lambda>s. config_wf (dev_cfg s)"] start wf_action [THEN pred_option_Some] by blast
  then show ?thesis by (simp add: c' nfc_finish_def on_cfg_def Let_def config_wf_SET config_wf_updates)
qed

section \<open>A message the reader does not return from\<close>

definition looping_mailbox :: bytes where
  \<comment> \<open>a message of four bytes, and what the mailbox holds after it\<close>
  "looping_mailbox = [0, 0x09, 0, 0, 0, 0, 0, 0, 0, 0, 0x0A, 0xF4, 0x01] @ replicate 240 0"

lemma looping_reads:
  "read_field (nfc_rem 4) looping_mailbox 1 = FieldGood 0x09 8 0 2"
  "read_field (nfc_rem 4) looping_mailbox 10 = FieldGood 0x0A 0xF4 0xF4 13"
  by code_simp+

lemma looping_actions:
  "nfc_action fam 0x09 raw v payload s = Some s" "nfc_action fam 0x0A raw v payload s = Some s"
  by (simp_all add: nfc_action_def nfc_sensor_field_def config_key_values)

text \<open>C28. There is a message of four bytes, in a mailbox whose other bytes
  come from an earlier transfer, on which \<open>PBDecodeMsg\<close> never returns: the eight bytes of a
  \<open>fixed64\<close> value are not checked against the end of the message, \<open>pos\<close> runs past \<open>len\<close>, and a
  \<open>bytes\<close> field found there moves the 8-bit \<open>pos\<close> back to the first field.\<close>

theorem PBDecodeMsg_may_not_return: "PBDecodeMsg fam looping_mailbox 4 c = None"
proof -
  have "kv_loop (nfc_rem 4) looping_mailbox (nfc_action fam) 1 (nfc_start c) = None"
  proof (rule kv_loop_no_return [where Q = "\<lambda>pos s. s = nfc_start c \<and> (pos = 1 \<or> pos = 10)"])
    fix pos :: uint8 and s :: nfc_rx assume "s = nfc_start c \<and> (pos = 1 \<or> pos = 10)"
    then show "nfc_rem 4 pos \<noteq> 0 \<and> (\<exists>key raw v pos' s'.
      read_field (nfc_rem 4) looping_mailbox pos = FieldGood key raw v pos' \<and>
      nfc_action fam key raw v (bytes_at looping_mailbox (unat pos') (unat raw)) s = Some s' \<and>
      s' = nfc_start c \<and> (pos' + raw = 1 \<or> pos' + raw = 10))"
      by (elim conjE disjE) (simp_all add: looping_reads looping_actions nfc_rem_def)
  qed simp
  then show ?thesis by (simp add: PBDecodeMsg_def looping_mailbox_def Let_def)
qed

section \<open>Properties\<close>

text \<open>C1. A message that is the version byte and a sequence of encoded
  fields is decoded to the end, without undefined behaviour whatever the bytes after it are, and
  its effect is that of its fields, one after the other, followed by the update of the set of used
  sensors: the reader refines the specification \<open>nfc_apply\<close> over the fields the encoder wrote.\<close>

theorem PBDecodeMsg_applies_fields:
  assumes "\<forall>(key, ap) \<in> set fs. field_readable key ap" "fs \<noteq> []"
    "unat len = 1 + length (fields_bytes fs)"
  shows "PBDecodeMsg fam (0 # fields_bytes fs @ post) len c =
    Some (let s = nfc_finish fam (nfc_apply fam fs (nfc_start c)) in Stop (dev_cfg s, mac_requests s))"
  using assms by (rule PBDecodeMsg_nfc_apply)

theorem PBDecodeMsg_applies_fields_witness:
  "\<exists>c'. PBDecodeMsg STA [0, 0x70, 7, 0x60, 0] 5 DevCfg_default =
     Some (Stop (c', [MIB_NETWORK_ACTIVATION ACTIVATION_TYPE_NONE])) \<and> txPort c' = 7 \<and> lrw (changed c')"
proof -
  let ?fs = "[(PBMSG_BX_LORA_PORT, VaU64 7), (PBMSG_TX_LORA_JOINED, VaU64 0)]"
  have b: "fields_bytes ?fs = [0x70, 7, 0x60, 0]" by code_simp
  have "PBDecodeMsg STA (0 # fields_bytes ?fs @ []) 5 DevCfg_default =
    Some (let s = nfc_finish STA (nfc_apply STA ?fs (nfc_start DevCfg_default))
          in Stop (dev_cfg s, mac_requests s))"
    by (rule PBDecodeMsg_applies_fields) code_simp+
  moreover have "mac_requests (nfc_finish STA (nfc_apply STA ?fs (nfc_start DevCfg_default))) =
      [MIB_NETWORK_ACTIVATION ACTIVATION_TYPE_NONE] \<and>
    txPort (dev_cfg (nfc_finish STA (nfc_apply STA ?fs (nfc_start DevCfg_default)))) = 7 \<and>
    lrw (changed (dev_cfg (nfc_finish STA (nfc_apply STA ?fs (nfc_start DevCfg_default)))))"
    by code_simp
  ultimately show ?thesis by (simp add: b Let_def)
qed

text \<open>C29. Whatever the bytes of the message, when \<open>PBDecodeMsg\<close> returns, every
  part of the configuration that it has written has its flag in \<open>changed\<close> raised, and so has
  \<open>changed.any\<close>: the main loop, which saves and applies a part only when its flag is set, misses no
  change, not even one made by a message that was aborted halfway.\<close>

theorem PBDecodeMsg_tracks_changes:
  assumes "PBDecodeMsg fam msg len c = Some (Stop (c', rs))"
  shows "tracked c c'"
  using assms by (rule PBDecodeMsg_tracked_all)

theorem PBDecodeMsg_tracks_changes_witness:
  "tracked DevCfg_default (DevCfg_default\<lparr>txPort := 7, changed := no_changes\<lparr>any := True, lrw := True\<rparr>\<rparr>)"
proof (rule PBDecodeMsg_tracks_changes)
  show "PBDecodeMsg STA [0, 0x70, 7, 0x0E] 4 DevCfg_default =
      Some (Stop (DevCfg_default\<lparr>txPort := 7, changed := no_changes\<lparr>any := True, lrw := True\<rparr>\<rparr>, []))"
    by code_simp
qed

text \<open>C39. Whatever message is received, the EUIs stay 8 bytes and the keys 16 bytes long: no
  field writes beyond its array or leaves it short.\<close>

theorem PBDecodeMsg_keeps_sizes:
  assumes "PBDecodeMsg fam msg len c = Some (Stop (c', rs))" "config_wf c"
  shows "config_wf c'"
  by (rule PBDecodeMsg_wf [OF assms])

theorem PBDecodeMsg_keeps_sizes_witness:
  "config_wf (DevCfg_default\<lparr>txPort := 7, changed := no_changes\<lparr>any := True, lrw := True\<rparr>\<rparr>)"
proof (rule PBDecodeMsg_keeps_sizes [OF _ config_wf_default])
  show "PBDecodeMsg STA [0, 0x70, 7, 0x0E] 4 DevCfg_default =
      Some (Stop (DevCfg_default\<lparr>txPort := 7, changed := no_changes\<lparr>any := True, lrw := True\<rparr>\<rparr>, []))"
    by code_simp
qed

end
