(* ===== verification/Task_Manager.thy ===== *)
theory Task_Manager
  imports Firmware_Prelude
begin

text \<open>
  The task manager of \<^verbatim>\<open>src/Src/task_mgr.c\<close>: a table of \<open>TASK_MAX\<close> one-shot callbacks, driven by
  the reload interrupt of the low-power timer. A callback is a value of \<open>callback\<close>; what calling
  it does to the rest of the program, the table included, is the parameter \<open>call\<close> of the tick.
\<close>

section \<open>The table\<close>

record 'cb task =
  task_when :: uint32
  task_arg :: nat
  task_cb :: "'cb option"        \<comment> \<open>\<open>None\<close> is the null pointer\<close>

record 'cb task_state =
  tasks :: "'cb task list"
  tasks_ticks :: uint32
  processingRdyTasks :: bool

definition TASK_MAX :: nat where "TASK_MAX = 20"

definition empty_task :: "'cb task" where
  "empty_task = \<lparr>task_when = 0, task_arg = 0, task_cb = None\<rparr>"

definition tasks_init :: "'cb task_state" where
  "tasks_init = \<lparr>tasks = replicate TASK_MAX empty_task, tasks_ticks = 0, processingRdyTasks = False\<rparr>"

definition tasks_wf :: "'cb task_state \<Rightarrow> bool" where
  "tasks_wf s \<longleftrightarrow> length (tasks s) = TASK_MAX"

section \<open>Operations\<close>

function add_loop :: "'cb task \<Rightarrow> nat \<Rightarrow> 'cb task_state \<Rightarrow> 'cb task_state \<times> nat option" where
  \<comment> \<open>the \<open>do \<dots> while(++i % TASK_MAX != 0)\<close>\<close>
  "add_loop t i s =
    (if task_when (tasks s ! i) \<le> tasks_ticks s then (s\<lparr>tasks := (tasks s)[i := t]\<rparr>, Some i)
     else if (i + 1) mod TASK_MAX \<noteq> 0 \<and> i < TASK_MAX then add_loop t (i + 1) s
     else (s, None))"
  by auto
termination by (relation "measure (\<lambda>(t, i, s). TASK_MAX - i)") (auto simp: TASK_MAX_def)
declare add_loop.simps [simp del]

definition tasks_add :: "'cb task \<Rightarrow> 'cb task_state \<Rightarrow> 'cb task_state \<times> nat option" where
  "tasks_add t s = add_loop t 0 s"

definition tasks_del :: "nat \<Rightarrow> 'cb task_state \<Rightarrow> 'cb task_state" where
  "tasks_del i s = s\<lparr>tasks := (tasks s)[i := empty_task]\<rparr>"

fun pending_loop :: "'cb task list \<Rightarrow> uint32 \<Rightarrow> int" where
  "pending_loop [] ticks = 0"
| "pending_loop (t # ts) ticks = (if task_when t > ticks then -1 else pending_loop ts ticks)"

definition tasks_has_pending :: "'cb task_state \<Rightarrow> int" where
  "tasks_has_pending s = pending_loop (tasks s) (tasks_ticks s)"

type_synonym ('cb, 'w) caller = "'cb \<Rightarrow> nat \<Rightarrow> 'cb task_state \<times> 'w \<Rightarrow> 'cb task_state \<times> 'w"

fun run_ready :: "('cb, 'w) caller \<Rightarrow> nat \<Rightarrow> nat \<Rightarrow> 'cb task_state \<times> 'w \<Rightarrow> ('cb task_state \<times> 'w) option" where
  \<comment> \<open>the \<open>for\<close> loop from slot \<open>i\<close> on, \<open>n\<close> slots; calling a null pointer is undefined behaviour\<close>
  "run_ready call 0 i sw = Some sw"
| "run_ready call (Suc n) i sw =
    (let t = tasks (fst sw) ! i
     in if task_when t = tasks_ticks (fst sw) then
          (case task_cb t of
             None \<Rightarrow> None
           | Some cb \<Rightarrow> run_ready call n (i + 1) (call cb (task_arg t) sw))
        else run_ready call n (i + 1) sw)"

definition LPTIM_tick :: "('cb, 'w) caller \<Rightarrow> 'cb task_state \<times> 'w \<Rightarrow> ('cb task_state \<times> 'w) option" where
  \<comment> \<open>\<open>HAL_LPTIM_AutoReloadMatchCallback\<close>\<close>
  "LPTIM_tick call sw = (case sw of (s, w) \<Rightarrow>
     let s1 = s\<lparr>tasks_ticks := tasks_ticks s + 1\<rparr>
     in if processingRdyTasks s then Some (s1, w)
        else map_option (\<lambda>(s', w'). (s'\<lparr>processingRdyTasks := False\<rparr>, w'))
          (run_ready call TASK_MAX 0 (s1\<lparr>processingRdyTasks := True\<rparr>, w)))"

section \<open>Lemmas\<close>

definition pending :: "'cb task_state \<Rightarrow> nat \<Rightarrow> bool" where
  \<comment> \<open>slot \<open>i\<close> waits for a later tick\<close>
  "pending s i \<longleftrightarrow> task_when (tasks s ! i) > tasks_ticks s"

lemma add_loop_spec:
  assumes "length (tasks s) = TASK_MAX" "i < TASK_MAX"
  shows "(\<exists>j. i \<le> j \<and> j < TASK_MAX \<and> \<not> pending s j \<and> (\<forall>k. i \<le> k \<and> k < j \<longrightarrow> pending s k) \<and>
      add_loop t i s = (s\<lparr>tasks := (tasks s)[j := t]\<rparr>, Some j)) \<or>
    (\<forall>k. i \<le> k \<and> k < TASK_MAX \<longrightarrow> pending s k) \<and> add_loop t i s = (s, None)"
  using assms(2)
proof (induction "TASK_MAX - i" arbitrary: i)
  case 0
  then show ?case by simp
next
  case (Suc n)
  show ?case
  proof (cases "pending s i")
    case False
    then show ?thesis using Suc.prems
      by (intro disjI1 exI [of _ i]) (subst add_loop.simps, auto simp: pending_def not_less)
  next
    case True
    show ?thesis
    proof (cases "i + 1 = TASK_MAX")
      case e: True
      then have "(i + 1) mod TASK_MAX = 0" by simp
      with True e show ?thesis
        by (intro disjI2) (subst add_loop.simps, auto simp: pending_def not_less less_Suc_eq_le le_less)
    next
      case False
      with Suc.prems have lt: "i + 1 < TASK_MAX" by simp
      then have m: "(i + 1) mod TASK_MAX \<noteq> 0" by simp
      have eq: "add_loop t i s = add_loop t (i + 1) s"
        using True m Suc.prems by (subst add_loop.simps) (simp add: pending_def flip: not_less)
      have ge: "i \<le> k \<longleftrightarrow> k = i \<or> i + 1 \<le> k" for k by auto
      have "n = TASK_MAX - (i + 1)" using Suc.hyps(2) by simp
      from Suc.hyps(1) [OF this lt]
      consider (found) j where "i + 1 \<le> j" "j < TASK_MAX" "\<not> pending s j"
          "\<forall>k. i + 1 \<le> k \<and> k < j \<longrightarrow> pending s k"
          "add_loop t (i + 1) s = (s\<lparr>tasks := (tasks s)[j := t]\<rparr>, Some j)"
        | (full) "\<forall>k. i + 1 \<le> k \<and> k < TASK_MAX \<longrightarrow> pending s k" "add_loop t (i + 1) s = (s, None)"
        by blast
      then show ?thesis
      proof cases
        case found
        then show ?thesis unfolding eq using True
          by (intro disjI1 exI [of _ j]) (auto simp: ge)
      next
        case full
        then show ?thesis unfolding eq using True by (intro disjI2) (auto simp: ge)
      qed
    qed
  qed
qed

lemma pending_loop_spec: "pending_loop ts now = (if \<exists>t \<in> set ts. task_when t > now then -1 else 0)"
  by (induction ts) auto

lemma run_ready_idle:
  \<comment> \<open>when no slot is due nothing is called\<close>
  "\<forall>j. i \<le> j \<and> j < i + n \<longrightarrow> task_when (tasks (fst sw) ! j) \<noteq> tasks_ticks (fst sw) \<Longrightarrow>
   run_ready call n i sw = Some sw"
  by (induction n arbitrary: i) (auto simp: Let_def)

definition quiet :: "('cb, 'w) caller \<Rightarrow> bool" where
  \<comment> \<open>callbacks that leave the task table alone\<close>
  "quiet call \<longleftrightarrow> (\<forall>cb x s w. fst (call cb x (s, w)) = s)"

definition due_slots :: "'cb task_state \<Rightarrow> nat list" where
  "due_slots s = filter (\<lambda>i. task_when (tasks s ! i) = tasks_ticks s) [0..<TASK_MAX]"

fun call_slots :: "('cb, 'w) caller \<Rightarrow> nat list \<Rightarrow> 'cb task_state \<times> 'w \<Rightarrow> 'cb task_state \<times> 'w" where
  "call_slots call [] sw = sw"
| "call_slots call (i # is) sw =
    call_slots call is (call (the (task_cb (tasks (fst sw) ! i))) (task_arg (tasks (fst sw) ! i)) sw)"

lemma run_ready_calls:
  assumes "quiet call" "\<forall>j. i \<le> j \<and> j < i + n \<and> task_when (tasks s ! j) = tasks_ticks s \<longrightarrow> task_cb (tasks s ! j) \<noteq> None"
  shows "run_ready call n i (s, w) =
    Some (call_slots call (filter (\<lambda>j. task_when (tasks s ! j) = tasks_ticks s) [i..<i + n]) (s, w))"
  using assms(2)
proof (induction n arbitrary: i w)
  case (Suc n)
  have up: "[i..<i + Suc n] = i # [Suc i..<Suc i + n]" by (simp add: upt_rec)
  show ?case
  proof (cases "task_when (tasks s ! i) = tasks_ticks s")
    case True
    with Suc.prems obtain cb where cb: "task_cb (tasks s ! i) = Some cb" by force
    obtain w' where w': "call cb (task_arg (tasks s ! i)) (s, w) = (s, w')"
      using assms(1) unfolding quiet_def by (metis prod.collapse)
    from Suc.IH [of "Suc i" w'] Suc.prems True cb w' show ?thesis
      unfolding up by (simp del: upt_Suc)
  next
    case False
    from Suc.IH [of "Suc i" w] Suc.prems False show ?thesis
      unfolding up by (simp del: upt_Suc)
  qed
qed simp

section \<open>Properties\<close>

text \<open>\<open>tasks_add\<close> puts the task into the first slot whose task is not
  waiting for a later tick, and changes no other slot: a pending task is never overwritten. When
  every slot is pending the table is unchanged and the null pointer is returned.\<close>

theorem tasks_add_takes_first_free:
  assumes "tasks_wf s"
  shows "(\<exists>j < TASK_MAX. \<not> pending s j \<and> (\<forall>k < j. pending s k) \<and>
      tasks_add t s = (s\<lparr>tasks := (tasks s)[j := t]\<rparr>, Some j)) \<or>
    (\<forall>k < TASK_MAX. pending s k) \<and> tasks_add t s = (s, None)"
  using add_loop_spec [of s 0 t] assms by (auto simp: tasks_wf_def tasks_add_def TASK_MAX_def)

definition full_table :: "nat task_state" where
  "full_table = tasks_init\<lparr>tasks := (replicate TASK_MAX \<lparr>task_when = 9, task_arg = 0, task_cb = Some 0\<rparr>)[3 := empty_task]\<rparr>"

theorem tasks_add_takes_first_free_witness:
  "(\<exists>j < TASK_MAX. \<not> pending full_table j \<and> (\<forall>k < j. pending full_table k) \<and>
      tasks_add empty_task full_table = (full_table\<lparr>tasks := (tasks full_table)[j := empty_task]\<rparr>, Some j)) \<or>
    (\<forall>k < TASK_MAX. pending full_table k) \<and> tasks_add empty_task full_table = (full_table, None)"
  by (rule tasks_add_takes_first_free) (simp add: tasks_wf_def full_table_def tasks_init_def)

text \<open>\<open>tasks_has_pending\<close> answers \<open>-1\<close> exactly when some slot of the table
  waits for a later tick, and 0 otherwise.\<close>

theorem tasks_has_pending_spec:
  assumes "tasks_wf s"
  shows "tasks_has_pending s = (if \<exists>i < TASK_MAX. pending s i then -1 else 0)"
  using assms unfolding tasks_has_pending_def pending_loop_spec tasks_wf_def pending_def
  by (metis in_set_conv_nth)

theorem tasks_has_pending_spec_witness:
  "tasks_has_pending full_table = (if \<exists>i < TASK_MAX. pending full_table i then -1 else 0)"
  by (rule tasks_has_pending_spec) (simp add: tasks_wf_def full_table_def tasks_init_def)

text \<open>C32. A tick that is not nested in another one advances the time by one and
  calls, in the order of the slots, exactly the tasks whose time has come, each once; when their
  callbacks leave the table alone it is unchanged, and the scheduler is ready for the next tick.\<close>

theorem tick_runs_due_tasks:
  assumes "quiet call" "\<not> processingRdyTasks s"
    and "s1 = s\<lparr>tasks_ticks := tasks_ticks s + 1, processingRdyTasks := True\<rparr>"
    and "\<forall>i \<in> set (due_slots s1). task_cb (tasks s ! i) \<noteq> None"
  shows "LPTIM_tick call (s, w) = Some (s\<lparr>tasks_ticks := tasks_ticks s + 1\<rparr>,
    snd (call_slots call (due_slots s1) (s1, w)))"
proof -
  have q: "fst (call_slots call js (s1, w)) = s1" for js w
  proof (induction js arbitrary: w)
    case (Cons i js)
    then show ?case using assms(1) unfolding quiet_def by (metis call_slots.simps(2) prod.collapse)
  qed simp
  have "run_ready call TASK_MAX 0 (s1, w) = Some (call_slots call (due_slots s1) (s1, w))"
    using run_ready_calls [OF assms(1), of 0 TASK_MAX s1 w] assms(3,4) by (auto simp: due_slots_def)
  moreover obtain w' where "call_slots call (due_slots s1) (s1, w) = (s1, w')"
    using q [of "due_slots s1" w] by (cases "call_slots call (due_slots s1) (s1, w)") simp
  ultimately show ?thesis using assms(2,3) by (simp add: LPTIM_tick_def Let_def)
qed

definition log_call :: "(nat, nat list) caller" where
  "log_call cb x sw = (fst sw, snd sw @ [cb + x])"

definition due_table :: "nat task_state" where
  "due_table = tasks_init\<lparr>tasks := (replicate TASK_MAX empty_task)
     [2 := \<lparr>task_when = 1, task_arg = 5, task_cb = Some 10\<rparr>, 7 := \<lparr>task_when = 1, task_arg = 6, task_cb = Some 20\<rparr>]\<rparr>"

theorem tick_runs_due_tasks_witness:
  "LPTIM_tick log_call (due_table, []) = Some (due_table\<lparr>tasks_ticks := 1\<rparr>, [15, 26])"
proof -
  let ?s1 = "due_table\<lparr>tasks_ticks := tasks_ticks due_table + 1, processingRdyTasks := True\<rparr>"
  have d: "due_slots ?s1 = [2, 7]" by code_simp
  have "LPTIM_tick log_call (due_table, []) = Some (due_table\<lparr>tasks_ticks := tasks_ticks due_table + 1\<rparr>,
      snd (call_slots log_call (due_slots ?s1) (?s1, [])))"
  proof (rule tick_runs_due_tasks [OF _ _ refl])
    show "quiet log_call" by (simp add: quiet_def log_call_def)
    show "\<not> processingRdyTasks due_table" by (simp add: due_table_def tasks_init_def)
    show "\<forall>i \<in> set (due_slots ?s1). task_cb (tasks due_table ! i) \<noteq> None"
      unfolding d by (simp add: due_table_def TASK_MAX_def)
  qed
  moreover have "snd (call_slots log_call (due_slots ?s1) (?s1, [])) = [15, 26]" by code_simp
  ultimately show ?thesis by (simp add: due_table_def tasks_init_def)
qed

end
