(* ===== verification/Lrw_Config.thy ===== *)
theory Lrw_Config
  imports Lorawan_Mac Message_Ids
begin

text \<open>
  The synchronisation of the device configuration with the LoRaWAN stack (\<^verbatim>\<open>src/Src/lrw.c\<close>):
  \<open>LRW_FromDevCfg\<close> after a change over NFC and \<open>LRW_ToDevCfg\<close> after a change by the network,
  with the conversions of data rate and transmit power. \<open>LoRaMacInitialization\<close>, the only way to
  change the region, is the parameter \<open>mac_init\<close>; \<open>BoardGetUniqueId\<close> is the parameter \<open>unique_id\<close>.
\<close>

section \<open>Conversions\<close>

definition LRW_ToDatarate :: "uint8 \<Rightarrow> uint8 \<Rightarrow> uint8 \<Rightarrow> uint8" where
  "LRW_ToDatarate r s b =
    (if r = LORAMAC_REGION_US915 \<and> b = ucast PBENUM_BW_500 then 4
     else if r = LORAMAC_REGION_US915 \<and> b = ucast PBENUM_BW_125 \<and> s \<le> 7 then 3
     else if r = LORAMAC_REGION_US915 \<and> b = ucast PBENUM_BW_125 \<and> s = 8 then 2
     else if r = LORAMAC_REGION_US915 \<and> b = ucast PBENUM_BW_125 \<and> s = 9 then 1
     else if r = LORAMAC_REGION_US915 \<and> b = ucast PBENUM_BW_125 \<and> s \<ge> 10 then 0
     else if r = LORAMAC_REGION_EU868 \<and> b = ucast PBENUM_BW_250 then 6
     else if r = LORAMAC_REGION_EU868 \<and> b = ucast PBENUM_BW_125 \<and> s \<le> 7 then 5
     else if r = LORAMAC_REGION_EU868 \<and> b = ucast PBENUM_BW_125 \<and> s = 8 then 4
     else if r = LORAMAC_REGION_EU868 \<and> b = ucast PBENUM_BW_125 \<and> s = 9 then 3
     else if r = LORAMAC_REGION_EU868 \<and> b = ucast PBENUM_BW_125 \<and> s = 10 then 2
     else if r = LORAMAC_REGION_EU868 \<and> b = ucast PBENUM_BW_125 \<and> s = 11 then 1
     else if r = LORAMAC_REGION_EU868 \<and> b = ucast PBENUM_BW_125 \<and> s = 12 then 0
     else 0)"

definition tx_clamp :: "uint8 \<Rightarrow> uint8 \<Rightarrow> uint8" where
  "tx_clamp r dbm =
    (if r = LORAMAC_REGION_EU868 \<and> dbm \<ge> 14 then 14
     else if r = LORAMAC_REGION_EU868 \<and> dbm \<le> 0 then 0
     else if r = LORAMAC_REGION_EU868 then dbm
     else if r = LORAMAC_REGION_US915 \<and> dbm \<ge> 30 then 30
     else if r = LORAMAC_REGION_US915 \<and> dbm \<le> 2 then 2
     else if r = LORAMAC_REGION_US915 then dbm
     else 2)"

definition round_up_2 :: "uint8 \<Rightarrow> uint8" where
  "round_up_2 dbm = word_of_int ((uint dbm div 2 + uint dbm mod 2) * 2)"

definition LRW_ToTxPower :: "uint8 \<Rightarrow> uint8 \<Rightarrow> uint8" where
  \<comment> \<open>the arithmetic is that of \<open>int\<close>, the result is converted to \<open>uint8_t\<close>\<close>
  "LRW_ToTxPower r dbm0 =
    (let dbm = round_up_2 (tx_clamp r dbm0)
     in if r = LORAMAC_REGION_EU868 then word_of_int ((7 * 2 - uint dbm) div 2)
        else if r = LORAMAC_REGION_US915 then word_of_int ((2 + 14 * 2 - uint dbm) div 2)
        else 0)"

definition LRW_FromTxPower :: "uint8 \<Rightarrow> uint8 \<Rightarrow> uint8" where
  "LRW_FromTxPower r txp =
    (if r = LORAMAC_REGION_EU868 then 14 - txp * 2
     else if r = LORAMAC_REGION_US915 then 30 - txp * 2 else 2)"

section \<open>From the configuration to the stack\<close>

definition on_change :: "bool \<Rightarrow> ('s \<Rightarrow> 's) \<Rightarrow> 's \<Rightarrow> 's" where
  "on_change b f s = (if b then f s else s)"

definition sync_identity :: "DeviceConfig \<Rightarrow> mac \<Rightarrow> mac \<times> bool" where
  \<comment> \<open>device EUI, join EUI and root key; the flag is \<open>rejoin\<close>\<close>
  "sync_identity c m =
    (let r1 = (mac_dev_eui m \<noteq> devEui c);
         m1 = on_change r1 (mib_put (MIB_DEV_EUI (devEui c))) m;
         r2 = (mac_join_eui m1 \<noteq> appEui c);
         m2 = on_change r2 (mib_put (MIB_JOIN_EUI (appEui c))) m1;
         r3 = (nwk_key m2 \<noteq> appKey c);
         m3 = on_change r3 (mib_put (MIB_NWK_KEY (appKey c))) m2
     in (m3, r1 \<or> r2 \<or> r3))"

definition sync_activation :: "DeviceConfig \<Rightarrow> bool \<Rightarrow> mac \<Rightarrow> mac" where
  "sync_activation c rejoin m =
    (if isOtaa c \<noteq> (NetworkActivation m \<noteq> ACTIVATION_TYPE_ABP) \<or> rejoin then
       let m1 = on_change (\<not> isOtaa c) (\<lambda>m. mib_put (MIB_NET_ID 0) (mib_put (MIB_ABP_LORAWAN_VERSION 0x01000400) m)) m
       in mib_put (MIB_NETWORK_ACTIVATION
            (if isOtaa c then ACTIVATION_TYPE_NONE else ACTIVATION_TYPE_ABP)) m1
     else m)"

definition sync_radio :: "uint8 \<Rightarrow> uint8 \<Rightarrow> mac \<Rightarrow> mac" where
  \<comment> \<open>the comparisons are between an \<open>int8_t\<close> and an \<open>uint8_t\<close>\<close>
  "sync_radio dr txp m =
    (let m1 = on_change (sint (ChannelsDatarate m) \<noteq> uint dr)
                (\<lambda>m. mib_put (MIB_CHANNELS_DATARATE dr) (mib_put (MIB_CHANNELS_DEFAULT_DATARATE dr) m)) m
     in on_change (sint (ChannelsTxPower m1) \<noteq> uint txp)
          (\<lambda>m. mib_put (MIB_CHANNELS_TX_POWER txp) (mib_put (MIB_CHANNELS_DEFAULT_TX_POWER txp) m)) m1)"

definition sync_session :: "DeviceConfig \<Rightarrow> mac \<Rightarrow> mac" where
  "sync_session c m =
    (let m1 = on_change (mac_dev_addr m \<noteq> devAddr c) (mib_put (MIB_DEV_ADDR (devAddr c))) m;
         m2 = on_change (f_nwk_s_int_key m1 \<noteq> nwkSKey c) (mib_put (MIB_F_NWK_S_INT_KEY (nwkSKey c))) m1;
         m3 = on_change (s_nwk_s_int_key m2 \<noteq> nwkSKey c) (mib_put (MIB_S_NWK_S_INT_KEY (nwkSKey c))) m2;
         m4 = on_change (nwk_s_enc_key m3 \<noteq> nwkSKey c) (mib_put (MIB_NWK_S_ENC_KEY (nwkSKey c))) m3
     in on_change (app_s_key m4 \<noteq> appSKey c) (mib_put (MIB_APP_S_KEY (appSKey c))) m4)"

definition sync_policy :: "DeviceConfig \<Rightarrow> mac \<Rightarrow> mac" where
  "sync_policy c m =
    (let m1 = on_change (dutyCycle c \<noteq> DutyCycleOn m) (LoRaMacTestSetDutyCycleOn (dutyCycle c)) m
     in on_change (AdrCtrlOn m1 \<noteq> adaptiveDatarate c) (mib_put (MIB_ADR (adaptiveDatarate c))) m1)"

definition LRW_FromDevCfg :: "(uint8 \<Rightarrow> mac \<Rightarrow> mac) \<Rightarrow> bytes \<Rightarrow> DeviceConfig \<times> mac \<Rightarrow> DeviceConfig \<times> mac" where
  "LRW_FromDevCfg mac_init unique_id cm = (case cm of (c, m) \<Rightarrow>
     let dr = LRW_ToDatarate (mac_region m) (sf c) (bw c);
         txp = LRW_ToTxPower (mac_region m) (txPower c);
         m1 = on_change (region c \<noteq> mac_region m) (mac_init (region c)) m;
         c1 = on_change (devEui c = replicate 8 0) (\<lambda>c. c\<lparr>devEui := unique_id\<rparr>) c;
         (m2, rejoin) = sync_identity c1 m1
     in (c1, sync_policy c1 (sync_session c1 (sync_radio dr txp (sync_activation c1 rejoin m2)))))"

section \<open>From the stack to the configuration\<close>

definition LRW_ToDevCfg :: "DeviceConfig \<times> mac \<Rightarrow> (DeviceConfig \<times> mac) option" where
  "LRW_ToDevCfg cm = (case cm of (c, m) \<Rightarrow>
     let datarate = ChannelsDatarateDefault m in
     Option.bind (PHY_SF_FROM_DR (region c) datarate) (\<lambda>s.
     Option.bind (PHY_BW_FROM_DR (region c) datarate) (\<lambda>b. Some (c\<lparr>
         isOtaa := NetworkActivation m \<noteq> ACTIVATION_TYPE_ABP, devEui := mac_dev_eui m,
         appEui := mac_join_eui m, appKey := nwk_key m, devAddr := mac_dev_addr m,
         nwkSKey := f_nwk_s_int_key m, appSKey := app_s_key m,
         txPower := LRW_FromTxPower (mac_region m) (ChannelsTxPowerDefault m),
         sf := s, bw := b + 1, adaptiveDatarate := AdrCtrlOn m, dutyCycle := DutyCycleOn m\<rparr>, m))))"

section \<open>What the steps do\<close>

lemma on_change_simps [simp]: "on_change True f s = f s" "on_change False f s = s"
  by (simp_all add: on_change_def)

lemma mib_put_changed:
  \<comment> \<open>writing only what differs is writing\<close>
  assumes "\<not> tx_running m"
  shows "mac_dev_eui m = y \<Longrightarrow> on_change (y \<noteq> b) (mib_put (MIB_DEV_EUI b)) m = m\<lparr>mac_dev_eui := b\<rparr>"
    "mac_join_eui m = y \<Longrightarrow> on_change (y \<noteq> b) (mib_put (MIB_JOIN_EUI b)) m = m\<lparr>mac_join_eui := b\<rparr>"
    "nwk_key m = y \<Longrightarrow> on_change (y \<noteq> b) (mib_put (MIB_NWK_KEY b)) m = m\<lparr>nwk_key := b\<rparr>"
    "mac_dev_addr m = z \<Longrightarrow> on_change (z \<noteq> a) (mib_put (MIB_DEV_ADDR a)) m = m\<lparr>mac_dev_addr := a\<rparr>"
    "f_nwk_s_int_key m = y \<Longrightarrow> on_change (y \<noteq> b) (mib_put (MIB_F_NWK_S_INT_KEY b)) m = m\<lparr>f_nwk_s_int_key := b\<rparr>"
    "s_nwk_s_int_key m = y \<Longrightarrow> on_change (y \<noteq> b) (mib_put (MIB_S_NWK_S_INT_KEY b)) m = m\<lparr>s_nwk_s_int_key := b\<rparr>"
    "nwk_s_enc_key m = y \<Longrightarrow> on_change (y \<noteq> b) (mib_put (MIB_NWK_S_ENC_KEY b)) m = m\<lparr>nwk_s_enc_key := b\<rparr>"
    "app_s_key m = y \<Longrightarrow> on_change (y \<noteq> b) (mib_put (MIB_APP_S_KEY b)) m = m\<lparr>app_s_key := b\<rparr>"
    "AdrCtrlOn m = w \<Longrightarrow> on_change (w \<noteq> x) (mib_put (MIB_ADR x)) m = m\<lparr>AdrCtrlOn := x\<rparr>"
  using assms by (auto simp: on_change_def mib_put_idle checked_def)

lemma sync_identity_idle:
  assumes "\<not> tx_running m"
  shows "sync_identity c m =
    (m\<lparr>mac_dev_eui := devEui c, mac_join_eui := appEui c, nwk_key := appKey c\<rparr>,
     mac_dev_eui m \<noteq> devEui c \<or> mac_join_eui m \<noteq> appEui c \<or> nwk_key m \<noteq> appKey c)"
  using assms by (simp add: sync_identity_def Let_def mib_put_changed)

definition activation_after :: "DeviceConfig \<Rightarrow> bool \<Rightarrow> mac \<Rightarrow> uint8" where
  \<comment> \<open>the table in the comment of the code\<close>
  "activation_after c rejoin m =
    (if \<not> isOtaa c then ACTIVATION_TYPE_ABP
     else if rejoin \<or> NetworkActivation m = ACTIVATION_TYPE_ABP then ACTIVATION_TYPE_NONE
     else NetworkActivation m)"

lemma sync_activation_idle:
  assumes "\<not> tx_running m"
  shows "\<exists>n v. sync_activation c rejoin m =
    m\<lparr>NetworkActivation := activation_after c rejoin m, net_id := n, lrwan_version := v\<rparr>"
proof (cases "isOtaa c \<noteq> (NetworkActivation m \<noteq> ACTIVATION_TYPE_ABP) \<or> rejoin")
  case True
  then show ?thesis using assms
    by (cases m) (auto simp: sync_activation_def activation_after_def Let_def on_change_def mib_put_idle checked_def activations)
next
  case False
  then have "sync_activation c rejoin m = m" "activation_after c rejoin m = NetworkActivation m"
    by (auto simp: sync_activation_def activation_after_def)
  then show ?thesis by (intro exI [of _ "net_id m"] exI [of _ "lrwan_version m"]) simp
qed

lemma sint_eq_uint_iff:
  assumes "0 \<le> sint (b :: uint8)"
  shows "sint a = uint b \<longleftrightarrow> a = b"
proof
  assume "sint a = uint b"
  then have "word_of_int (sint a) = (word_of_int (uint b) :: uint8)" by simp
  then show "a = b" by simp
next
  have "sint b < 2 ^ 7" using sint_less [of b] by simp
  then have "sint b = uint b" using assms by (simp add: uint_sint take_bit_int_eq_self)
  then show "a = b \<Longrightarrow> sint a = uint b" by simp
qed

lemma RegionVerify_nonneg:
  "RegionVerify r (PHY_TX_DR d) \<Longrightarrow> 0 \<le> sint d" "RegionVerify r (PHY_TX_POWER d) \<Longrightarrow> 0 \<le> sint d"
  by (auto simp: RegionVerify_def RegionCommonValueInRange_def split: if_splits)

lemma sync_radio_idle:
  assumes "\<not> tx_running m"
    and dr: "RegionVerify (mac_region m) (PHY_TX_DR dr)"
    and txp: "RegionVerify (mac_region m) (PHY_TX_POWER txp)"
  shows "sync_radio dr txp m = m\<lparr>ChannelsDatarate := dr, ChannelsTxPower := txp,
    ChannelsDatarateDefault := (if ChannelsDatarate m = dr \<or> \<not> RegionVerify (mac_region m) (PHY_DEF_TX_DR dr)
      then ChannelsDatarateDefault m else dr),
    ChannelsTxPowerDefault := (if ChannelsTxPower m = txp then ChannelsTxPowerDefault m else txp)\<rparr>"
  using assms sint_eq_uint_iff [OF RegionVerify_nonneg(1) [OF dr]] sint_eq_uint_iff [OF RegionVerify_nonneg(2) [OF txp]]
  by (cases m) (auto simp: sync_radio_def Let_def on_change_def mib_put_idle checked_def)

definition served :: "uint8 \<Rightarrow> bool" where
  \<comment> \<open>a region the firmware is built for\<close>
  "served r \<longleftrightarrow> r = LORAMAC_REGION_EU868 \<or> r = LORAMAC_REGION_US915"

lemma LRW_ToDatarate_valid: "served r \<Longrightarrow> RegionVerify r (PHY_TX_DR (LRW_ToDatarate r s b))"
  by (auto simp: served_def RegionVerify_def RegionCommonValueInRange_def LRW_ToDatarate_def regions)

lemma uint8_of_int: "0 \<le> k \<Longrightarrow> k < 256 \<Longrightarrow> uint (word_of_int k :: uint8) = k"
  by (simp add: unsigned_of_int take_bit_int_eq_self)

lemma sint8_of_int: "0 \<le> k \<Longrightarrow> k < 128 \<Longrightarrow> sint (word_of_int k :: uint8) = k"
  by (simp add: signed_of_int signed_take_bit_int_eq_self)

lemma uint_round_up_2:
  assumes "uint d \<le> 30"
  shows "uint (round_up_2 d) = (uint d + 1) div 2 * 2"
proof -
  have e: "(uint d div 2 + uint d mod 2) * 2 = (uint d + 1) div 2 * 2" by presburger
  have "0 \<le> uint d" by simp
  then have "0 \<le> (uint d + 1) div 2 * 2" "(uint d + 1) div 2 * 2 < 256" using assms by presburger+
  then show ?thesis unfolding round_up_2_def e by (rule uint8_of_int)
qed

lemma uint_tx_clamp:
  "uint (tx_clamp LORAMAC_REGION_EU868 p) = min 14 (uint p)"
  "uint (tx_clamp LORAMAC_REGION_US915 p) = max 2 (min 30 (uint p))"
  by (auto simp: tx_clamp_def regions word_le_def min_def max_def)

definition tx_index :: "uint8 \<Rightarrow> uint8 \<Rightarrow> int" where
  \<comment> \<open>two dBm per index, counted down from the maximum power\<close>
  "tx_index r p = (if r = LORAMAC_REGION_EU868 then 7 - (min 14 (uint p) + 1) div 2
     else 15 - (max 2 (min 30 (uint p)) + 1) div 2)"

lemma tx_index_bounds: "0 \<le> tx_index r p" "tx_index r p \<le> (if r = LORAMAC_REGION_EU868 then 7 else 14)"
proof -
  have "0 \<le> uint p" by simp
  then show "0 \<le> tx_index r p" "tx_index r p \<le> (if r = LORAMAC_REGION_EU868 then 7 else 14)"
    unfolding tx_index_def by (auto simp: min_def max_def)
qed

lemma LRW_ToTxPower_index: "served r \<Longrightarrow> LRW_ToTxPower r p = word_of_int (tx_index r p)"
proof -
  assume "served r"
  have half: "(2 * k - u div 2 * 2) div 2 = k - u div 2" for k u :: int by presburger
  have e: "(7 * 2 - (min 14 (uint p) + 1) div 2 * 2) div 2 = 7 - (min 14 (uint p) + 1) div 2"
    "(2 + 14 * 2 - (max 2 (min 30 (uint p)) + 1) div 2 * 2) div 2 = 15 - (max 2 (min 30 (uint p)) + 1) div 2"
    using half [of 7 "min 14 (uint p) + 1"] half [of 15 "max 2 (min 30 (uint p)) + 1"] by simp_all
  have r: "uint (round_up_2 (tx_clamp LORAMAC_REGION_EU868 p)) = (min 14 (uint p) + 1) div 2 * 2"
    "uint (round_up_2 (tx_clamp LORAMAC_REGION_US915 p)) = (max 2 (min 30 (uint p)) + 1) div 2 * 2"
    by (subst uint_round_up_2; simp add: uint_tx_clamp)+
  have d: "LORAMAC_REGION_US915 \<noteq> LORAMAC_REGION_EU868" by (simp add: regions)
  from \<open>served r\<close> show ?thesis unfolding served_def
  proof
    assume eu: "r = LORAMAC_REGION_EU868"
    show ?thesis unfolding LRW_ToTxPower_def Let_def tx_index_def eu if_P [OF refl] r e ..
  next
    assume us: "r = LORAMAC_REGION_US915"
    show ?thesis unfolding LRW_ToTxPower_def Let_def tx_index_def us if_not_P [OF d] if_P [OF refl] r e ..
  qed
qed

lemma LRW_ToTxPower_valid:
  assumes "served r" shows "RegionVerify r (PHY_TX_POWER (LRW_ToTxPower r p))"
proof -
  have "sint (word_of_int (tx_index r p) :: uint8) = tx_index r p"
    using tx_index_bounds [of r p] by (intro sint8_of_int) (auto split: if_splits)
  then show ?thesis using assms tx_index_bounds [of r p]
    by (auto simp: LRW_ToTxPower_index served_def RegionVerify_def RegionCommonValueInRange_def regions)
qed

lemma sync_session_idle:
  assumes "\<not> tx_running m"
  shows "sync_session c m = m\<lparr>mac_dev_addr := devAddr c, f_nwk_s_int_key := nwkSKey c,
    s_nwk_s_int_key := nwkSKey c, nwk_s_enc_key := nwkSKey c, app_s_key := appSKey c\<rparr>"
  using assms by (simp add: sync_session_def Let_def mib_put_changed)

lemma sync_policy_idle:
  assumes "\<not> tx_running m"
  shows "sync_policy c m = m\<lparr>AdrCtrlOn := adaptiveDatarate c, DutyCycleOn := if RegionVerify (mac_region m) PHY_DUTY_CYCLE then dutyCycle c else DutyCycleOn m\<rparr>"
proof -
  have duty: "on_change (dutyCycle c \<noteq> DutyCycleOn m) (LoRaMacTestSetDutyCycleOn (dutyCycle c)) m =
      m\<lparr>DutyCycleOn := if RegionVerify (mac_region m) PHY_DUTY_CYCLE then dutyCycle c else DutyCycleOn m\<rparr>"
    by (simp add: on_change_def LoRaMacTestSetDutyCycleOn_def)
  show ?thesis
    unfolding sync_policy_def Let_def duty
    by (subst mib_put_changed) (simp_all add: assms)
qed

section \<open>Applying a configuration\<close>

definition applied :: "DeviceConfig \<Rightarrow> uint8 \<Rightarrow> mac \<Rightarrow> bool" where
  \<comment> \<open>the stack holds what the configuration asks for; \<open>r\<close> is the region the conversions were done for\<close>
  "applied c r m \<longleftrightarrow> mac_dev_eui m = devEui c \<and> mac_join_eui m = appEui c \<and> nwk_key m = appKey c \<and>
     mac_dev_addr m = devAddr c \<and> f_nwk_s_int_key m = nwkSKey c \<and> s_nwk_s_int_key m = nwkSKey c \<and>
     nwk_s_enc_key m = nwkSKey c \<and> app_s_key m = appSKey c \<and>
     ChannelsDatarate m = LRW_ToDatarate r (sf c) (bw c) \<and> ChannelsTxPower m = LRW_ToTxPower r (txPower c) \<and>
     AdrCtrlOn m = adaptiveDatarate c \<and>
     (RegionVerify (mac_region m) PHY_DUTY_CYCLE \<longrightarrow> DutyCycleOn m = dutyCycle c)"

definition with_unique_id :: "bytes \<Rightarrow> DeviceConfig \<Rightarrow> DeviceConfig" where
  "with_unique_id unique_id c = (if devEui c = replicate 8 0 then c\<lparr>devEui := unique_id\<rparr> else c)"

lemma with_unique_id_simps [simp]:
  "region (with_unique_id u c) = region c" "sf (with_unique_id u c) = sf c"
  "bw (with_unique_id u c) = bw c" "txPower (with_unique_id u c) = txPower c"
  "isOtaa (with_unique_id u c) = isOtaa c"
  by (simp_all add: with_unique_id_def)

definition same_identity :: "DeviceConfig \<Rightarrow> mac \<Rightarrow> bool" where
  "same_identity c m \<longleftrightarrow> mac_dev_eui m = devEui c \<and> mac_join_eui m = appEui c \<and> nwk_key m = appKey c"

definition idle_sync :: "DeviceConfig \<Rightarrow> uint8 \<Rightarrow> uint8 \<Rightarrow> mac \<Rightarrow> mac" where
  \<comment> \<open>everything after the region has been settled\<close>
  "idle_sync c dr txp m = (case sync_identity c m of (m2, rejoin) \<Rightarrow>
     sync_policy c (sync_session c (sync_radio dr txp (sync_activation c rejoin m2))))"

lemma LRW_FromDevCfg_idle_sync:
  "LRW_FromDevCfg mac_init u (c, m) =
    (let dr = LRW_ToDatarate (mac_region m) (sf c) (bw c); txp = LRW_ToTxPower (mac_region m) (txPower c)
     in (with_unique_id u c, idle_sync (with_unique_id u c) dr txp
           (if region c = mac_region m then m else mac_init (region c) m)))"
  by (auto simp: LRW_FromDevCfg_def idle_sync_def with_unique_id_def on_change_def Let_def split: prod.split)

lemma idle_sync_spec:
  assumes idle: "\<not> tx_running m"
    and dr: "RegionVerify (mac_region m) (PHY_TX_DR dr)" and txp: "RegionVerify (mac_region m) (PHY_TX_POWER txp)"
  shows "\<exists>n v. idle_sync c dr txp m = m\<lparr>mac_dev_eui := devEui c, mac_join_eui := appEui c, nwk_key := appKey c,
    NetworkActivation := activation_after c (\<not> same_identity c m) m, net_id := n, lrwan_version := v,
    ChannelsDatarate := dr, ChannelsTxPower := txp,
    ChannelsDatarateDefault := (if ChannelsDatarate m = dr \<or> \<not> RegionVerify (mac_region m) (PHY_DEF_TX_DR dr)
      then ChannelsDatarateDefault m else dr),
    ChannelsTxPowerDefault := (if ChannelsTxPower m = txp then ChannelsTxPowerDefault m else txp),
    mac_dev_addr := devAddr c, f_nwk_s_int_key := nwkSKey c,
    s_nwk_s_int_key := nwkSKey c, nwk_s_enc_key := nwkSKey c, app_s_key := appSKey c,
    AdrCtrlOn := adaptiveDatarate c,
    DutyCycleOn := if RegionVerify (mac_region m) PHY_DUTY_CYCLE then dutyCycle c else DutyCycleOn m\<rparr>"
proof -
  define m1 where "m1 = m\<lparr>mac_dev_eui := devEui c, mac_join_eui := appEui c, nwk_key := appKey c\<rparr>"
  have i: "sync_identity c m = (m1, \<not> same_identity c m)"
    using sync_identity_idle [OF idle] by (auto simp: m1_def same_identity_def)
  have "\<not> tx_running m1" using idle by (simp add: m1_def)
  from sync_activation_idle [OF this] obtain n v where a: "sync_activation c (\<not> same_identity c m) m1 =
      m1\<lparr>NetworkActivation := activation_after c (\<not> same_identity c m) m1, net_id := n, lrwan_version := v\<rparr>"
    by blast
  have act: "activation_after c b m1 = activation_after c b m" for b
    by (simp add: activation_after_def m1_def)
  show ?thesis
    unfolding idle_sync_def i prod.case a act
    by (rule exI [of _ n], rule exI [of _ v])
      (simp add: m1_def sync_radio_idle sync_session_idle sync_policy_idle idle dr txp)
qed

lemma idle_sync_applied:
  assumes "\<not> tx_running m" "served (mac_region m)"
    and "dr = LRW_ToDatarate r (sf c) (bw c)" "txp = LRW_ToTxPower r (txPower c)"
    and "RegionVerify (mac_region m) (PHY_TX_DR dr)" "RegionVerify (mac_region m) (PHY_TX_POWER txp)"
  shows "applied c r (idle_sync c dr txp m)"
    "NetworkActivation (idle_sync c dr txp m) = activation_after c (\<not> same_identity c m) m"
    "mac_region (idle_sync c dr txp m) = mac_region m"
  using idle_sync_spec [OF assms(1,5,6), of c] assms(3,4) by (auto simp: applied_def)

lemma LRW_FromDevCfg_idle:
  assumes "\<not> tx_running m" "served (mac_region m)" "region c = mac_region m"
    and "(c', m') = LRW_FromDevCfg mac_init u (c, m)"
  shows "applied c' (region c) m' \<and> c' = with_unique_id u c \<and> mac_region m' = mac_region m \<and>
    NetworkActivation m' = activation_after c' (\<not> same_identity c' m) m"
proof -
  have "c' = with_unique_id u c" "m' = idle_sync c' (LRW_ToDatarate (mac_region m) (sf c) (bw c))
      (LRW_ToTxPower (mac_region m) (txPower c)) m"
    using assms(3,4) by (simp_all add: LRW_FromDevCfg_idle_sync Let_def)
  then show ?thesis
    using idle_sync_applied [OF assms(1,2), of "LRW_ToDatarate (mac_region m) (sf c) (bw c)" "mac_region m" c'
        "LRW_ToTxPower (mac_region m) (txPower c)"] LRW_ToDatarate_valid [OF assms(2)]
      LRW_ToTxPower_valid [OF assms(2)] assms(3) by simp
qed

section \<open>Properties\<close>

text \<open>C34. With no transmission running and the region unchanged,
  \<open>LRW_FromDevCfg\<close> leaves the stack with the identity, keys, address, data rate, power and policies
  of the configuration, in either region. The device stays joined exactly as the table in the code
  says: a joined OTAA session survives unless the EUIs or the root key changed.\<close>

theorem LRW_FromDevCfg_applies:
  assumes "\<not> tx_running m" "served (mac_region m)" "region c = mac_region m"
    and "(c', m') = LRW_FromDevCfg mac_init u (c, m)"
  shows "applied c' (region c) m' \<and> c' = with_unique_id u c \<and> mac_region m' = mac_region m \<and>
    NetworkActivation m' = activation_after c' (\<not> same_identity c' m) m"
  by (rule LRW_FromDevCfg_idle [OF assms])

definition mac_example :: mac where
  "mac_example = \<lparr>mac_region = LORAMAC_REGION_EU868, NetworkActivation = ACTIVATION_TYPE_OTAA,
     mac_dev_eui = replicate 8 1, mac_join_eui = replicate 8 0, nwk_key = replicate 16 0,
     f_nwk_s_int_key = replicate 16 9, s_nwk_s_int_key = replicate 16 9, nwk_s_enc_key = replicate 16 9,
     app_s_key = replicate 16 9, mac_dev_addr = 7, net_id = 0, lrwan_version = 0, ChannelsDatarate = 0,
     ChannelsDatarateDefault = 0, ChannelsTxPower = 0, ChannelsTxPowerDefault = 0, AdrCtrlOn = False,
     DutyCycleOn = True, PublicNetwork = True, SystemMaxRxError = 100, tx_running = False\<rparr>"

definition config_example :: DeviceConfig where
  "config_example = DevCfg_default\<lparr>devEui := replicate 8 1, sf := 9, txPower := 10\<rparr>"

theorem LRW_FromDevCfg_applies_witness:
  "applied config_example LORAMAC_REGION_EU868 (snd (LRW_FromDevCfg (\<lambda>r m. m) [] (config_example, mac_example))) \<and>
   NetworkActivation (snd (LRW_FromDevCfg (\<lambda>r m. m) [] (config_example, mac_example))) = ACTIVATION_TYPE_OTAA"
proof -
  let ?r = "LRW_FromDevCfg (\<lambda>r m. m) [] (config_example, mac_example)"
  have e: "(config_example, snd ?r) = ?r"
    by (simp add: LRW_FromDevCfg_idle_sync Let_def with_unique_id_def config_example_def DevCfg_default_def)
  have "applied config_example (region config_example) (snd ?r) \<and> config_example = with_unique_id [] config_example \<and>
      mac_region (snd ?r) = mac_region mac_example \<and> NetworkActivation (snd ?r) =
      activation_after config_example (\<not> same_identity config_example mac_example) mac_example"
    by (rule LRW_FromDevCfg_applies [OF _ _ _ e])
      (simp_all add: mac_example_def served_def config_example_def DevCfg_default_def)
  then show ?thesis
    by (simp add: activation_after_def same_identity_def mac_example_def config_example_def DevCfg_default_def activations)
qed

text \<open>C36. What the user set over NFC is what \<open>LRW_ToDevCfg\<close> reads back from the
  stack: in EU868, for 125 kHz, a spreading factor from 7 to 12 and an even transmit power of at
  most 14 dBm, and with the default channel parameters in step with the current ones, a
  configuration with a device EUI applied to the idle stack of the same region and read back is unchanged.
  (With 250 kHz it is not, theorem \<open>bandwidth_250_is_lost\<close>.)\<close>

theorem config_survives_sync:
  assumes "\<not> tx_running m" "mac_region m = LORAMAC_REGION_EU868" "region c = LORAMAC_REGION_EU868"
    and "sf c \<in> {7, 8, 9, 10, 11, 12}" "bw c = 1" "txPower c \<in> {0, 2, 4, 6, 8, 10, 12, 14}"
    and "ChannelsDatarateDefault m = ChannelsDatarate m" "ChannelsTxPowerDefault m = ChannelsTxPower m"
    and "devEui c \<noteq> replicate 8 0"
  shows "map_option fst (LRW_ToDevCfg (LRW_FromDevCfg mac_init u (c, m))) = Some c"
proof -
  define dr where "dr = LRW_ToDatarate LORAMAC_REGION_EU868 (sf c) (bw c)"
  define txp where "txp = LRW_ToTxPower LORAMAC_REGION_EU868 (txPower c)"
  have c: "with_unique_id u c = c" using assms(9) by (simp add: with_unique_id_def)
  have eu: "served LORAMAC_REGION_EU868" by (simp add: served_def)
  have d: "RegionVerify LORAMAC_REGION_EU868 (PHY_DEF_TX_DR dr)"
    "PHY_SF_FROM_DR LORAMAC_REGION_EU868 dr = Some (sf c)" "PHY_BW_FROM_DR LORAMAC_REGION_EU868 dr = Some 0"
    using assms(4,5) by (auto simp: dr_def LRW_ToDatarate_def regions pbenum_values RegionVerify_def
      RegionCommonValueInRange_def PHY_SF_FROM_DR_def PHY_BW_FROM_DR_def datarate_at_def DataratesEU868_def
      RegionCommonGetBandwidth_def BandwidthsEU868_def Let_def)
  have t: "LRW_FromTxPower LORAMAC_REGION_EU868 txp = txPower c"
    using assms(6) by (auto simp: txp_def LRW_ToTxPower_index [OF eu] tx_index_def LRW_FromTxPower_def)
  obtain n v where m': "idle_sync c dr txp m = m\<lparr>mac_dev_eui := devEui c, mac_join_eui := appEui c, nwk_key := appKey c,
    NetworkActivation := activation_after c (\<not> same_identity c m) m, net_id := n, lrwan_version := v,
    ChannelsDatarate := dr, ChannelsTxPower := txp, ChannelsDatarateDefault := dr, ChannelsTxPowerDefault := txp,
    mac_dev_addr := devAddr c, f_nwk_s_int_key := nwkSKey c,
    s_nwk_s_int_key := nwkSKey c, nwk_s_enc_key := nwkSKey c, app_s_key := appSKey c,
    AdrCtrlOn := adaptiveDatarate c, DutyCycleOn := dutyCycle c\<rparr>"
    using idle_sync_spec [OF assms(1), of dr txp c] LRW_ToDatarate_valid [OF eu, of "sf c" "bw c"]
      LRW_ToTxPower_valid [OF eu, of "txPower c"] assms(2,7,8) d(1)
    by (auto simp: RegionVerify_def simp flip: dr_def txp_def)
  have "LRW_FromDevCfg mac_init u (c, m) = (c, idle_sync c dr txp m)"
    using assms(2,3) c by (simp add: LRW_FromDevCfg_idle_sync Let_def dr_def txp_def)
  moreover obtain c' where "LRW_ToDevCfg (c, idle_sync c dr txp m) = Some (c', idle_sync c dr txp m)"
    and c': "c' = c\<lparr>isOtaa := activation_after c (\<not> same_identity c m) m \<noteq> ACTIVATION_TYPE_ABP,
      txPower := LRW_FromTxPower LORAMAC_REGION_EU868 txp, bw := 1\<rparr>"
    using assms(2,3) d(2,3) by (simp add: LRW_ToDevCfg_def m')
  moreover have "c' = c"
    unfolding c' t by (rule DeviceConfig.equality)
      (use assms(5) in \<open>simp_all add: activation_after_def activations\<close>)
  ultimately show ?thesis by simp
qed

theorem config_survives_sync_witness:
  "map_option fst (LRW_ToDevCfg (LRW_FromDevCfg (\<lambda>r m. m) [] (config_example, mac_example))) = Some config_example"
  by (rule config_survives_sync)
    (simp_all add: mac_example_def config_example_def DevCfg_default_def)

text \<open>The one EU868 setting with 250 kHz does not survive: the stack
  transmits with data rate 6, but refuses it as a default, and the default is what \<open>LRW_ToDevCfg\<close>
  reads; so the next save of the stack's context turns the user's setting into 125 kHz.\<close>

theorem bandwidth_250_is_lost:
  assumes "\<not> tx_running m" "mac_region m = LORAMAC_REGION_EU868" "region c = LORAMAC_REGION_EU868"
    and "bw c = 2" "ChannelsDatarateDefault m \<in> {0, 1, 2, 3, 4, 5}"
  shows "ChannelsDatarate (snd (LRW_FromDevCfg mac_init u (c, m))) = 6 \<and>
    map_option (\<lambda>(c', m'). bw c') (LRW_ToDevCfg (LRW_FromDevCfg mac_init u (c, m))) = Some 1"
proof -
  define txp where "txp = LRW_ToTxPower LORAMAC_REGION_EU868 (txPower c)"
  define c1 where "c1 = with_unique_id u c"
  have dr: "LRW_ToDatarate LORAMAC_REGION_EU868 (sf c) (bw c) = 6"
    using assms(4) by (simp add: LRW_ToDatarate_def regions pbenum_values)
  have v1: "RegionVerify (mac_region m) (PHY_TX_DR 6)"
    unfolding assms(2) by code_simp
  have v2: "\<not> RegionVerify (mac_region m) (PHY_DEF_TX_DR 6)"
    unfolding assms(2) by code_simp
  have "served LORAMAC_REGION_EU868" by (simp add: served_def)
  from LRW_ToTxPower_valid [OF this] have v3: "RegionVerify (mac_region m) (PHY_TX_POWER txp)"
    unfolding assms(2) txp_def .
  have m': "ChannelsDatarate (idle_sync c1 6 txp m) = 6 \<and>
    ChannelsDatarateDefault (idle_sync c1 6 txp m) = ChannelsDatarateDefault m"
    using idle_sync_spec [OF assms(1) v1 v3, of c1]
  proof (elim exE)
    fix n v
    assume e: "idle_sync c1 6 txp m = m\<lparr>mac_dev_eui := devEui c1, mac_join_eui := appEui c1, nwk_key := appKey c1,
      NetworkActivation := activation_after c1 (\<not> same_identity c1 m) m, net_id := n, lrwan_version := v,
      ChannelsDatarate := 6, ChannelsTxPower := txp,
      ChannelsDatarateDefault := (if ChannelsDatarate m = 6 \<or> \<not> RegionVerify (mac_region m) (PHY_DEF_TX_DR 6)
        then ChannelsDatarateDefault m else 6),
      ChannelsTxPowerDefault := (if ChannelsTxPower m = txp then ChannelsTxPowerDefault m else txp),
      mac_dev_addr := devAddr c1, f_nwk_s_int_key := nwkSKey c1,
      s_nwk_s_int_key := nwkSKey c1, nwk_s_enc_key := nwkSKey c1, app_s_key := appSKey c1,
      AdrCtrlOn := adaptiveDatarate c1,
      DutyCycleOn := if RegionVerify (mac_region m) PHY_DUTY_CYCLE then dutyCycle c1 else DutyCycleOn m\<rparr>"
    show ?thesis unfolding e using v2 by simp
  qed
  have eq: "LRW_FromDevCfg mac_init u (c, m) = (c1, idle_sync c1 6 txp m)"
    using assms(2,3) dr by (simp add: LRW_FromDevCfg_idle_sync Let_def c1_def txp_def)
  have "region c1 = LORAMAC_REGION_EU868" using assms(3) by (simp add: c1_def)
  then show ?thesis unfolding eq using m' assms(5)
    by (auto simp: LRW_ToDevCfg_def PHY_SF_FROM_DR_def PHY_BW_FROM_DR_def datarate_at_def DataratesEU868_def
      RegionCommonGetBandwidth_def BandwidthsEU868_def Let_def)
qed

theorem bandwidth_250_is_lost_witness:
  "ChannelsDatarate (snd (LRW_FromDevCfg (\<lambda>r m. m) [] (config_example\<lparr>bw := 2\<rparr>, mac_example))) = 6 \<and>
    map_option (\<lambda>(c', m'). bw c')
      (LRW_ToDevCfg (LRW_FromDevCfg (\<lambda>r m. m) [] (config_example\<lparr>bw := 2\<rparr>, mac_example))) = Some 1"
  by (rule bandwidth_250_is_lost)
    (simp_all add: mac_example_def config_example_def DevCfg_default_def)

text \<open>The data rate is computed before the region is changed. When the user
  moves a device from EU868 to US915 with spreading factor 10, the stack ends up with the EU868
  index 2, which in US915 is spreading factor 8, and not with index 0.\<close>

theorem region_change_uses_old_datarate:
  assumes "mac_region m = LORAMAC_REGION_EU868" "region c = LORAMAC_REGION_US915" "sf c = 10" "bw c = 1"
    and "mac_region (mac_init LORAMAC_REGION_US915 m) = LORAMAC_REGION_US915"
    and "\<not> tx_running (mac_init LORAMAC_REGION_US915 m)"
  shows "ChannelsDatarate (snd (LRW_FromDevCfg mac_init u (c, m))) = 2 \<and>
    PHY_SF_FROM_DR LORAMAC_REGION_US915 2 = Some 8 \<and> LRW_ToDatarate LORAMAC_REGION_US915 (sf c) (bw c) = 0"
proof -
  let ?i = "mac_init LORAMAC_REGION_US915 m" and ?txp = "LRW_ToTxPower LORAMAC_REGION_EU868 (txPower c)"
  have dr: "LRW_ToDatarate LORAMAC_REGION_EU868 10 1 = 2" "LRW_ToDatarate LORAMAC_REGION_US915 10 1 = 0"
    by (simp_all add: LRW_ToDatarate_def regions pbenum_values)
  have eu: "served LORAMAC_REGION_EU868" by (simp add: served_def)
  have "RegionVerify LORAMAC_REGION_EU868 (PHY_TX_POWER ?txp)" by (rule LRW_ToTxPower_valid [OF eu])
  then have "RegionVerify (mac_region ?i) (PHY_TX_POWER ?txp)" "RegionVerify (mac_region ?i) (PHY_TX_DR 2)"
    using assms(5) by (auto simp: RegionVerify_def RegionCommonValueInRange_def regions)
  from idle_sync_spec [OF assms(6) this(2,1), of "with_unique_id u c"]
  have "ChannelsDatarate (idle_sync (with_unique_id u c) 2 ?txp ?i) = 2" by (elim exE) simp
  then show ?thesis using assms dr
    by (simp add: LRW_FromDevCfg_idle_sync Let_def PHY_SF_FROM_DR_def datarate_at_def DataratesUS915_def regions)
qed

definition mac_reset :: "uint8 \<Rightarrow> mac \<Rightarrow> mac" where
  "mac_reset r m = m\<lparr>mac_region := r, ChannelsDatarate := 0, tx_running := False\<rparr>"

theorem region_change_uses_old_datarate_witness:
  "ChannelsDatarate (snd (LRW_FromDevCfg mac_reset []
     (config_example\<lparr>region := LORAMAC_REGION_US915, sf := 10\<rparr>, mac_example))) = 2"
proof -
  have "ChannelsDatarate (snd (LRW_FromDevCfg mac_reset []
     (config_example\<lparr>region := LORAMAC_REGION_US915, sf := 10\<rparr>, mac_example))) = 2 \<and>
    PHY_SF_FROM_DR LORAMAC_REGION_US915 2 = Some 8 \<and>
    LRW_ToDatarate LORAMAC_REGION_US915 (sf (config_example\<lparr>region := LORAMAC_REGION_US915, sf := 10\<rparr>))
      (bw (config_example\<lparr>region := LORAMAC_REGION_US915, sf := 10\<rparr>)) = 0"
    by (rule region_change_uses_old_datarate)
      (simp_all add: mac_example_def config_example_def DevCfg_default_def mac_reset_def)
  then show ?thesis by blast
qed

end
