(* ===== verification/Config_Encode.thy ===== *)
theory Config_Encode
  imports Field_Parser Lrw_Config
begin

unbundle bit_operations_syntax

text \<open>
  The encoders of the two messages a device sends over NFC: \<open>PBEncodeMsg_DeviceConfiguration\<close> and
  \<open>PBEncodeMsg_DeviceSensors\<close> of \<^verbatim>\<open>src/Src/protobuf.c\<close>. A message is the list of its fields;
  what the sensors and the ADC yield are the parameters of \<open>readings\<close>, as the integers the code
  has after its conversions.
\<close>

section \<open>Appending fields to a message\<close>

definition PBEncodeMsgField :: "nat \<Rightarrow> field \<Rightarrow> bytes \<times> nat \<Rightarrow> (bytes \<times> nat) option" where
  \<comment> \<open>the macro, and the \<open>size +=\<close> around every use of it\<close>
  "PBEncodeMsgField len f st = (case (f, st) of ((key, ap), (msg, pos)) \<Rightarrow>
     if pos < len then map_option (\<lambda>(out, n). (take pos msg @ out, pos + n))
       (PBEncodeField (drop pos msg) (len - pos) key ap)
     else map_option (\<lambda>(out, n). (msg, pos + n)) (PBEncodeField [] 0 key ap))"

fun encode_fields :: "nat \<Rightarrow> field list \<Rightarrow> bytes \<times> nat \<Rightarrow> (bytes \<times> nat) option" where
  "encode_fields len [] st = Some st"
| "encode_fields len (f # fs) st = Option.bind (PBEncodeMsgField len f st) (encode_fields len fs)"

lemma PBEncodeMsgField_clip:
  assumes "len \<le> length msg" "field_ok key ap"
  shows "PBEncodeMsgField len (key, ap) (msg, pos) =
    Some (clip_write len pos (field_bytes key ap) msg, pos + length (field_bytes key ap))"
proof (cases "pos < len")
  case True
  with assms show ?thesis
    using clip_write_offset [of pos len msg "field_bytes key ap"]
    by (simp add: PBEncodeMsgField_def PBEncodeField_field_bytes)
next
  case False
  with assms show ?thesis by (simp add: PBEncodeMsgField_def PBEncodeField_field_bytes)
qed

definition fields_ok :: "field list \<Rightarrow> bool" where
  "fields_ok fs \<longleftrightarrow> list_all (\<lambda>(key, ap). field_ok key ap) fs"

lemma fields_bytes_Nil [simp]: "fields_bytes [] = []"
  by (simp add: fields_bytes_def)

lemma fields_bytes_Cons: "fields_bytes ((key, ap) # fs) = field_bytes key ap @ fields_bytes fs"
  by (simp add: fields_bytes_def)

lemma fields_bytes_append: "fields_bytes (fs @ gs) = fields_bytes fs @ fields_bytes gs"
  by (simp add: fields_bytes_def)

theorem encode_fields_clip:
  assumes "fields_ok fs" "len \<le> length msg"
  shows "encode_fields len fs (msg, pos) =
    Some (clip_write len pos (fields_bytes fs) msg, pos + length (fields_bytes fs))"
  using assms
proof (induction fs arbitrary: msg pos)
  case (Cons f fs)
  obtain key ap where f: "f = (key, ap)" by (cases f)
  with Cons.prems have "field_ok key ap" "fields_ok fs" by (simp_all add: fields_ok_def)
  with Cons show ?case
    by (simp add: f PBEncodeMsgField_clip fields_bytes_Cons clip_write_append add.assoc)
qed simp

section \<open>DeviceConfiguration\<close>

definition FIRMWARE_VERSION :: uint64 where "FIRMWARE_VERSION = 11"

fun part_number :: "family \<Rightarrow> uint64" where
  "part_number STX = PBENUM_PARTNR_STX"
| "part_number STE = PBENUM_PARTNR_STE"
| "part_number STA = PBENUM_PARTNR_STA"

abbreviation va_bool :: "bool \<Rightarrow> va_arg" where "va_bool b \<equiv> VaU64 (of_bool64 b)"
abbreviation va_cast :: "'a::len word \<Rightarrow> va_arg" where "va_cast w \<equiv> VaU64 (ucast w)"

definition lora_fields :: "DeviceConfig \<Rightarrow> mac \<Rightarrow> uint8 \<Rightarrow> uint8 \<Rightarrow> field list" where
  \<comment> \<open>the LoRa settings; \<open>s\<close> and \<open>b\<close> are what the region yields for the data rate\<close>
  "lora_fields c m s b =
    [(PBMSG_BX_LORA_OTAA, va_bool (NetworkActivation m \<noteq> ACTIVATION_TYPE_ABP)),
     (PBMSG_BX_LORA_DEV_EUI, VaU64 (u64 (mac_dev_eui m))),
     (PBMSG_BX_LORA_APP_EUI, VaU64 (u64 (mac_join_eui m))),
     (PBMSG_BX_LORA_APP_KEY, VaBytes 16 (nwk_key m)),
     (PBMSG_BX_LORA_DEV_ADDR, VaU32 (mac_dev_addr m)),
     (PBMSG_BX_LORA_MAC_NET_SESSION_KEY, VaBytes 16 (f_nwk_s_int_key m)),
     (PBMSG_BX_LORA_MAC_APP_SESSION_KEY, VaBytes 16 (app_s_key m)),
     (PBMSG_TX_LORA_JOINED, va_bool (NetworkActivation m \<noteq> ACTIVATION_TYPE_NONE)),
     (PBMSG_TX_LORA_FP, VaU64 (if region c = LORAMAC_REGION_EU868 then PBENUM_FP_EU868 else PBENUM_FP_US915)),
     (PBMSG_BX_LORA_PORT, va_cast (txPort c)),
     (PBMSG_TX_LORA_TXP, va_cast (LRW_FromTxPower (mac_region m) (ChannelsTxPower m))),
     (PBMSG_TX_LORA_SF, VaU64 (scast s)),
     (PBMSG_TX_LORA_BW, VaU64 (scast b + 1)),
     (PBMSG_TX_LORA_CONFIRMED_MESSAGES, va_bool (confirmedMsgs c)),
     (PBMSG_TX_LORA_ADAPTIVE_DATA_RATE, va_bool (AdrCtrlOn m)),
     (PBMSG_TX_LORA_RESPECT_DUTY_CYCLE, va_bool (DutyCycleOn m)),
     (PBMSG_BX_SENSOR_TIMEBASE, va_cast (sendInterval c)),
     (PBMSG_BX_SENSOR_SEND_TRIGGER, va_cast (sendTrigger c)),
     (PBMSG_BX_SENSOR_SEND_STRATEGY, va_cast (sendStrategy c))]"

definition stx_fields :: "DeviceConfig \<Rightarrow> field list" where
  \<comment> \<open>the humidity thresholds are passed as the \<open>int32_t\<close> they are\<close>
  "stx_fields c =
    (if use_hdc2080 (useSensor c) then
       (if hdc2080_mode c = HDC2080_TEMPERATURE_HIGH then
          [(PBMSG_BX_SENSOR_TEMPERATURE_UPPER_THRESHOLD, VaU64 (PBEncodeSInt (scast (hdc2080_threshold c))))]
        else if hdc2080_mode c = HDC2080_TEMPERATURE_LOW then
          [(PBMSG_BX_SENSOR_TEMPERATURE_LOWER_THRESHOLD, VaU64 (PBEncodeSInt (scast (hdc2080_threshold c))))]
        else if hdc2080_mode c = HDC2080_HUMIDITY_HIGH then
          [(PBMSG_BX_SENSOR_HUMIDITY_UPPER_THRESHOLD, VaU32 (hdc2080_threshold c))]
        else if hdc2080_mode c = HDC2080_HUMIDITY_LOW then
          [(PBMSG_BX_SENSOR_HUMIDITY_LOWER_THRESHOLD, VaU32 (hdc2080_threshold c))]
        else [])
     else []) @
    (if use_sfh7776 (useSensor c) then
       [(PBMSG_BX_SENSOR_LUMINANCE_UPPER_THRESHOLD, va_cast (sfh7776_threshold_upper c)),
        (PBMSG_BX_SENSOR_LUMINANCE_LOWER_THRESHOLD, va_cast (sfh7776_threshold_lower c))] else []) @
    (if use_bma400 (useSensor c) then
       [(PBMSG_BX_SENSOR_AXIS_THRESHOLD, va_cast (bma400_threshold c)),
        (PBMSG_BX_SENSOR_AXIS_CONFIGURE, va_cast (bma400_config c))] else [])"

definition info_fields :: "family \<Rightarrow> field list" where
  "info_fields fam = [(PBMSG_TX_DEVICE_PART_NUMBER, VaU64 (part_number fam)),
     (PBMSG_TX_DEVICE_FW_VERSION, VaU64 FIRMWARE_VERSION)]"

definition configuration_fields :: "family \<Rightarrow> bool \<Rightarrow> DeviceConfig \<Rightarrow> mac \<Rightarrow> field list option" where
  "configuration_fields fam pw_valid c m =
    (if pw_valid then
       Option.bind (PHY_SF_FROM_DR (region c) (ChannelsDatarate m)) (\<lambda>s.
       Option.bind (PHY_BW_FROM_DR (region c) (ChannelsDatarate m)) (\<lambda>b.
         Some (info_fields fam @ lora_fields c m s b @ (if fam = STX then stx_fields c else []))))
     else Some (info_fields fam))"

definition PBEncodeMsg_DeviceConfiguration ::
  "family \<Rightarrow> DeviceConfig \<Rightarrow> mac \<Rightarrow> bool \<Rightarrow> bytes \<Rightarrow> nat \<Rightarrow> (bytes \<times> nat) option" where
  "PBEncodeMsg_DeviceConfiguration fam c m pw_valid msg len =
    Option.bind (configuration_fields fam pw_valid c m) (\<lambda>fs.
      encode_fields len fs (put len PBMSGID_DEVICE_CONFIGURATION (msg, 0)))"

section \<open>DeviceSensors\<close>

record readings =
  voltage_100 :: uint64               \<comment> \<open>\<open>(uint64_t)(voltage * 100)\<close>\<close>
  temperature_100 :: uint64           \<comment> \<open>\<open>(int64_t)(temperature * 100)\<close>\<close>
  bme_temperature :: uint16           \<comment> \<open>an \<open>int16_t\<close>\<close>
  bme_humidity :: uint32
  bme_pressure :: uint32
  hdc_fix_temp :: uint16              \<comment> \<open>an \<open>int16_t\<close>\<close>
  hdc_raw_humid :: uint16
  sfh_lux :: uint16
  bma_fix_x :: uint16                 \<comment> \<open>an \<open>int16_t\<close>\<close>
  bma_fix_y :: uint16                 \<comment> \<open>an \<open>int16_t\<close>\<close>
  bma_fix_z :: uint16                 \<comment> \<open>an \<open>int16_t\<close>\<close>
  bsec_build :: bool                  \<comment> \<open>whether the firmware is built with BSEC, as \<^verbatim>\<open>main.h\<close> asks for an STE\<close>

abbreviation va_sint :: "'a::len word \<Rightarrow> va_arg" where "va_sint w \<equiv> VaU64 (PBEncodeSInt (scast w))"

definition sensor_fields :: "family \<Rightarrow> DeviceConfig \<Rightarrow> readings \<Rightarrow> field list" where
  "sensor_fields fam c r =
    [(PBSMSG_TX_DEVICE_PART_NUMBER, VaU64 (part_number fam)),
     (PBSMSG_TX_DEVICE_BATTERY_VOLTAGE, VaU64 (voltage_100 r))] @
    (case fam of
       STE \<Rightarrow>
         [(PBSMSG_TX_SENSOR_TEMPERATURE, va_sint (bme_temperature r)),
          (PBSMSG_TX_SENSOR_HUMIDITY, va_cast (bme_humidity r)),
          (PBSMSG_TX_SENSOR_PRESSURE, va_cast (bme_pressure r))]
     | STX \<Rightarrow>
         [(PBSMSG_TX_SENSOR_TEMPERATURE, va_sint (hdc_fix_temp r)),
          (PBSMSG_TX_SENSOR_HUMIDITY, VaU64 (ucast (hdc_raw_humid r) * 100000 div 65536)),
          (PBSMSG_TX_SENSOR_LUMINANCE, va_cast (sfh_lux r)),
          (PBSMSG_TX_SENSOR_X_AXIS, va_sint (bma_fix_x r)),
          (PBSMSG_TX_SENSOR_Y_AXIS, va_sint (bma_fix_y r)),
          (PBSMSG_TX_SENSOR_Z_AXIS, va_sint (bma_fix_z r))]
     | STA \<Rightarrow>
         [(PBSMSG_TX_SENSOR_TEMPERATURE, VaU64 (PBEncodeSInt (temperature_100 r))),
          (PBSMSG_TX_SENSOR_GESTURE_SINGLE_COUNT, va_cast (singleCount c)),
          (PBSMSG_TX_SENSOR_GESTURE_DOUBLE_COUNT, va_cast (doubleCount c)),
          (PBSMSG_TX_SENSOR_GESTURE_LONG_COUNT, va_cast (longCount c))])"

definition PBEncodeMsg_DeviceSensors ::
  "family \<Rightarrow> DeviceConfig \<Rightarrow> readings \<Rightarrow> bytes \<Rightarrow> nat \<Rightarrow> (bytes \<times> nat) option" where
  \<comment> \<open>with BSEC the code copies a reading to where the uninitialised integer \<open>b\<close> points\<close>
  "PBEncodeMsg_DeviceSensors fam c r msg len =
    (if fam = STE \<and> bsec_build r then None else encode_fields len (sensor_fields fam c r) (put len PBMSGID_DEVICE_SENSORS (msg, 0)))"

section \<open>The messages as bytes\<close>

definition mac_wf :: "mac \<Rightarrow> bool" where
  "mac_wf m \<longleftrightarrow> length (mac_dev_eui m) = 8 \<and> length (mac_join_eui m) = 8 \<and> length (nwk_key m) = 16 \<and>
     length (f_nwk_s_int_key m) = 16 \<and> length (app_s_key m) = 16"

definition humidity_mode :: "DeviceConfig \<Rightarrow> bool" where
  "humidity_mode c \<longleftrightarrow> use_hdc2080 (useSensor c) \<and>
     (hdc2080_mode c = HDC2080_HUMIDITY_HIGH \<or> hdc2080_mode c = HDC2080_HUMIDITY_LOW)"

lemma fields_ok_simps [simp]:
  "fields_ok []" "fields_ok ((key, ap) # fs) \<longleftrightarrow> field_ok key ap \<and> fields_ok fs"
  "fields_ok (fs @ gs) \<longleftrightarrow> fields_ok fs \<and> fields_ok gs"
  by (simp_all add: fields_ok_def)

lemma fields_ok_lora: "mac_wf m \<Longrightarrow> fields_ok (lora_fields c m s b)"
  by (simp add: lora_fields_def field_ok_def config_key_values mac_wf_def)

lemma fields_ok_stx: "\<not> humidity_mode c \<Longrightarrow> fields_ok (stx_fields c)"
  by (auto simp: stx_fields_def field_ok_def config_key_values humidity_mode_def)

lemma fields_ok_info: "fields_ok (info_fields fam)"
  by (simp add: info_fields_def field_ok_def config_key_values)

lemma fields_ok_configuration:
  assumes "configuration_fields fam pw_valid c m = Some fs" "mac_wf m" "fam = STX \<Longrightarrow> \<not> humidity_mode c"
  shows "fields_ok fs"
  using assms fields_ok_lora [OF assms(2)] fields_ok_stx [of c]
  by (auto simp: configuration_fields_def fields_ok_info Option.bind_eq_Some_conv split: if_splits)

lemma fields_ok_sensors: "fields_ok (sensor_fields fam c r)"
  by (cases fam) (simp_all add: sensor_fields_def field_ok_def sensor_key_values)

lemma message_clip:
  \<comment> \<open>the discriminator byte and the fields\<close>
  assumes "fields_ok fs" "len \<le> length msg"
  shows "encode_fields len fs (put len b (msg, 0)) =
    Some (clip_write len 0 (b # fields_bytes fs) msg, 1 + length (fields_bytes fs))"
  using assms clip_write_append [OF assms(2), of 0 "[b]" "fields_bytes fs"]
  by (simp add: put_clip encode_fields_clip)

lemma encode_fields_append:
  "encode_fields len (fs @ gs) st = Option.bind (encode_fields len fs st) (encode_fields len gs)"
  by (induction fs arbitrary: st) (auto split: Option.bind_split)

section \<open>Bounds on encoded fields\<close>

lemma length_varint_below: "unat x < 2 ^ (7 * k) \<Longrightarrow> 0 < k \<Longrightarrow> length (varint_bytes x) \<le> k"
proof -
  assume a: "unat x < 2 ^ (7 * k)" "0 < k"
  have "unat (drop_bit (7 * k) x) = unat x div 2 ^ (7 * k)" unfolding unat_drop_bit_eq by (simp only: drop_bit_eq_div)
  also have "\<dots> = 0" using a by simp
  finally have "drop_bit (7 * k) x = 0" by (simp only: unat_eq_0)
  with a show ?thesis using length_varint_bytes_bound by blast
qed

lemma unat_ucast_up: "LENGTH('a) \<le> LENGTH('b) \<Longrightarrow> unat (ucast (w :: 'a::len word) :: 'b::len word) < 2 ^ LENGTH('a)"
  by (simp add: unsigned_ucast_eq order_le_less_trans [OF take_bit_nat_less_eq_self unsigned_less])

lemma length_varint_casts:
  "length (varint_bytes (ucast (w8 :: uint8))) \<le> 2" "length (varint_bytes (ucast (w16 :: uint16))) \<le> 3"
  "length (varint_bytes (ucast (w32 :: uint32))) \<le> 5" "length (varint_bytes (of_bool64 b)) \<le> 2"
  using unat_ucast_up [of w8, where 'b = 64] unat_ucast_up [of w16, where 'b = 64] unat_ucast_up [of w32, where 'b = 64]
  by (auto intro!: length_varint_below simp: of_bool64_def)

lemma length_key_2: "key < 2 ^ 14 \<Longrightarrow> length (varint_bytes (ucast (key :: uint32))) \<le> 2"
  by (rule length_varint_below) (simp_all add: word_less_nat_alt unsigned_ucast_eq take_bit_nat_eq_self)

lemma length_varint_field:
  assumes "key < 2 ^ 14" "key AND 7 = 0" "drop_bit 3 key \<noteq> 0" "length (varint_bytes x) \<le> n"
  shows "length (field_bytes key (VaU64 x)) \<le> 2 + n"
  using assms length_key_2 [OF assms(1)]
  by (subst field_bytes_parts) (auto simp: field_ok_def prefix_bytes_def raw_bytes_def)

lemma length_other_fields:
  assumes "key < 2 ^ 14" "drop_bit 3 key \<noteq> 0"
  shows "key AND 7 = 1 \<Longrightarrow> length (field_bytes key (VaU64 x)) \<le> 10"
    and "key AND 7 = 5 \<Longrightarrow> length (field_bytes key (VaU32 w)) \<le> 6"
    and "key AND 7 = 2 \<Longrightarrow> length bs = 16 \<Longrightarrow> length (field_bytes key (VaBytes 16 bs)) \<le> 19"
proof -
  show "key AND 7 = 1 \<Longrightarrow> length (field_bytes key (VaU64 x)) \<le> 10"
    "key AND 7 = 5 \<Longrightarrow> length (field_bytes key (VaU32 w)) \<le> 6"
    using assms length_key_2 [OF assms(1)]
    by (subst field_bytes_parts; auto simp: field_ok_def prefix_bytes_def raw_bytes_def)+
  have "varint_bytes 16 = [16]" by code_simp
  then show "key AND 7 = 2 \<Longrightarrow> length bs = 16 \<Longrightarrow> length (field_bytes key (VaBytes 16 bs)) \<le> 19"
    using assms length_key_2 [OF assms(1)]
    by (subst field_bytes_parts) (auto simp: field_ok_def prefix_bytes_def raw_bytes_def)
qed

lemmas length_casts_field = length_varint_field [OF _ _ _ length_varint_casts(1)]
  length_varint_field [OF _ _ _ length_varint_casts(2)] length_varint_field [OF _ _ _ length_varint_casts(3)]
  length_varint_field [OF _ _ _ length_varint_casts(4)] length_varint_field [OF _ _ _ length_varint_bytes(2)]

lemma length_fields_bytes: "length (fields_bytes fs) = (\<Sum>(key, ap) \<leftarrow> fs. length (field_bytes key ap))"
  by (simp add: fields_bytes_def length_concat comp_def split_def)

lemma sum_list_bound:
  "list_all2 (\<lambda>(key, ap) n. length (field_bytes key ap) \<le> n) fs ns \<Longrightarrow> length (fields_bytes fs) \<le> sum_list ns"
  by (induction fs ns rule: list_all2_induct) (auto simp: length_fields_bytes)

lemma length_small_field:
  "key < 2 ^ 14 \<Longrightarrow> key AND 7 = 0 \<Longrightarrow> drop_bit 3 key \<noteq> 0 \<Longrightarrow> unat x < 2 ^ 14 \<Longrightarrow>
   length (field_bytes key (VaU64 x)) \<le> 4"
  using length_varint_field [of key x 2] length_varint_below [of x 2] by simp

section \<open>Properties\<close>

text \<open>\<open>PBEncodeMsg_DeviceConfiguration\<close> writes the discriminator 0 and the
  encodings of its fields, clipped to the buffer, and returns the size of the whole message, which
  does not depend on the buffer; so a caller can size the buffer with a first call.\<close>

theorem DeviceConfiguration_message:
  assumes "configuration_fields fam pw_valid c m = Some fs" "mac_wf m" "fam = STX \<longrightarrow> \<not> humidity_mode c"
    and "len \<le> length msg"
  shows "PBEncodeMsg_DeviceConfiguration fam c m pw_valid msg len =
    Some (clip_write len 0 (0 # fields_bytes fs) msg, 1 + length (fields_bytes fs))"
  using message_clip [OF fields_ok_configuration [OF assms(1,2)] assms(4)] assms(1,3)
  by (simp add: PBEncodeMsg_DeviceConfiguration_def PBMSGID_DEVICE_CONFIGURATION_def)

theorem DeviceConfiguration_message_witness:
  "PBEncodeMsg_DeviceConfiguration STE DevCfg_default mac_example False (replicate 6 9) 4 =
    Some ([0, 8, 3, 16, 9, 9], 5)"
proof -
  have fs: "configuration_fields STE False DevCfg_default mac_example = Some (info_fields STE)"
    by (simp add: configuration_fields_def)
  have b: "fields_bytes (info_fields STE) = [8, 3, 16, 11]" by code_simp
  have "PBEncodeMsg_DeviceConfiguration STE DevCfg_default mac_example False (replicate 6 9) 4 =
    Some (clip_write 4 0 (0 # fields_bytes (info_fields STE)) (replicate 6 9), 1 + length (fields_bytes (info_fields STE)))"
    by (rule DeviceConfiguration_message [OF fs]) (simp_all add: mac_wf_def mac_example_def)
  moreover have "clip_write 4 0 (0 # fields_bytes (info_fields STE)) (replicate 6 9) = [0, 8, 3, 16, 9, 9]"
    unfolding b by code_simp
  ultimately show ?thesis by (simp add: b)
qed

text \<open>Without a valid password the message tells only the kind of device and the firmware version: it is the same for any two
  configurations and any two states of the stack. (The tables of permissions in \<^verbatim>\<open>MESSAGE_FORMAT_NFC.md\<close> and \<^verbatim>\<open>eeprom.h\<close> say that
  most settings of LoRaWAN may be read without a password.)\<close>

theorem unauthorised_read_reveals_nothing:
  "PBEncodeMsg_DeviceConfiguration fam c m False msg len = PBEncodeMsg_DeviceConfiguration fam c' m' False msg len"
  by (simp add: PBEncodeMsg_DeviceConfiguration_def configuration_fields_def)

text \<open>When the humidity threshold of an STX device is in use, an authorised
  read of the configuration is undefined behaviour: the 32-bit threshold is passed for a varint,
  which \<open>PBEncodeField\<close> fetches as a 64-bit argument.\<close>

theorem humidity_threshold_read_is_undefined:
  assumes "humidity_mode c"
  shows "PBEncodeMsg_DeviceConfiguration STX c m True msg len = None"
proof -
  have bad: "PBEncodeMsgField len' (key, VaU32 x) st = None"
    if "key AND 7 = 0" for len' key x st
    using that by (cases st) (auto simp: PBEncodeMsgField_def PBEncodeField_def Let_def)
  have stx: "encode_fields len (stx_fields c) st = None" for st
    using assms by (auto simp: humidity_mode_def stx_fields_def bad config_key_values hdc2080_modes)
  show ?thesis
    by (auto simp: PBEncodeMsg_DeviceConfiguration_def configuration_fields_def encode_fields_append stx
      split: Option.bind_split)
qed

theorem humidity_threshold_read_is_undefined_witness:
  "PBEncodeMsg_DeviceConfiguration STX (DevCfg_default\<lparr>hdc2080_mode := HDC2080_HUMIDITY_HIGH,
     useSensor := \<lparr>use_bma400 = False, use_sfh7776 = False, use_hdc2080 = True\<rparr>\<rparr>) mac_example True
     (replicate 256 0) 256 = None"
  by (rule humidity_threshold_read_is_undefined) (simp add: humidity_mode_def)

text \<open>\<open>PBEncodeMsg_DeviceSensors\<close> writes the discriminator 1 and the encodings
  of the readings of the family, clipped to the buffer, and returns the size of the whole message.\<close>

theorem DeviceSensors_message:
  assumes "len \<le> length msg" "\<not> (fam = STE \<and> bsec_build r)"
  shows "PBEncodeMsg_DeviceSensors fam c r msg len =
    Some (clip_write len 0 (1 # fields_bytes (sensor_fields fam c r)) msg,
      1 + length (fields_bytes (sensor_fields fam c r)))"
  using message_clip [OF fields_ok_sensors assms(1)] assms(2) by (simp add: PBEncodeMsg_DeviceSensors_def PBMSGID_DEVICE_SENSORS_def)

definition readings_example :: readings where
  "readings_example = \<lparr>voltage_100 = 330, temperature_100 = 2150, bme_temperature = 0, bme_humidity = 0,
     bme_pressure = 0, hdc_fix_temp = 0, hdc_raw_humid = 0, sfh_lux = 0, bma_fix_x = 0, bma_fix_y = 0, bma_fix_z = 0, bsec_build = False\<rparr>"

theorem DeviceSensors_message_witness:
  "PBEncodeMsg_DeviceSensors STA DevCfg_default readings_example [7, 7, 7] 3 = Some ([1, 8, 1], 15)"
proof -
  have b: "fields_bytes (sensor_fields STA DevCfg_default readings_example) =
      [8, 1, 16, 0xCA, 2, 24, 0xCC, 33, 88, 0, 96, 0, 104, 0]" by code_simp
  have "PBEncodeMsg_DeviceSensors STA DevCfg_default readings_example [7, 7, 7] 3 =
    Some (clip_write 3 0 (1 # fields_bytes (sensor_fields STA DevCfg_default readings_example)) [7, 7, 7],
      1 + length (fields_bytes (sensor_fields STA DevCfg_default readings_example)))"
    by (rule DeviceSensors_message) simp_all
  then show ?thesis by (simp add: b clip_write_def)
qed

lemma sensor_message_undefined_with_bsec:
  "bsec_build r \<Longrightarrow> PBEncodeMsg_DeviceSensors STE c r msg len = None"
  by (simp add: PBEncodeMsg_DeviceSensors_def)

end
