(* ===== verification/Eeprom_Memory.thy ===== *)
theory Eeprom_Memory
  imports Wire_Format
begin

unbundle bit_operations_syntax

text \<open>
  The data EEPROM and its access functions in \<^verbatim>\<open>src/Src/hardware.c\<close>. Addresses are offsets from
  \<open>DATA_EEPROM_BASE\<close>; the memory is a function from offsets to bytes. The HAL programs or erases one
  aligned word; whether it succeeds at an address is the parameter \<open>ok\<close>. Unlocking and locking
  always succeed and are left out.
\<close>

section \<open>Words in memory\<close>

type_synonym memory = "nat \<Rightarrow> uint8"

definition le32 :: "uint32 \<Rightarrow> bytes" where "le32 w = take 4 (b64 (ucast w))"

definition of_le32 :: "bytes \<Rightarrow> uint32" where "of_le32 b = ucast (u64 (b @ [0, 0, 0, 0]))"

definition read_bytes :: "memory \<Rightarrow> nat \<Rightarrow> nat \<Rightarrow> bytes" where
  "read_bytes mem a n = map mem [a..<a + n]"

definition word_at :: "memory \<Rightarrow> nat \<Rightarrow> uint32" where
  "word_at mem a = of_le32 (read_bytes mem a 4)"

definition set_bytes :: "nat \<Rightarrow> bytes \<Rightarrow> memory \<Rightarrow> memory" where
  "set_bytes a bs mem = (\<lambda>x. if a \<le> x \<and> x < a + length bs then bs ! (x - a) else mem x)"

definition hal_program :: "(nat \<Rightarrow> bool) \<Rightarrow> nat \<Rightarrow> uint32 \<Rightarrow> memory \<Rightarrow> memory \<times> bool" where
  "hal_program ok a w mem = (if ok a then (set_bytes a (le32 w) mem, True) else (mem, False))"

definition hal_erase :: "(nat \<Rightarrow> bool) \<Rightarrow> nat \<Rightarrow> memory \<Rightarrow> memory" where
  "hal_erase ok a mem = (if ok a then set_bytes a (le32 0) mem else mem)"

section \<open>Operations\<close>

definition HW_EraseEEPROM :: "(nat \<Rightarrow> bool) \<Rightarrow> nat \<Rightarrow> memory \<Rightarrow> memory" where
  "HW_EraseEEPROM ok a mem = hal_erase ok a mem"

definition HW_ProgramEEPROM :: "(nat \<Rightarrow> bool) \<Rightarrow> nat \<Rightarrow> uint32 \<Rightarrow> memory \<Rightarrow> memory" where
  "HW_ProgramEEPROM ok a w mem = fst (hal_program ok a w mem)"

fun erase_words :: "(nat \<Rightarrow> bool) \<Rightarrow> nat \<Rightarrow> nat \<Rightarrow> memory \<Rightarrow> memory" where
  "erase_words ok a 0 mem = mem"
| "erase_words ok a (Suc n) mem = erase_words ok (a + 4) n (hal_erase ok a mem)"

definition HW_ResetEEPROM :: "(nat \<Rightarrow> bool) \<Rightarrow> nat \<Rightarrow> nat \<Rightarrow> memory \<Rightarrow> memory" where
  "HW_ResetEEPROM ok a n mem = erase_words ok a ((n + 3) div 4) mem"

function write_words :: "(nat \<Rightarrow> bool) \<Rightarrow> nat \<Rightarrow> bytes \<Rightarrow> nat \<Rightarrow> nat \<Rightarrow> memory \<Rightarrow> memory \<times> bool" where
  \<comment> \<open>the loop over the aligned words; the last one keeps the bytes after the data\<close>
  "write_words ok a buf n i mem =
    (if i * 4 < n then
       let word = of_le32 (if i * 4 + 4 > n
                    then take (n mod 4) (drop (i * 4) buf) @ drop (n mod 4) (read_bytes mem (a + i * 4) 4)
                    else take 4 (drop (i * 4) buf));
           (mem', done_ok) = hal_program ok (a + i * 4) word mem
       in if done_ok then write_words ok a buf n (i + 1) mem' else (mem', False)
     else (mem, True))"
  by auto
termination by (relation "measure (\<lambda>(ok, a, buf, n, i, mem). n - i * 4)") auto
declare write_words.simps [simp del]

definition HW_WriteEEPROM :: "(nat \<Rightarrow> bool) \<Rightarrow> nat \<Rightarrow> bytes \<Rightarrow> nat \<Rightarrow> memory \<Rightarrow> memory \<times> bool" where
  \<comment> \<open>the flag is false on the path \<open>err\<close>\<close>
  "HW_WriteEEPROM ok addr buf n mem =
    (if addr mod 4 \<noteq> 0 then
       let off = addr mod 4;
           len = (if 4 - off > n then n else 4 - off);
           prev = addr div 4 * 4;
           old = read_bytes mem prev 4;
           word = of_le32 (take off old @ take len buf @ drop (off + len) old);
           (mem', done_ok) = hal_program ok prev word mem
       in if done_ok then write_words ok (prev + 4) (drop len buf) (n - len) 0 mem' else (mem', False)
     else write_words ok addr buf n 0 mem)"

definition HW_ReadEEPROM :: "nat \<Rightarrow> nat \<Rightarrow> memory \<Rightarrow> bytes" where
  "HW_ReadEEPROM a n mem = read_bytes mem a n"

definition EEPROM_BOOTMODE :: nat where "EEPROM_BOOTMODE = 0"
definition EEPROM_PW :: nat where "EEPROM_PW = 0x8"
definition EEPROM_PW_COMPLEMENT :: nat where "EEPROM_PW_COMPLEMENT = 0xC"
definition EEPROM_APP :: nat where "EEPROM_APP = 0x1000"
definition EEPROM_APP_END :: nat where "EEPROM_APP_END = 0x1400"
definition EEPROM_LOG_END :: nat where "EEPROM_LOG_END = 0x1800"

definition HW_ChangePW :: "(nat \<Rightarrow> bool) \<Rightarrow> uint32 \<Rightarrow> memory \<Rightarrow> memory" where
  "HW_ChangePW ok password mem =
    HW_ProgramEEPROM ok EEPROM_PW_COMPLEMENT (NOT password)
      (HW_ProgramEEPROM ok EEPROM_PW password
        (HW_EraseEEPROM ok EEPROM_PW_COMPLEMENT (HW_EraseEEPROM ok EEPROM_PW mem)))"

section \<open>Lemmas\<close>

lemma length_le32 [simp]: "length (le32 w) = 4"
  by (simp add: le32_def)

lemma length_read_bytes [simp]: "length (read_bytes mem a n) = n"
  by (simp add: read_bytes_def)

lemma nth_read_bytes [simp]: "i < n \<Longrightarrow> read_bytes mem a n ! i = mem (a + i)"
  by (simp add: read_bytes_def)

lemma of_le32_le32 [simp]: "of_le32 (le32 w) = w"
proof -
  have "le32 w @ [0, 0, 0, 0] = b64 (ucast w)"
  proof (rule nth_equalityI)
    fix i assume "i < length (le32 w @ [0, 0, 0, 0 :: uint8])"
    then have i: "i < 8" by simp
    have "b64 (ucast w) ! i = 0" if "4 \<le> i"
      using i that by (intro bit_word_eqI) (auto simp: nth_b64 bit_simps)
    with i show "(le32 w @ [0, 0, 0, 0]) ! i = b64 (ucast w) ! i"
      by (auto simp: le32_def nth_append nth_Cons' not_less)
  qed simp
  then have "of_le32 (le32 w) = ucast (ucast w :: uint64)"
    by (simp add: of_le32_def u64_b64)
  also have "\<dots> = w" by (rule bit_word_eqI) (auto simp: bit_simps)
  finally show ?thesis .
qed

lemma le32_of_le32:
  assumes "length b = 4"
  shows "le32 (of_le32 b) = b"
proof (rule nth_equalityI)
  fix i assume "i < length (le32 (of_le32 b))"
  then have i: "i < 4" by simp
  show "le32 (of_le32 b) ! i = b ! i"
  proof (rule bit_word_eqI)
    fix j assume "j < LENGTH(8)"
    then have "j < 8" by simp
    then have "8 * i + j < 32" "(8 * i + j) div 8 = i" "(8 * i + j) mod 8 = j" using i by simp_all
    with i \<open>j < 8\<close> assms show "bit (le32 (of_le32 b) ! i) j = bit (b ! i) j"
      by (simp add: le32_def of_le32_def nth_b64 bit_simps bit_u64 nth_append)
  qed
qed (use assms in simp)

lemma word_at_set_bytes: "word_at (set_bytes a (le32 w) mem) a = w"
proof -
  have "read_bytes (set_bytes a (le32 w) mem) a 4 = le32 w"
    by (rule nth_equalityI) (simp_all add: set_bytes_def)
  then show ?thesis by (simp add: word_at_def)
qed

lemma word_at_other:
  "a + 4 \<le> b \<or> b + length bs \<le> a \<Longrightarrow> word_at (set_bytes b bs mem) a = word_at mem a"
proof -
  assume "a + 4 \<le> b \<or> b + length bs \<le> a"
  then have "read_bytes (set_bytes b bs mem) a 4 = read_bytes mem a 4"
    by (intro nth_equalityI) (auto simp: set_bytes_def)
  then show ?thesis by (simp add: word_at_def)
qed

abbreviation sound :: "nat \<Rightarrow> bool" where "sound \<equiv> \<lambda>_. True"

lemma write_words_sound:
  assumes "n \<le> length buf"
  shows "write_words sound a buf n i mem =
    (set_bytes (a + 4 * i) (drop (4 * i) (take n buf)) mem, True)"
  using assms
proof (induction "n - i * 4" arbitrary: i mem rule: less_induct)
  case less
  show ?case
  proof (cases "i * 4 < n")
    case False
    then show ?thesis by (subst write_words.simps) (auto simp: set_bytes_def fun_eq_iff)
  next
    case True
    define w where "w = (if i * 4 + 4 > n
        then take (n mod 4) (drop (i * 4) buf) @ drop (n mod 4) (read_bytes mem (a + i * 4) 4)
        else take 4 (drop (i * 4) buf))"
    have r: "n mod 4 = n - i * 4" if "i * 4 + 4 > n" using that True by presburger
    have len: "length w = 4"
      using True less.prems r by (auto simp: w_def min_def)
    have eq: "write_words sound a buf n i mem =
        write_words sound a buf n (i + 1) (set_bytes (a + i * 4) w mem)"
      using True le32_of_le32 [OF len] by (subst write_words.simps) (simp add: hal_program_def Let_def flip: w_def)
    have "write_words sound a buf n (i + 1) (set_bytes (a + i * 4) w mem) =
        (set_bytes (a + 4 * (i + 1)) (drop (4 * (i + 1)) (take n buf)) (set_bytes (a + i * 4) w mem), True)"
      using less.hyps [of "i + 1" "set_bytes (a + i * 4) w mem"] True less.prems by simp
    moreover have "set_bytes (a + 4 * (i + 1)) (drop (4 * (i + 1)) (take n buf)) (set_bytes (a + i * 4) w mem) =
        set_bytes (a + 4 * i) (drop (4 * i) (take n buf)) mem"
    proof
      fix x
      consider "x < a + 4 * i \<or> a + n \<le> x \<and> \<not> (a + i * 4 \<le> x \<and> x < a + i * 4 + 4)"
        | "a + i * 4 \<le> x" "x < a + i * 4 + 4" | "a + 4 * (i + 1) \<le> x" "x < a + n"
        by fastforce
      then show "set_bytes (a + 4 * (i + 1)) (drop (4 * (i + 1)) (take n buf)) (set_bytes (a + i * 4) w mem) x =
          set_bytes (a + 4 * i) (drop (4 * i) (take n buf)) mem x"
      proof cases
        case 1
        then show ?thesis using less.prems len by (auto simp: set_bytes_def)
      next
        case 2
        then have "w ! (x - (a + i * 4)) = (if x < a + n then buf ! (x - a) else mem x)"
          using r less.prems True by (auto simp: w_def nth_append)
        then show ?thesis using 2 less.prems len by (auto simp: set_bytes_def)
      next
        case 3
        then show ?thesis using less.prems len by (auto simp: set_bytes_def)
      qed
    qed
    ultimately show ?thesis by (simp add: eq)
  qed
qed

lemma set_bytes_set_bytes:
  "b = a + length xs \<Longrightarrow> set_bytes b ys (set_bytes a xs mem) = set_bytes a (xs @ ys) mem"
  by (auto simp: set_bytes_def fun_eq_iff nth_append)

lemma set_bytes_padding:
  "set_bytes a (read_bytes mem a n @ bs) mem = set_bytes (a + n) bs mem"
  by (auto simp: set_bytes_def fun_eq_iff nth_append)

lemma read_set_bytes [simp]: "n = length bs \<Longrightarrow> read_bytes (set_bytes a bs mem) a n = bs"
  by (rule nth_equalityI) (simp_all add: set_bytes_def)

lemma read_bytes_split: "read_bytes mem a (m + n) = read_bytes mem a m @ read_bytes mem (a + m) n"
  by (rule nth_equalityI) (auto simp: nth_append)

lemma drop_read_bytes: "drop k (read_bytes mem a n) = read_bytes mem (a + k) (n - k)"
  by (rule nth_equalityI) (auto simp: add.assoc)

lemma take_read_bytes: "k \<le> n \<Longrightarrow> take k (read_bytes mem a n) = read_bytes mem a k"
  by (rule nth_equalityI) auto

lemma write_eeprom_sound:
  assumes "n \<le> length buf"
  shows "HW_WriteEEPROM sound addr buf n mem = (set_bytes addr (take n buf) mem, True)"
proof (cases "addr mod 4 = 0")
  case True
  then show ?thesis by (simp add: HW_WriteEEPROM_def write_words_sound [OF assms])
next
  case False
  define off where "off = addr mod 4"
  define len where "len = (if 4 - off > n then n else 4 - off)"
  define prev where "prev = addr div 4 * 4"
  define w where "w = take off (read_bytes mem prev 4) @ take len buf @ drop (off + len) (read_bytes mem prev 4)"
  have off: "0 < off" "off < 4" using False by (auto simp: off_def)
  have len: "len \<le> n" "off + len \<le> 4" using off by (auto simp: len_def)
  have addr: "addr = prev + off" by (simp add: prev_def off_def)
  have lw: "length w = 4" using off len assms by (simp add: w_def)
  have "set_bytes prev w mem = set_bytes addr (take len buf) mem"
    using off len assms lw
    by (auto simp: set_bytes_def fun_eq_iff w_def nth_append addr)
  then have "HW_WriteEEPROM sound addr buf n mem =
      (set_bytes (prev + 4) (drop 0 (take (n - len) (drop len buf))) (set_bytes addr (take len buf) mem), True)"
    using False le32_of_le32 [OF lw] assms len
    by (simp add: HW_WriteEEPROM_def Let_def hal_program_def write_words_sound flip: off_def prev_def len_def w_def)
  also have "set_bytes (prev + 4) (drop 0 (take (n - len) (drop len buf))) (set_bytes addr (take len buf) mem) =
      set_bytes addr (take n buf) mem"
  proof (cases "len = n")
    case True
    then show ?thesis by (auto simp: set_bytes_def fun_eq_iff)
  next
    case False
    then have l: "len = 4 - off" by (auto simp: len_def split: if_splits)
    then have "prev + 4 = addr + length (take len buf)" using off len assms addr by simp
    then show ?thesis using len assms
      by (simp add: set_bytes_set_bytes flip: take_add)
  qed
  finally show ?thesis .
qed

lemma write_words_frame:
  \<comment> \<open>a failing write leaves the bytes outside the aligned hull of the range alone\<close>
  assumes "x < a + 4 * i \<or> a + 4 * ((n + 3) div 4) \<le> x"
  shows "fst (write_words ok a buf n i mem) x = mem x"
  using assms
proof (induction "n - i * 4" arbitrary: i mem rule: less_induct)
  case less
  show ?case
  proof (cases "i * 4 < n \<and> ok (a + i * 4)")
    case True
    define w where "w = of_le32 (if i * 4 + 4 > n
        then take (n mod 4) (drop (i * 4) buf) @ drop (n mod 4) (read_bytes mem (a + i * 4) 4)
        else take 4 (drop (i * 4) buf))"
    have "write_words ok a buf n i mem = write_words ok a buf n (i + 1) (set_bytes (a + i * 4) (le32 w) mem)"
      using True by (subst write_words.simps) (simp add: hal_program_def Let_def flip: w_def)
    moreover have "i < (n + 3) div 4" using True by linarith
    then have "\<not> (a + i * 4 \<le> x \<and> x < a + i * 4 + 4)" using less.prems by linarith
    ultimately show ?thesis using True less.prems less.hyps [of "i + 1"]
      by (auto simp: set_bytes_def)
  next
    case False
    then show ?thesis by (subst write_words.simps) (auto simp: hal_program_def Let_def)
  qed
qed

lemma erase_words_sound: "erase_words sound a k mem = set_bytes a (replicate (4 * k) 0) mem"
proof (induction k arbitrary: a mem)
  case 0
  show ?case by (auto simp: set_bytes_def fun_eq_iff)
next
  case (Suc k)
  have "le32 0 = replicate 4 0" by code_simp
  then show ?case
    by (simp add: Suc hal_erase_def set_bytes_set_bytes flip: replicate_add del: replicate.simps)
qed

section \<open>Properties\<close>

text \<open>When the flash accepts every word, \<open>HW_WriteEEPROM\<close> stores the first \<open>n\<close> bytes of the buffer at
  \<open>addr\<close>, aligned or not, and changes no other byte of the memory, although it programs whole words.\<close>

theorem HW_WriteEEPROM_exact:
  assumes "n \<le> length buf"
  shows "HW_WriteEEPROM sound addr buf n mem =
    ((\<lambda>x. if addr \<le> x \<and> x < addr + n then buf ! (x - addr) else mem x), True)"
  using assms by (auto simp: write_eeprom_sound set_bytes_def fun_eq_iff)

theorem HW_WriteEEPROM_exact_witness:
  "map (fst (HW_WriteEEPROM sound 3 [1, 2, 3, 4, 5, 6] 6 (\<lambda>_. 9))) [0..<12] =
    [9, 9, 9, 1, 2, 3, 4, 5, 6, 9, 9, 9]"
  using HW_WriteEEPROM_exact [of 6 "[1, 2, 3, 4, 5, 6]" 3 "\<lambda>_. 9"] by (simp add: upt_rec)

text \<open>\<open>HW_ResetEEPROM\<close> zeroes the range rounded up to whole words and nothing else.\<close>

theorem HW_ResetEEPROM_exact:
  "HW_ResetEEPROM sound a n mem =
    (\<lambda>x. if a \<le> x \<and> x < a + 4 * ((n + 3) div 4) then 0 else mem x)"
  by (auto simp: HW_ResetEEPROM_def erase_words_sound set_bytes_def fun_eq_iff)

text \<open>After \<open>HW_ChangePW\<close> the password word and its complement are both in place, and every byte outside the
  two words is unchanged.\<close>

theorem HW_ChangePW_stores_pair:
  "word_at (HW_ChangePW sound password mem) EEPROM_PW = password \<and>
   word_at (HW_ChangePW sound password mem) EEPROM_PW_COMPLEMENT = NOT password \<and>
   (\<forall>x. x < EEPROM_PW \<or> EEPROM_PW + 8 \<le> x \<longrightarrow> HW_ChangePW sound password mem x = mem x)"
  by (auto simp: HW_ChangePW_def HW_ProgramEEPROM_def HW_EraseEEPROM_def hal_program_def hal_erase_def
      word_at_set_bytes word_at_other EEPROM_PW_def EEPROM_PW_COMPLEMENT_def)
    (auto simp: set_bytes_def)

theorem HW_ChangePW_stores_pair_witness:
  "word_at (HW_ChangePW sound 0x12345678 (\<lambda>_. 7)) EEPROM_PW = 0x12345678 \<and>
   HW_ChangePW sound 0x12345678 (\<lambda>_. 7) 0x1000 = 7"
  using HW_ChangePW_stores_pair [where password = "0x12345678" and mem = "\<lambda>_. 7"] by (simp add: EEPROM_PW_def)

end
