(* ===== verification/Board_Utilities.thy ===== *)
theory Board_Utilities
  imports Firmware_Prelude
begin

unbundle bit_operations_syntax

text \<open>
  The two board services the configuration store relies on: the CRC-32 of
  \<^verbatim>\<open>src/Drivers/LoRaMac-node/boards/utilities.c\<close> and \<open>BoardGetUniqueId\<close> of
  \<^verbatim>\<open>src/Drivers/LoRaMac-node/boards/board.c\<close>, which packs the 96-bit identifier of the chip
  into a device EUI. The firmware is built with its assertions on, so a failed assertion is \<open>None\<close>.
\<close>

section \<open>CRC-32\<close>

definition crc_bit :: "uint32 \<Rightarrow> uint32" where
  "crc_bit crc = drop_bit 1 crc XOR (0xEDB88320 AND NOT ((crc AND 0x01) - 1))"

primrec crc_bits :: "nat \<Rightarrow> uint32 \<Rightarrow> uint32" where
  "crc_bits 0 crc = crc"
| "crc_bits (Suc n) crc = crc_bits n (crc_bit crc)"

primrec crc_bytes :: "bytes \<Rightarrow> uint32 \<Rightarrow> uint32" where
  "crc_bytes [] crc = crc"
| "crc_bytes (b # bs) crc = crc_bytes bs (crc_bits 8 (crc XOR ucast b))"

definition Crc32 :: "bytes option \<Rightarrow> uint16 \<Rightarrow> uint32" where
  \<comment> \<open>\<open>None\<close> is the null pointer\<close>
  "Crc32 buffer n = (case buffer of None \<Rightarrow> 0
     | Some buf \<Rightarrow> NOT (crc_bytes (take (unat n) buf) 0xFFFFFFFF))"

definition Crc32Init :: uint32 where "Crc32Init = 0xFFFFFFFF"

definition Crc32Update :: "uint32 \<Rightarrow> bytes option \<Rightarrow> uint16 \<Rightarrow> uint32" where
  "Crc32Update crcInit buffer n = (case buffer of None \<Rightarrow> 0
     | Some buf \<Rightarrow> crc_bytes (take (unat n) buf) crcInit)"

definition Crc32Finalize :: "uint32 \<Rightarrow> uint32" where "Crc32Finalize crc = NOT crc"

subsection \<open>The shift register is linear and injective\<close>

lemma poly_mask: "0xEDB88320 AND NOT ((crc AND 1) - 1) = (if bit crc 0 then 0xEDB88320 else 0 :: uint32)"
proof (cases "bit crc 0")
  case True
  then have "crc AND 1 = 1" by (simp add: and_one_eq bit_0 odd_iff_mod_2_eq_one)
  with True show ?thesis by simp
next
  case False
  then have "crc AND 1 = 0" by (simp add: and_one_eq bit_0 even_iff_mod_2_eq_zero)
  with False show ?thesis by simp
qed

lemma crc_bit_if: "crc_bit crc = (if bit crc 0 then drop_bit 1 crc XOR 0xEDB88320 else drop_bit 1 crc)"
  unfolding crc_bit_def poly_mask by simp

lemma crc_bit_xor: "crc_bit (x XOR y) = crc_bit x XOR crc_bit y"
  by (rule bit_word_eqI) (auto simp: crc_bit_if bit_simps)

lemma crc_bits_xor: "crc_bits n (x XOR y) = crc_bits n x XOR crc_bits n y"
  by (induction n arbitrary: x y) (simp_all add: crc_bit_xor)

lemma crc_bits_add: "crc_bits (m + n) x = crc_bits n (crc_bits m x)"
  by (induction m arbitrary: x) simp_all

lemma crc_bits_low_zero: "(\<And>i. i < n \<Longrightarrow> \<not> bit x i) \<Longrightarrow> crc_bits n x = drop_bit n x"
proof (induction n arbitrary: x)
  case (Suc n)
  have "\<not> bit x 0" using Suc.prems [of 0] by simp
  then have "crc_bit x = drop_bit 1 x" by (simp add: crc_bit_if)
  then show ?case using Suc.IH [of "drop_bit 1 x"] Suc.prems by (simp add: bit_drop_bit_eq)
qed simp

lemma crc_bit_zero: "crc_bit x = 0 \<Longrightarrow> x = 0"
proof -
  assume z: "crc_bit x = 0"
  have "bit (crc_bit x) 31 = bit x 0" by (simp add: crc_bit_if bit_simps)
  with z have b: "\<not> bit x 0" by simp
  with z have d: "drop_bit 1 x = 0" by (simp add: crc_bit_if)
  show "x = 0"
  proof (rule bit_word_eqI)
    fix n assume "n < LENGTH(32)"
    have "bit (drop_bit 1 x) (n - 1) = bit x n" if "0 < n" using that by (simp add: bit_drop_bit_eq)
    with b d show "bit x n = bit 0 n" by (cases n) auto
  qed
qed

lemma crc_bits_zero: "crc_bits n x = 0 \<Longrightarrow> x = 0"
  by (induction n arbitrary: x) (auto dest: crc_bit_zero)

lemma xor_eq_0: "(x XOR y = 0) = (x = (y :: 'a::len word))"
  by (metis bit.xor_self xor.assoc xor.right_neutral xor.left_neutral)

lemma xor_cancel: "(x XOR z = y XOR z) = (x = (y :: 'a::len word))"
  "(z XOR x = z XOR y) = (x = y)"
  by (metis xor_eq_0 xor.assoc xor.commute xor.left_neutral)+

lemma crc_bits_inj: "crc_bits n x = crc_bits n y \<longleftrightarrow> x = y"
  using crc_bits_zero [of n "x XOR y"] by (auto simp: crc_bits_xor xor_eq_0)

fun word_of_bytes :: "bytes \<Rightarrow> uint32" where
  "word_of_bytes [] = 0"
| "word_of_bytes (b # bs) = ucast b XOR push_bit 8 (word_of_bytes bs)"

lemma word_of_bytes_high: "8 * length bs \<le> n \<Longrightarrow> \<not> bit (word_of_bytes bs) n"
proof (induction bs arbitrary: n)
  case (Cons b bs)
  then show ?case using Cons.IH [of "n - 8"] by (auto simp: bit_simps)
qed simp

lemma crc_bytes_word:
  "length bs \<le> 4 \<Longrightarrow> crc_bytes bs s = crc_bits (8 * length bs) (s XOR word_of_bytes bs)"
proof (induction bs arbitrary: s)
  case (Cons b bs)
  let ?w = "word_of_bytes bs"
  have "crc_bits 8 (push_bit 8 ?w) = drop_bit 8 (push_bit 8 ?w)"
    by (rule crc_bits_low_zero) (simp add: bit_simps)
  also have "\<dots> = ?w"
  proof (rule bit_word_eqI)
    fix n assume "n < LENGTH(32)"
    then show "bit (drop_bit 8 (push_bit 8 ?w)) n = bit ?w n"
      using word_of_bytes_high [of bs n] Cons.prems by (cases "n < 24") (auto simp: bit_simps)
  qed
  finally have shift: "crc_bits 8 (push_bit 8 ?w) = ?w" .
  have "crc_bits (8 * length (b # bs)) (s XOR word_of_bytes (b # bs)) =
      crc_bits (8 * length bs) (crc_bits 8 ((s XOR ucast b) XOR push_bit 8 ?w))"
    using crc_bits_add [of 8 "8 * length bs"] by (simp add: xor.assoc)
  also have "\<dots> = crc_bytes (b # bs) s" using Cons by (simp add: crc_bits_xor shift del: crc_bits.simps)
  finally show ?case by simp
qed simp

lemma word_of_bytes_inj:
  "length as = length bs \<Longrightarrow> length as \<le> 4 \<Longrightarrow> word_of_bytes as = word_of_bytes bs \<Longrightarrow> as = bs"
proof (induction as bs rule: list_induct2)
  case (Cons a as b bs)
  from Cons.prems have e: "bit (word_of_bytes (a # as)) n = bit (word_of_bytes (b # bs)) n" for n by simp
  have "a = b"
  proof (rule bit_word_eqI)
    fix n assume "n < LENGTH(8)"
    then show "bit a n = bit b n" using e [of n] by (simp add: bit_simps)
  qed
  moreover have "word_of_bytes as = word_of_bytes bs"
  proof (rule bit_word_eqI)
    fix n assume "n < LENGTH(32)"
    then show "bit (word_of_bytes as) n = bit (word_of_bytes bs) n"
      using e [of "n + 8"] word_of_bytes_high [of as n] word_of_bytes_high [of bs n] Cons.prems Cons.hyps
      by (cases "n < 24") (auto simp: bit_simps)
  qed
  ultimately show ?case using Cons by simp
qed simp

lemma crc_bytes_append: "crc_bytes (as @ bs) s = crc_bytes bs (crc_bytes as s)"
  by (induction as arbitrary: s) simp_all

lemma crc_bytes_state_inj: "crc_bytes bs s = crc_bytes bs t \<longleftrightarrow> s = t"
  by (induction bs arbitrary: s t) (auto simp: crc_bits_inj xor_cancel)

lemma crc_bytes_burst:
  assumes "length as = length bs" "length as \<le> 4" "as \<noteq> bs"
  shows "crc_bytes (pre @ as @ post) s \<noteq> crc_bytes (pre @ bs @ post) s"
proof -
  have w: "word_of_bytes as \<noteq> word_of_bytes bs" using word_of_bytes_inj assms by blast
  have len: "length bs \<le> 4" using assms by simp
  have "crc_bytes as t \<noteq> crc_bytes bs t" for t
    unfolding crc_bytes_word [OF assms(2)] crc_bytes_word [OF len] assms(1) crc_bits_inj xor_cancel
    by (rule w)
  then show ?thesis unfolding crc_bytes_append crc_bytes_state_inj .
qed

section \<open>The device identifier\<close>

definition lot_number :: "uint32 \<Rightarrow> uint32 \<Rightarrow> uint32" where
  "lot_number w0 w1 =
    (w1 AND 0x0F) * 1 + (drop_bit 8 w1 AND 0x0F) * 10 + (drop_bit 16 w1 AND 0x0F) * 100 +
    (drop_bit 24 w1 AND 0x0F) * 1000 + (w0 AND 0x0F) * 10000 + (drop_bit 8 w0 AND 0x0F) * 100000"

definition unique_id_asserts :: "uint32 \<Rightarrow> uint32 \<Rightarrow> uint32 \<Rightarrow> bool" where
  "unique_id_asserts w0 w1 w2 \<longleftrightarrow> w0 AND 0x00FF0000 = 0x00470000 \<and> w0 AND 0x0000F0F0 = 0x00003030 \<and>
    w1 AND 0xF0F0F0F0 = 0x30303030 \<and>
    (w1 AND 0x0F) < 9 \<and> (drop_bit 8 w1 AND 0x0F) < 9 \<and> (drop_bit 16 w1 AND 0x0F) < 9 \<and>
    (drop_bit 24 w1 AND 0x0F) < 9 \<and> (w0 AND 0x0F) < 9 \<and> (drop_bit 8 w0 AND 0x0F) < 9 \<and>
    w2 AND 0xFF00FF00 = 0"

definition BoardGetUniqueId :: "uint32 \<Rightarrow> uint32 \<Rightarrow> uint32 \<Rightarrow> bytes option" where
  "BoardGetUniqueId w0 w1 w2 =
    (if \<not> unique_id_asserts w0 w1 w2 then None
     else let lotnr = lot_number w0 w1;
              wafnr = ucast (drop_bit 24 w0 AND 0xFF) :: uint8;
              uuid = ucast (((w2 AND 0x000000FF) AND 0x00FF) OR (drop_bit 8 (w2 AND 0x00FF0000) AND 0xFF00)) :: uint16;
              lotchar = ucast (drop_bit 16 (w0 AND 0x00FF0000)) :: uint8;
              uid0 = ucast (drop_bit 8 (w2 AND 0x0000FF00)) :: uint8;
              uid1 = ucast (drop_bit 24 (w2 AND 0xFF000000)) :: uint8;
              bitmask = (if 0x47 = lotchar then 0 else 0x01) OR (if 0 = uid0 then 0 else 0x02) OR
                (if 0 = uid1 then 0 else 0x04) :: uint8
          in Some [ucast (uuid AND 0x00FF), ucast (drop_bit 8 (uuid AND 0xFF00)),
               (if bitmask AND 0x6 = 0x06 then uid0 else lotchar),
               (if bitmask AND 0x4 = 0x04 then uid1 else uid0),
               wafnr, ucast (lotnr AND 0x0000FF), ucast (drop_bit 8 (lotnr AND 0x00FF00)),
               ucast (drop_bit 16 (lotnr AND 0x0F0000) OR push_bit 4 (ucast bitmask))])"

subsection \<open>The identifier keeps all the bits that vary\<close>

lemma upt_32: "[0..<32] = [0, 1, 2, 3, 4, 5, 6, 7, 8, 9, 10, 11, 12, 13, 14, 15,
    16, 17, 18, 19, 20, 21, 22, 23, 24, 25, 26, 27, 28, 29, 30, 31]"
  by code_simp

lemma same_bits: "x AND m = y AND m \<Longrightarrow> bit m n \<Longrightarrow> bit x n = bit (y :: 'a::len word) n"
  by (metis bit_and_iff)

lemma digit_split: "(a::nat) + 10 * b = c + 10 * d \<Longrightarrow> a < 10 \<Longrightarrow> c < 10 \<Longrightarrow> a = c \<and> b = d"
  by presburger

definition lot_digits :: "uint32 \<Rightarrow> uint32 \<Rightarrow> nat list" where
  "lot_digits w0 w1 = map (\<lambda>w. unat (w AND 0x0F))
    [w1, drop_bit 8 w1, drop_bit 16 w1, drop_bit 24 w1, w0, drop_bit 8 w0]"

lemma unat_mul_add: "unat x * k + m < 2 ^ 32 \<Longrightarrow> y = word_of_nat m \<Longrightarrow> x * word_of_nat k + y = (word_of_nat (unat x * k + m) :: uint32)"
  by simp

lemma lot_number_nat:
  "lot_number w0 w1 = word_of_nat (foldr (\<lambda>d n. d + 10 * n) (lot_digits w0 w1) 0)"
  by (simp add: lot_number_def lot_digits_def)

lemma unique_id_digits:
  assumes "unique_id_asserts w0 w1 w2" "d \<in> set (lot_digits w0 w1)"
  shows "d < 10"
  using assms by (auto simp: unique_id_asserts_def lot_digits_def word_less_nat_alt)

lemma digits_bound: "\<forall>d \<in> set ds. d < (10::nat) \<Longrightarrow> foldr (\<lambda>d n. d + 10 * n) ds 0 < 10 ^ length ds"
  by (induction ds) auto

lemma digits_inj:
  "length ds = length es \<Longrightarrow> \<forall>d \<in> set ds. d < (10::nat) \<Longrightarrow> \<forall>d \<in> set es. d < (10::nat) \<Longrightarrow>
   foldr (\<lambda>d n. d + 10 * n) ds 0 = foldr (\<lambda>d n. d + 10 * n) es 0 \<Longrightarrow> ds = es"
  by (induction ds es rule: list_induct2) (auto dest!: digit_split)

lemma lot_number_bound:
  assumes "unique_id_asserts w0 w1 w2"
  shows "unat (lot_number w0 w1) = foldr (\<lambda>d n. d + 10 * n) (lot_digits w0 w1) 0"
    "unat (lot_number w0 w1) < 1000000"
proof -
  have b: "foldr (\<lambda>d n. d + 10 * n) (lot_digits w0 w1) 0 < 1000000"
    using digits_bound [of "lot_digits w0 w1"] unique_id_digits [OF assms] by (simp add: lot_digits_def)
  then show "unat (lot_number w0 w1) = foldr (\<lambda>d n. d + 10 * n) (lot_digits w0 w1) 0"
    unfolding lot_number_nat by (simp add: unsigned_of_nat take_bit_nat_eq_self)
  with b show "unat (lot_number w0 w1) < 1000000" by simp
qed

lemma unique_id_bytes:
  assumes "unique_id_asserts w0 w1 w2"
  shows "BoardGetUniqueId w0 w1 w2 = Some [ucast w2, ucast (drop_bit 16 w2), 0x47, 0, ucast (drop_bit 24 w0),
    ucast (lot_number w0 w1), ucast (drop_bit 8 (lot_number w0 w1)), ucast (drop_bit 16 (lot_number w0 w1) AND 0xF)]"
proof -
  have m: "(0xFF :: 'a::len word) = mask 8" "(0xFF00 :: 'a word) = push_bit 8 (mask 8)"
    "(0xFF0000 :: 'a word) = push_bit 16 (mask 8)" "(0xFF000000 :: 'a word) = push_bit 24 (mask 8)"
    "(0xF0000 :: 'a word) = push_bit 16 (mask 4)" "(0xF :: 'a word) = mask 4"
    by (simp_all add: mask_eq_exp_minus_1)
  have w0: "w0 AND 0x00FF0000 = 0x00470000" and w2: "w2 AND 0xFF00FF00 = 0"
    using assms by (simp_all add: unique_id_asserts_def)
  have split: "w2 AND 0xFF00 = (w2 AND 0xFF00FF00) AND 0xFF00" "w2 AND 0xFF000000 = (w2 AND 0xFF00FF00) AND 0xFF000000"
    by (simp_all add: and.assoc)
  have z: "w2 AND 0xFF00 = 0" "w2 AND 0xFF000000 = 0" unfolding split w2 by simp_all
  have u: "ucast ((ucast ((w2 AND 0xFF) OR (drop_bit 8 w2 AND 0xFF00)) :: uint16) AND 0xFF) = (ucast w2 :: uint8)"
    "ucast (drop_bit 8 (ucast ((w2 AND 0xFF) OR (drop_bit 8 w2 AND 0xFF00)) :: uint16) AND 0xFF) =
      (ucast (drop_bit 16 w2) :: uint8)"
    by (rule bit_word_eqI; auto simp: m bit_simps)+
  have l: "ucast (x AND 0xFF) = (ucast x :: uint8)" "ucast (drop_bit 8 (x AND 0xFF00)) = (ucast (drop_bit 8 x) :: uint8)"
    "ucast (drop_bit 16 (x AND 0xF0000)) = (ucast (drop_bit 16 x AND 0xF) :: uint8)" for x :: uint32
    by (rule bit_word_eqI; auto simp: m bit_simps)+
  show ?thesis
    using assms by (simp add: BoardGetUniqueId_def Let_def w0 z l) (simp add: u)
qed

lemma unique_id_words:
  assumes "unique_id_asserts w0 w1 w2" "unique_id_asserts v0 v1 v2"
    and w0: "ucast (drop_bit 24 w0) = (ucast (drop_bit 24 v0) :: uint8)"
    and w2: "ucast w2 = (ucast v2 :: uint8)" "ucast (drop_bit 16 w2) = (ucast (drop_bit 16 v2) :: uint8)"
    and digits: "lot_digits w0 w1 = lot_digits v0 v1"
  shows "w0 = v0 \<and> w1 = v1 \<and> w2 = v2"
proof -
  have bits: "bit x k = bit y k \<and> bit x (k + 1) = bit y (k + 1) \<and> bit x (k + 2) = bit y (k + 2) \<and>
      bit x (k + 3) = bit y (k + 3) \<and> bit x (k + 4) = bit y (k + 4) \<and> bit x (k + 5) = bit y (k + 5) \<and>
      bit x (k + 6) = bit y (k + 6) \<and> bit x (k + 7) = bit y (k + 7)"
    if e: "ucast (drop_bit k x) = (ucast (drop_bit k y) :: uint8)" for k and x y :: uint32
  proof -
    have "bit x (k + n) = bit y (k + n)" if "n < 8" for n
      using arg_cong [OF e, of "\<lambda>b. bit b n"] that by (simp add: bit_simps)
    from this [of 0] this [of 1] this [of 2] this [of 3] this [of 4] this [of 5] this [of 6] this [of 7]
    show ?thesis by simp
  qed
  have digit: "bit x k = bit y k \<and> bit x (k + 1) = bit y (k + 1) \<and> bit x (k + 2) = bit y (k + 2) \<and>
      bit x (k + 3) = bit y (k + 3)"
    if e: "drop_bit k x AND 0xF = drop_bit k y AND 0xF" for k and x y :: uint32
  proof -
    have m: "(0xF :: uint32) = mask 4" by (simp add: mask_eq_exp_minus_1)
    have "bit x (k + n) = bit y (k + n)" if "n < 4" for n
      using arg_cong [OF e, of "\<lambda>b. bit b n"] that by (simp add: bit_simps m)
    from this [of 0] this [of 1] this [of 2] this [of 3] show ?thesis by simp
  qed
  have d: "drop_bit 0 w1 AND 0xF = drop_bit 0 v1 AND 0xF" "drop_bit 8 w1 AND 0xF = drop_bit 8 v1 AND 0xF"
    "drop_bit 16 w1 AND 0xF = drop_bit 16 v1 AND 0xF" "drop_bit 24 w1 AND 0xF = drop_bit 24 v1 AND 0xF"
    "drop_bit 0 w0 AND 0xF = drop_bit 0 v0 AND 0xF" "drop_bit 8 w0 AND 0xF = drop_bit 8 v0 AND 0xF"
    using digits by (simp_all add: lot_digits_def word_unat_eq_iff)
  have m: "w0 AND 0x00FF0000 = v0 AND 0x00FF0000" "w0 AND 0x0000F0F0 = v0 AND 0x0000F0F0"
    "w1 AND 0xF0F0F0F0 = v1 AND 0xF0F0F0F0" "w2 AND 0xFF00FF00 = v2 AND 0xFF00FF00"
    using assms(1,2) by (simp_all add: unique_id_asserts_def)
  have z: "ucast (drop_bit 0 w2) = (ucast (drop_bit 0 v2) :: uint8)" using w2 by simp
  have masked: "list_all (\<lambda>n. bit m n \<longrightarrow> bit x n = bit y n) [0..<32]"
    if "x AND m = y AND m" for x y m :: uint32
    using same_bits [OF that] by (simp add: list_all_iff)
  have eqI: "x = y" if "list_all (\<lambda>n. bit x n = bit y n) [0..<32]" for x y :: uint32
    using that by (intro bit_word_eqI) (simp add: list_all_iff)
  have "list_all (\<lambda>n. bit w0 n = bit v0 n) [0..<32]"
    using masked [OF m(1)] masked [OF m(2)] bits [OF w0] digit [OF d(5)] digit [OF d(6)]
    by (simp add: upt_32 numeral_2_eq_2)
  moreover have "list_all (\<lambda>n. bit w1 n = bit v1 n) [0..<32]"
    using masked [OF m(3)] digit [OF d(1)] digit [OF d(2)] digit [OF d(3)] digit [OF d(4)]
    by (simp add: upt_32 numeral_2_eq_2)
  moreover have "list_all (\<lambda>n. bit w2 n = bit v2 n) [0..<32]"
    using masked [OF m(4)] bits [OF z] bits [OF w2(2)] by (simp add: upt_32 numeral_2_eq_2)
  ultimately show ?thesis by (simp add: eqI)
qed

lemma word_20_bits:
  fixes x y :: uint32
  assumes "unat x < 2 ^ 20" "unat y < 2 ^ 20" "ucast x = (ucast y :: uint8)"
    "ucast (drop_bit 8 x) = (ucast (drop_bit 8 y) :: uint8)"
    "ucast (drop_bit 16 x AND 0xF) = (ucast (drop_bit 16 y AND 0xF) :: uint8)"
  shows "x = y"
proof (rule bit_word_eqI)
  fix n assume "n < LENGTH(32)"
  have m: "(0xF :: uint32) = mask 4" by (simp add: mask_eq_exp_minus_1)
  have high: "\<not> bit z n" if "unat z < 2 ^ 20" "20 \<le> n" for z :: uint32
  proof -
    have "unat (drop_bit 20 z) = unat z div 2 ^ 20" unfolding unat_drop_bit_eq by (simp only: drop_bit_eq_div)
    also have "\<dots> = 0" using that(1) by simp
    finally have "unat (drop_bit 20 z) = 0" .
    then have "drop_bit 20 z = 0" by (simp only: unat_eq_0)
    then have "\<not> bit (drop_bit 20 z) (n - 20)" by simp
    with that(2) show ?thesis by (simp add: bit_drop_bit_eq)
  qed
  consider "n < 8" | "8 \<le> n" "n < 16" | "16 \<le> n" "n < 20" | "20 \<le> n" by linarith
  then show "bit x n = bit y n"
  proof cases
    case 1 then show ?thesis using arg_cong [OF assms(3), of "\<lambda>b. bit b n"] by (simp add: bit_simps)
  next
    case 2 then have "n - 8 < 8" by simp
    with 2 show ?thesis using arg_cong [OF assms(4), of "\<lambda>b. bit b (n - 8)"] by (simp add: bit_simps)
  next
    case 3 then have "n - 16 < 4" by simp
    with 3 show ?thesis using arg_cong [OF assms(5), of "\<lambda>b. bit b (n - 16)"] by (simp add: bit_simps m)
  next
    case 4 then show ?thesis using high assms(1,2) by simp
  qed
qed

lemma lot_number_inj:
  assumes "unique_id_asserts w0 w1 w2" "unique_id_asserts v0 v1 v2" "lot_number w0 w1 = lot_number v0 v1"
  shows "lot_digits w0 w1 = lot_digits v0 v1"
proof (rule digits_inj)
  show "foldr (\<lambda>d n. d + 10 * n) (lot_digits w0 w1) 0 = foldr (\<lambda>d n. d + 10 * n) (lot_digits v0 v1) 0"
    using assms by (metis lot_number_bound(1))
qed (use unique_id_digits assms in \<open>auto simp: lot_digits_def\<close>)

section \<open>Properties\<close>

text \<open>The checksum of a buffer is the same whether it is computed at once or in
  pieces with \<open>Crc32Init\<close>, \<open>Crc32Update\<close> and \<open>Crc32Finalize\<close>.\<close>

theorem Crc32_streaming:
  assumes "length xs + length ys < 2 ^ 16"
  shows "Crc32Finalize (Crc32Update (Crc32Update Crc32Init (Some xs) (of_nat (length xs))) (Some ys) (of_nat (length ys))) =
    Crc32 (Some (xs @ ys)) (of_nat (length xs + length ys))"
proof -
  have "unat (of_nat n :: uint16) = n" if "n < 2 ^ 16" for n
    using that by (simp add: unsigned_of_nat take_bit_nat_eq_self)
  with assms show ?thesis
    by (simp add: Crc32_def Crc32Init_def Crc32Update_def Crc32Finalize_def crc_bytes_append del: of_nat_add)
qed

theorem Crc32_streaming_witness:
  "Crc32Finalize (Crc32Update (Crc32Update Crc32Init (Some [1, 2]) 2) (Some [3]) 1) = Crc32 (Some [1, 2, 3]) 3"
  using Crc32_streaming [of "[1, 2]" "[3]"] by simp

text \<open>Replacing up to four adjacent bytes of a buffer by other bytes always changes its
  checksum: an error burst of up to 32 bits on byte boundaries is never missed.\<close>

theorem Crc32_detects_bursts:
  assumes "length as = length bs" "length as \<le> 4" "as \<noteq> bs"
    and "length pre + length as + length post < 2 ^ 16"
  shows "Crc32 (Some (pre @ as @ post)) (of_nat (length pre + length as + length post)) \<noteq>
    Crc32 (Some (pre @ bs @ post)) (of_nat (length pre + length as + length post))"
proof -
  have "unat (of_nat n :: uint16) = n" if "n < 2 ^ 16" for n
    using that by (simp add: unsigned_of_nat take_bit_nat_eq_self)
  with assms crc_bytes_burst [OF assms(1-3)] show ?thesis
    by (simp add: Crc32_def del: of_nat_add)
qed

theorem Crc32_detects_bursts_witness:
  "Crc32 (Some [1, 2, 3]) 3 \<noteq> Crc32 (Some [1, 7, 3]) 3"
  using Crc32_detects_bursts [of "[2]" "[7]" "[1]" "[3]"] by simp

text \<open>Two chips whose identifiers pass the assertions and get the same device
  EUI have the same identifier.\<close>

theorem BoardGetUniqueId_injective:
  assumes "BoardGetUniqueId w0 w1 w2 = Some e" "BoardGetUniqueId v0 v1 v2 = Some e"
  shows "w0 = v0 \<and> w1 = v1 \<and> w2 = v2"
proof -
  have ok: "unique_id_asserts w0 w1 w2" "unique_id_asserts v0 v1 v2"
    using assms by (auto simp: BoardGetUniqueId_def split: if_splits)
  have "BoardGetUniqueId w0 w1 w2 = BoardGetUniqueId v0 v1 v2" using assms by simp
  note eq = this [unfolded unique_id_bytes [OF ok(1)] unique_id_bytes [OF ok(2)] option.inject list.inject]
  have "unat (lot_number w0 w1) < 2 ^ 20" "unat (lot_number v0 v1) < 2 ^ 20"
    using lot_number_bound(2) [OF ok(1)] lot_number_bound(2) [OF ok(2)] by simp_all
  then have "lot_number w0 w1 = lot_number v0 v1"
    by (rule word_20_bits) (use eq in blast)+
  then have "lot_digits w0 w1 = lot_digits v0 v1" by (rule lot_number_inj [OF ok])
  then show ?thesis by (intro unique_id_words [OF ok]) (use eq in blast)+
qed

theorem BoardGetUniqueId_injective_witness:
  "\<exists>!w. case w of (w0, w1, w2) \<Rightarrow>
     BoardGetUniqueId w0 w1 w2 = Some [0x22, 0x11, 0x47, 0, 0x0F, 0x40, 0xE2, 1]"
proof
  show e: "case (0x0F473132, 0x33343536, 0x00110022) of (w0, w1, w2) \<Rightarrow>
      BoardGetUniqueId w0 w1 w2 = Some [0x22, 0x11, 0x47, 0, 0x0F, 0x40, 0xE2, 1]"
    by code_simp
  fix w assume "case w of (w0, w1, w2) \<Rightarrow>
      BoardGetUniqueId w0 w1 w2 = Some [0x22, 0x11, 0x47, 0, 0x0F, 0x40, 0xE2, 1]"
  then show "w = (0x0F473132, 0x33343536, 0x00110022)"
    using BoardGetUniqueId_injective e by (cases w) auto
qed

end
