(* ===== verification/Eeprom_Store.thy ===== *)
theory Eeprom_Store
  imports Config_Encode Eeprom_Memory Board_Utilities
begin

text \<open>
  The configuration store of \<^verbatim>\<open>src/Src/eeprom.c\<close>: \<open>EEPROM_Save\<close> writes \<open>DevCfg\<close> as a message of
  fields, preceded by its checksum and its length; \<open>EEPROM_Load\<close> checks and reads it back, and falls
  back to the defaults when there is no valid image. The code of the reader is the one of
  \<^verbatim>\<open>PBDecodeMsg\<close> with a 32-bit length (theory \<open>Field_Parser\<close>). \<open>uid\<close> is the identifier of the chip
  and \<open>stack\<close> what the uninitialised 256-byte buffer of \<open>EEPROM_Save\<close> holds.
\<close>

section \<open>Saving\<close>

definition EEPROM_CRC :: "bytes \<Rightarrow> nat \<Rightarrow> uint32" where
  "EEPROM_CRC buf n = Crc32Finalize (Crc32Update Crc32Init (Some buf) (of_nat n))"

definition lora_save_fields :: "DeviceConfig \<Rightarrow> field list" where
  "lora_save_fields c =
    [(PBMSG_BX_LORA_OTAA, va_bool (isOtaa c)),
     (PBMSG_BX_LORA_DEV_EUI, VaU64 (u64 (devEui c))),
     (PBMSG_BX_LORA_APP_EUI, VaU64 (u64 (appEui c))),
     (PBMSG_BX_LORA_APP_KEY, VaBytes 16 (appKey c)),
     (PBMSG_BX_LORA_DEV_ADDR, VaU32 (devAddr c)),
     (PBMSG_BX_LORA_MAC_NET_SESSION_KEY, VaBytes 16 (nwkSKey c)),
     (PBMSG_BX_LORA_MAC_APP_SESSION_KEY, VaBytes 16 (appSKey c)),
     (PBMSG_TX_LORA_FP, VaU64 (if region c = LORAMAC_REGION_EU868 then PBENUM_FP_EU868 else PBENUM_FP_US915)),
     (PBMSG_BX_LORA_PORT, va_cast (txPort c)),
     (PBMSG_TX_LORA_TXP, va_cast (txPower c)),
     (PBMSG_TX_LORA_SF, va_cast (sf c)),
     (PBMSG_TX_LORA_BW, va_cast (bw c)),
     (PBMSG_TX_LORA_CONFIRMED_MESSAGES, va_bool (confirmedMsgs c)),
     (PBMSG_TX_LORA_ADAPTIVE_DATA_RATE, va_bool (adaptiveDatarate c)),
     (PBMSG_TX_LORA_RESPECT_DUTY_CYCLE, va_bool (dutyCycle c)),
     (PBMSG_BX_SENSOR_TIMEBASE, va_cast (sendInterval c)),
     (PBMSG_BX_SENSOR_SEND_TRIGGER, va_cast (sendTrigger c)),
     (PBMSG_BX_SENSOR_SEND_STRATEGY, va_cast (sendStrategy c))]"

definition stx_save_fields :: "DeviceConfig \<Rightarrow> field list" where
  \<comment> \<open>the upper humidity threshold is zigzag encoded, the lower one is passed as an \<open>int32_t\<close>\<close>
  "stx_save_fields c =
    (if use_hdc2080 (useSensor c) then
       (if hdc2080_mode c = HDC2080_TEMPERATURE_HIGH then
          [(PBMSG_BX_SENSOR_TEMPERATURE_UPPER_THRESHOLD, VaU64 (PBEncodeSInt (scast (hdc2080_threshold c))))]
        else if hdc2080_mode c = HDC2080_TEMPERATURE_LOW then
          [(PBMSG_BX_SENSOR_TEMPERATURE_LOWER_THRESHOLD, VaU64 (PBEncodeSInt (scast (hdc2080_threshold c))))]
        else if hdc2080_mode c = HDC2080_HUMIDITY_HIGH then
          [(PBMSG_BX_SENSOR_HUMIDITY_UPPER_THRESHOLD, VaU64 (PBEncodeSInt (scast (hdc2080_threshold c))))]
        else if hdc2080_mode c = HDC2080_HUMIDITY_LOW then
          [(PBMSG_BX_SENSOR_HUMIDITY_LOWER_THRESHOLD, VaU32 (hdc2080_threshold c))]
        else [])
     else []) @
    (if use_sfh7776 (useSensor c) then
       [(PBMSG_BX_SENSOR_LUMINANCE_UPPER_THRESHOLD, va_cast (sfh7776_threshold_upper c)),
        (PBMSG_BX_SENSOR_LUMINANCE_LOWER_THRESHOLD, va_cast (sfh7776_threshold_lower c))] else []) @
    (if use_bma400 (useSensor c) then
       [(PBMSG_BX_SENSOR_AXIS_THRESHOLD, va_cast (bma400_threshold c)),
        (PBMSG_BX_SENSOR_AXIS_CONFIGURE, va_cast (bma400_config c))] else [])"

definition sta_save_fields :: "DeviceConfig \<Rightarrow> field list" where
  "sta_save_fields c =
    [(PBEEPROM_BUTTON_SINGLE_COUNT, va_cast (singleCount c)),
     (PBEEPROM_BUTTON_DOUBLE_COUNT, va_cast (doubleCount c)),
     (PBEEPROM_BUTTON_LONG_COUNT, va_cast (longCount c))]"

definition save_fields :: "family \<Rightarrow> DeviceConfig \<Rightarrow> field list" where
  "save_fields fam c = lora_save_fields c @
    (case fam of STX \<Rightarrow> stx_save_fields c | STA \<Rightarrow> sta_save_fields c | STE \<Rightarrow> [])"

definition EEPROM_Save :: "family \<Rightarrow> (nat \<Rightarrow> bool) \<Rightarrow> bytes \<Rightarrow> DeviceConfig \<Rightarrow> memory \<Rightarrow> memory option" where
  "EEPROM_Save fam ok stack c mem =
    (case encode_fields 256 (save_fields fam c) (stack[0 := 0], 1) of
       None \<Rightarrow> None
     | Some (msg, n) \<Rightarrow>
         if n > length msg then None  \<comment> \<open>the copy would read beyond the buffer\<close>
         else let mem1 = HW_ResetEEPROM ok (EEPROM_APP + 8) n mem;
                  mem2 = HW_ProgramEEPROM ok EEPROM_APP (EEPROM_CRC msg n) mem1;
                  mem3 = HW_ProgramEEPROM ok (EEPROM_APP + 4) (of_nat n) mem2
              in Some (fst (HW_WriteEEPROM ok (EEPROM_APP + 8) msg n mem3)))"

section \<open>Loading\<close>

definition eeprom_rem :: "uint32 \<Rightarrow> uint8 \<Rightarrow> int" where
  "eeprom_rem len pos = uint (len - ucast pos)"

definition load_hdc2080 :: "uint64 \<Rightarrow> uint8 \<Rightarrow> DeviceConfig \<Rightarrow> DeviceConfig" where
  "load_hdc2080 v mode c = c\<lparr>hdc2080_threshold := ucast v, hdc2080_mode := mode,
     useSensor := (useSensor c)\<lparr>use_hdc2080 := True\<rparr>\<rparr>"

definition load_sensor_field :: "uint32 \<Rightarrow> uint64 \<Rightarrow> DeviceConfig \<Rightarrow> DeviceConfig" where
  "load_sensor_field key v c =
    (if key = PBMSG_BX_SENSOR_HUMIDITY_UPPER_THRESHOLD then load_hdc2080 v HDC2080_HUMIDITY_HIGH c
     else if key = PBMSG_BX_SENSOR_HUMIDITY_LOWER_THRESHOLD then load_hdc2080 v HDC2080_HUMIDITY_LOW c
     else if key = PBMSG_BX_SENSOR_TEMPERATURE_UPPER_THRESHOLD then
       load_hdc2080 (PBDecodeSInt v) HDC2080_TEMPERATURE_HIGH c
     else if key = PBMSG_BX_SENSOR_TEMPERATURE_LOWER_THRESHOLD then
       load_hdc2080 (PBDecodeSInt v) HDC2080_TEMPERATURE_LOW c
     else if key = PBMSG_BX_SENSOR_LUMINANCE_UPPER_THRESHOLD then
       c\<lparr>sfh7776_threshold_upper := ucast v, useSensor := (useSensor c)\<lparr>use_sfh7776 := True\<rparr>\<rparr>
     else if key = PBMSG_BX_SENSOR_LUMINANCE_LOWER_THRESHOLD then
       c\<lparr>sfh7776_threshold_lower := ucast v, useSensor := (useSensor c)\<lparr>use_sfh7776 := True\<rparr>\<rparr>
     else if key = PBMSG_BX_SENSOR_AXIS_THRESHOLD then
       c\<lparr>bma400_threshold := ucast v, useSensor := (useSensor c)\<lparr>use_bma400 := True\<rparr>\<rparr>
     else if key = PBMSG_BX_SENSOR_AXIS_CONFIGURE then
       c\<lparr>bma400_config := ucast v, useSensor := (useSensor c)\<lparr>use_bma400 := True\<rparr>\<rparr>
     else c)"

definition load_button_field :: "uint32 \<Rightarrow> uint64 \<Rightarrow> DeviceConfig \<Rightarrow> DeviceConfig" where
  "load_button_field key v c =
    (if key = PBEEPROM_BUTTON_SINGLE_COUNT then c\<lparr>singleCount := ucast v\<rparr>
     else if key = PBEEPROM_BUTTON_DOUBLE_COUNT then c\<lparr>doubleCount := ucast v\<rparr>
     else if key = PBEEPROM_BUTTON_LONG_COUNT then c\<lparr>longCount := ucast v\<rparr>
     else c)"

definition eeprom_action :: "family \<Rightarrow> DeviceConfig action" where
  "eeprom_action fam key raw v payload c =
    (if key = PBMSG_BX_LORA_OTAA then Some (c\<lparr>isOtaa := to_bool v\<rparr>)
     else if key = PBMSG_BX_LORA_DEV_EUI then Some (c\<lparr>devEui := b64 v\<rparr>)
     else if key = PBMSG_BX_LORA_APP_EUI then Some (c\<lparr>appEui := b64 v\<rparr>)
     else if key = PBMSG_BX_LORA_APP_KEY \<and> raw = 16 then map_option (\<lambda>b. c\<lparr>appKey := b\<rparr>) payload
     else if key = PBMSG_BX_LORA_DEV_ADDR then Some (c\<lparr>devAddr := ucast v\<rparr>)
     else if key = PBMSG_BX_LORA_MAC_NET_SESSION_KEY \<and> raw = 16 then map_option (\<lambda>b. c\<lparr>nwkSKey := b\<rparr>) payload
     else if key = PBMSG_BX_LORA_MAC_APP_SESSION_KEY \<and> raw = 16 then map_option (\<lambda>b. c\<lparr>appSKey := b\<rparr>) payload
     else if key = PBMSG_TX_LORA_FP then
       Some (c\<lparr>region := if v = PBENUM_FP_EU868 then LORAMAC_REGION_EU868 else LORAMAC_REGION_US915\<rparr>)
     else if key = PBMSG_BX_LORA_PORT then Some (c\<lparr>txPort := ucast v\<rparr>)
     else if key = PBMSG_TX_LORA_TXP then Some (c\<lparr>txPower := ucast v\<rparr>)
     else if key = PBMSG_TX_LORA_SF then Some (c\<lparr>sf := ucast v\<rparr>)
     else if key = PBMSG_TX_LORA_BW then Some (c\<lparr>bw := ucast v\<rparr>)
     else if key = PBMSG_TX_LORA_CONFIRMED_MESSAGES then Some (c\<lparr>confirmedMsgs := to_bool v\<rparr>)
     else if key = PBMSG_TX_LORA_ADAPTIVE_DATA_RATE then Some (c\<lparr>adaptiveDatarate := to_bool v\<rparr>)
     else if key = PBMSG_TX_LORA_RESPECT_DUTY_CYCLE then Some (c\<lparr>dutyCycle := to_bool v\<rparr>)
     else if key = PBMSG_BX_SENSOR_TIMEBASE then Some (c\<lparr>sendInterval := ucast v\<rparr>)
     else if key = PBMSG_BX_SENSOR_SEND_TRIGGER then Some (c\<lparr>sendTrigger := ucast v\<rparr>)
     else if key = PBMSG_BX_SENSOR_SEND_STRATEGY then Some (c\<lparr>sendStrategy := ucast v\<rparr>)
     else Some (case fam of STX \<Rightarrow> load_sensor_field key v c | STA \<Rightarrow> load_button_field key v c | STE \<Rightarrow> c))"

definition image_bytes :: "memory \<Rightarrow> bytes" where
  \<comment> \<open>what can be read from the message pointer on: the rest of the EEPROM\<close>
  "image_bytes mem = read_bytes mem (EEPROM_APP + 8) (EEPROM_LOG_END - (EEPROM_APP + 8))"

definition image_missing :: "memory \<Rightarrow> bool" where
  "image_missing mem =
    (let crc = word_at mem EEPROM_APP; len = word_at mem (EEPROM_APP + 4); msg = image_bytes mem
     in len > of_nat (EEPROM_APP_END - EEPROM_APP - 8) \<or> len < 10 \<or> msg ! 0 \<noteq> 0 \<or>
        crc \<noteq> EEPROM_CRC msg (unat len))"

datatype load_result = Loaded DeviceConfig memory | Rebooted memory

definition load_prepare ::
  "family \<Rightarrow> (nat \<Rightarrow> bool) \<Rightarrow> uint32 \<times> uint32 \<times> uint32 \<Rightarrow> bytes \<Rightarrow> DeviceConfig \<Rightarrow> memory \<Rightarrow>
   (DeviceConfig \<times> memory) option" where
  "load_prepare fam ok uid stack c mem =
    (if image_missing mem then
       case uid of (w0, w1, w2) \<Rightarrow> Option.bind (BoardGetUniqueId w0 w1 w2) (\<lambda>e.
         map_option (\<lambda>mem'. (c\<lparr>devEui := e\<rparr>, mem')) (EEPROM_Save fam ok stack (c\<lparr>devEui := e\<rparr>) mem))
     else Some (c, mem))"

definition EEPROM_Load ::
  "family \<Rightarrow> (nat \<Rightarrow> bool) \<Rightarrow> uint32 \<times> uint32 \<times> uint32 \<Rightarrow> bytes \<Rightarrow> DeviceConfig \<Rightarrow> memory \<Rightarrow>
   load_result outcome option" where
  "EEPROM_Load fam ok uid stack c mem =
    (case load_prepare fam ok uid stack c mem of
       None \<Rightarrow> Some Undef
     | Some (c1, mem1) \<Rightarrow>
         (case kv_loop (eeprom_rem (word_at mem1 (EEPROM_APP + 4))) (image_bytes mem1) (eeprom_action fam) 1 c1 of
            None \<Rightarrow> None
          | Some Undef \<Rightarrow> Some Undef
          | Some (Stop (completed, c2)) \<Rightarrow>
              if completed then Some (Stop (Loaded (c2\<lparr>changed := all_changes\<rparr>) mem1))
              else Some (Stop (Rebooted (HW_EraseEEPROM ok (EEPROM_APP + 4) (HW_EraseEEPROM ok EEPROM_APP mem1))))))"

section \<open>The image\<close>

definition config_storable :: "family \<Rightarrow> DeviceConfig \<Rightarrow> bool" where
  \<comment> \<open>the configurations the encoder of the store is defined on\<close>
  "config_storable fam c \<longleftrightarrow> config_wf c \<and> (region c = LORAMAC_REGION_EU868 \<or> region c = LORAMAC_REGION_US915) \<and>
     (fam = STX \<longrightarrow> hdc2080_mode c < 4 \<and> \<not> (use_hdc2080 (useSensor c) \<and> hdc2080_mode c = HDC2080_HUMIDITY_LOW))"

definition config_image :: "family \<Rightarrow> DeviceConfig \<Rightarrow> bytes" where
  "config_image fam c = 0 # fields_bytes (save_fields fam c)"

lemma fp_small: "length (varint_bytes (if b then PBENUM_FP_EU868 else PBENUM_FP_US915)) \<le> 2"
  by (rule length_varint_below) (simp_all add: pbenum_values)

lemma length_lora_save:
  assumes "config_wf c"
  shows "length (fields_bytes (lora_save_fields c)) \<le> 134"
proof -
  let ?ns = "[4, 10, 10, 19, 6, 19, 19, 4, 4, 4, 4, 4, 4, 4, 4, 7, 4, 4] :: nat list"
  have "list_all2 (\<lambda>(key, ap) n. length (field_bytes key ap) \<le> n) (lora_save_fields c) ?ns"
    using assms unfolding lora_save_fields_def config_key_values list_all2_Cons list_all2_Nil2
    by (intro conjI; simp only: prod.case)
      (rule order_trans [OF length_casts_field(1)] order_trans [OF length_casts_field(3)]
        order_trans [OF length_casts_field(4)] order_trans [OF length_varint_field [OF _ _ _ fp_small]]
        length_other_fields; simp add: config_wf_def)+
  from sum_list_bound [OF this] show ?thesis by simp
qed

lemma length_sta_save: "length (fields_bytes (sta_save_fields c)) \<le> 12"
proof -
  have "length (fields_bytes (sta_save_fields c)) \<le> sum_list ([4, 4, 4] :: nat list)"
    by (rule sum_list_bound) (simp add: sta_save_fields_def config_key_values length_casts_field(1) [simplified])
  then show ?thesis by simp
qed

lemma length_stx_save:
  assumes "\<not> (use_hdc2080 (useSensor c) \<and> hdc2080_mode c = HDC2080_HUMIDITY_LOW)"
  shows "length (fields_bytes (stx_save_fields c)) \<le> 34"
proof -
  have hdc: "length (field_bytes PBMSG_BX_SENSOR_TEMPERATURE_UPPER_THRESHOLD (VaU64 x)) \<le> 12"
    "length (field_bytes PBMSG_BX_SENSOR_TEMPERATURE_LOWER_THRESHOLD (VaU64 x)) \<le> 12"
    "length (field_bytes PBMSG_BX_SENSOR_HUMIDITY_UPPER_THRESHOLD (VaU64 x)) \<le> 12" for x
    unfolding config_key_values by (rule order_trans [OF length_casts_field(5)]; simp)+
  have sfh: "length (field_bytes PBMSG_BX_SENSOR_LUMINANCE_UPPER_THRESHOLD (va_cast (w :: uint16))) \<le> 5"
    "length (field_bytes PBMSG_BX_SENSOR_LUMINANCE_LOWER_THRESHOLD (va_cast (w :: uint16))) \<le> 5"
    "length (field_bytes PBMSG_BX_SENSOR_AXIS_CONFIGURE (va_cast (w :: uint16))) \<le> 5" for w
    unfolding config_key_values by (rule order_trans [OF length_casts_field(2)]; simp)+
  have bma: "length (field_bytes PBMSG_BX_SENSOR_AXIS_THRESHOLD (va_cast (w :: uint32))) \<le> 7" for w
    unfolding config_key_values by (rule order_trans [OF length_casts_field(3)]; simp)
  have "length (fields_bytes (if use_hdc2080 (useSensor c) then
       (if hdc2080_mode c = HDC2080_TEMPERATURE_HIGH then
          [(PBMSG_BX_SENSOR_TEMPERATURE_UPPER_THRESHOLD, VaU64 (PBEncodeSInt (scast (hdc2080_threshold c))))]
        else if hdc2080_mode c = HDC2080_TEMPERATURE_LOW then
          [(PBMSG_BX_SENSOR_TEMPERATURE_LOWER_THRESHOLD, VaU64 (PBEncodeSInt (scast (hdc2080_threshold c))))]
        else if hdc2080_mode c = HDC2080_HUMIDITY_HIGH then
          [(PBMSG_BX_SENSOR_HUMIDITY_UPPER_THRESHOLD, VaU64 (PBEncodeSInt (scast (hdc2080_threshold c))))]
        else if hdc2080_mode c = HDC2080_HUMIDITY_LOW then
          [(PBMSG_BX_SENSOR_HUMIDITY_LOWER_THRESHOLD, VaU32 (hdc2080_threshold c))]
        else [])
     else [])) \<le> 12"
    using assms hdc by (simp add: fields_bytes_Cons)
  moreover have "length (fields_bytes (if use_sfh7776 (useSensor c) then
       [(PBMSG_BX_SENSOR_LUMINANCE_UPPER_THRESHOLD, va_cast (sfh7776_threshold_upper c)),
        (PBMSG_BX_SENSOR_LUMINANCE_LOWER_THRESHOLD, va_cast (sfh7776_threshold_lower c))] else [])) \<le> 10"
    using add_mono [OF sfh(1) [of "sfh7776_threshold_upper c"] sfh(2) [of "sfh7776_threshold_lower c"]]
    by (simp add: fields_bytes_Cons)
  moreover have "length (fields_bytes (if use_bma400 (useSensor c) then
       [(PBMSG_BX_SENSOR_AXIS_THRESHOLD, va_cast (bma400_threshold c)),
        (PBMSG_BX_SENSOR_AXIS_CONFIGURE, va_cast (bma400_config c))] else [])) \<le> 12"
    using add_mono [OF bma [of "bma400_threshold c"] sfh(3) [of "bma400_config c"]]
    by (simp add: fields_bytes_Cons)
  ultimately show ?thesis
    unfolding stx_save_fields_def fields_bytes_append length_append by linarith
qed

lemma length_image:
  assumes "config_storable fam c"
  shows "length (config_image fam c) \<le> 169" "10 \<le> length (config_image fam c)"
proof -
  show "length (config_image fam c) \<le> 169"
    using length_lora_save [of c] length_stx_save [of c] length_sta_save [of c] assms
    by (cases fam) (simp_all add: config_image_def save_fields_def fields_bytes_append config_storable_def)
  have "field_ok PBMSG_BX_LORA_DEV_EUI (VaU64 x)" for x by (simp add: field_ok_def config_key_values)
  then have "9 \<le> length (field_bytes PBMSG_BX_LORA_DEV_EUI (VaU64 (u64 (devEui c))))"
    by (subst field_bytes_parts) (auto simp: raw_bytes_def config_key_values Suc_le_eq)
  then show "10 \<le> length (config_image fam c)"
    by (simp add: config_image_def save_fields_def lora_save_fields_def fields_bytes_Cons fields_bytes_append)
qed

lemma save_fields_readable:
  assumes "config_storable fam c"
  shows "\<forall>(key, ap) \<in> set (save_fields fam c). field_readable key ap"
proof -
  have "\<forall>(key, ap) \<in> set (lora_save_fields c). field_readable key ap"
    using assms by (simp add: lora_save_fields_def config_storable_def config_wf_def field_readable_def field_ok_def
        config_key_values)
  moreover have "fam = STX \<Longrightarrow> \<forall>(key, ap) \<in> set (stx_save_fields c). field_readable key ap"
    using assms by (auto simp: stx_save_fields_def config_storable_def field_readable_def field_ok_def
        config_key_values)
  moreover have "\<forall>(key, ap) \<in> set (sta_save_fields c). field_readable key ap"
    by (simp add: sta_save_fields_def field_readable_def field_ok_def config_key_values)
  ultimately show ?thesis by (auto simp: save_fields_def split: family.splits)
qed

lemma save_fields_ok: "config_storable fam c \<Longrightarrow> fields_ok (save_fields fam c)"
  using save_fields_readable [of fam c] by (auto simp: fields_ok_def list_all_iff field_readable_def)

definition saved_memory :: "bytes \<Rightarrow> memory \<Rightarrow> memory" where
  \<comment> \<open>the specification of the store: the header, the image, and zeros up to the next word\<close>
  "saved_memory img mem = set_bytes (EEPROM_APP + 8) img
     (set_bytes EEPROM_APP (le32 (EEPROM_CRC img (length img)) @ le32 (of_nat (length img)))
       (set_bytes (EEPROM_APP + 8) (replicate (4 * ((length img + 3) div 4)) 0) mem))"

lemma EEPROM_CRC_take: "n < 2 ^ 16 \<Longrightarrow> EEPROM_CRC (take n buf) n = EEPROM_CRC buf n"
  by (simp add: EEPROM_CRC_def Crc32Update_def unsigned_of_nat take_bit_nat_eq_self)

lemma EEPROM_Save_memory:
  assumes "config_storable fam c" "length stack = 256"
  shows "EEPROM_Save fam sound stack c mem = Some (saved_memory (config_image fam c) mem)"
proof -
  define fb where "fb = fields_bytes (save_fields fam c)"
  define msg where "msg = clip_write 256 1 fb (stack[0 := 0])"
  define n where "n = length (config_image fam c)"
  have n: "n \<le> 169" "1 + length fb = n"
    using length_image [OF assms(1)] by (simp_all add: n_def config_image_def fb_def)
  have enc: "encode_fields 256 (save_fields fam c) (stack[0 := 0], 1) = Some (msg, n)"
    using encode_fields_clip [OF save_fields_ok [OF assms(1)], of 256 "stack[0 := 0]" 1] assms(2) n
    by (simp add: msg_def fb_def)
  have msg: "length msg = 256" using assms(2) by (simp add: msg_def)
  have "take 1 (stack[0 := 0]) = [0]" using assms(2) by (cases stack) auto
  then have img: "take n msg = config_image fam c"
    using take_clip_write [of 1 fb 256 "stack[0 := 0]"] n assms(2) by (simp add: config_image_def fb_def msg_def)
  have crc: "EEPROM_CRC msg n = EEPROM_CRC (config_image fam c) n"
    using EEPROM_CRC_take [of n msg] n img by simp
  show ?thesis
    using n(1) msg unfolding EEPROM_Save_def enc
    by (simp add: Let_def write_eeprom_sound img crc HW_ProgramEEPROM_def HW_ResetEEPROM_def hal_program_def
        erase_words_sound saved_memory_def set_bytes_set_bytes flip: n_def)
qed

lemma saved_words:
  assumes "length img \<le> 255"
  shows "word_at (saved_memory img mem) EEPROM_APP = EEPROM_CRC img (length img)"
    and "word_at (saved_memory img mem) (EEPROM_APP + 4) = of_nat (length img)"
    and "\<exists>post. image_bytes (saved_memory img mem) = img @ post"
proof -
  let ?crc = "le32 (EEPROM_CRC img (length img))" and ?len = "le32 (of_nat (length img))"
  let ?old = "set_bytes (EEPROM_APP + 8) (replicate (4 * ((length img + 3) div 4)) 0) mem"
  have hdr: "set_bytes EEPROM_APP (?crc @ ?len) ?old = set_bytes (EEPROM_APP + 4) ?len (set_bytes EEPROM_APP ?crc ?old)"
    by (simp add: set_bytes_set_bytes)
  show "word_at (saved_memory img mem) EEPROM_APP = EEPROM_CRC img (length img)"
    "word_at (saved_memory img mem) (EEPROM_APP + 4) = of_nat (length img)"
    by (simp_all add: saved_memory_def hdr word_at_other word_at_set_bytes)
  have "EEPROM_LOG_END - (EEPROM_APP + 8) = length img + (2040 - length img)"
    using assms by (simp add: EEPROM_LOG_END_def EEPROM_APP_def)
  then have "image_bytes (saved_memory img mem) =
      read_bytes (saved_memory img mem) (EEPROM_APP + 8) (length img) @
      read_bytes (saved_memory img mem) (EEPROM_APP + 8 + length img) (2040 - length img)"
    by (simp only: image_bytes_def read_bytes_split)
  then show "\<exists>post. image_bytes (saved_memory img mem) = img @ post"
    by (simp add: saved_memory_def)
qed

section \<open>Reading the image back\<close>

interpretation eeprom: kv_reader "eeprom_rem (ucast n)" "unat n" for n :: uint8
proof
  have "unat n < 2 ^ LENGTH(8)" by (rule unsigned_less)
  then show "unat n \<le> 255" by simp
next
  fix pos :: uint8 assume le: "unat pos \<le> unat n"
  have up: "unat (ucast x :: uint32) = unat x" for x :: uint8
  proof -
    have "unat x < 2 ^ LENGTH(8)" by (rule unsigned_less)
    then show ?thesis by (simp add: unsigned_ucast_eq take_bit_nat_eq_self)
  qed
  have "ucast pos \<le> (ucast n :: uint32)" using le by (simp add: word_le_nat_alt up)
  then have "unat (ucast n - ucast pos :: uint32) = unat n - unat pos" by (simp add: unat_sub up)
  then show "eeprom_rem (ucast n) pos = int (unat n) - int (unat pos)"
    unfolding eeprom_rem_def using le by (metis of_nat_diff uint_nat)
qed

definition restored :: "family \<Rightarrow> DeviceConfig \<Rightarrow> DeviceConfig \<Rightarrow> DeviceConfig" where
  \<comment> \<open>the specification: \<open>c0\<close> with the stored settings of \<open>c\<close>\<close>
  "restored fam c c0 =
    (let c1 = c0\<lparr>isOtaa := isOtaa c, devEui := devEui c, appEui := appEui c, appKey := appKey c,
           devAddr := devAddr c, nwkSKey := nwkSKey c, appSKey := appSKey c, region := region c,
           txPort := txPort c, txPower := txPower c, sf := sf c, bw := bw c,
           confirmedMsgs := confirmedMsgs c, adaptiveDatarate := adaptiveDatarate c,
           dutyCycle := dutyCycle c, sendInterval := sendInterval c, sendTrigger := sendTrigger c,
           sendStrategy := sendStrategy c\<rparr>;
         use = useSensor c;
         c2 = (if use_hdc2080 use then c1\<lparr>hdc2080_threshold := hdc2080_threshold c,
           hdc2080_mode := hdc2080_mode c, useSensor := (useSensor c1)\<lparr>use_hdc2080 := True\<rparr>\<rparr> else c1);
         c3 = (if use_sfh7776 use then c2\<lparr>sfh7776_threshold_upper := sfh7776_threshold_upper c,
           sfh7776_threshold_lower := sfh7776_threshold_lower c,
           useSensor := (useSensor c2)\<lparr>use_sfh7776 := True\<rparr>\<rparr> else c2);
         c4 = (if use_bma400 use then c3\<lparr>bma400_threshold := bma400_threshold c,
           bma400_config := bma400_config c, useSensor := (useSensor c3)\<lparr>use_bma400 := True\<rparr>\<rparr> else c3)
     in case fam of STX \<Rightarrow> c4 | STE \<Rightarrow> c1
        | STA \<Rightarrow> c1\<lparr>singleCount := singleCount c, doubleCount := doubleCount c, longCount := longCount c\<rparr>)"

lemma apply_fields_append:
  "apply_fields act (fs @ gs) s = Option.bind (apply_fields act fs s) (apply_fields act gs)"
  by (induction fs arbitrary: s) (auto split: Option.bind_split)

lemma to_bool_of_bool64 [simp]: "to_bool (of_bool64 b) = b"
  by (simp add: to_bool_def of_bool64_def)

lemma ucast_up_down:
  "ucast (ucast (w8 :: uint8) :: uint64) = w8" "ucast (ucast (w16 :: uint16) :: uint64) = w16"
  "ucast (ucast (w32 :: uint32) :: uint64) = w32" "ucast (scast (w32 :: uint32) :: uint64) = w32"
  by (rule bit_word_eqI; auto simp: bit_simps)+

lemma restore_lora:
  assumes "config_wf c" "region c = LORAMAC_REGION_EU868 \<or> region c = LORAMAC_REGION_US915"
  shows "apply_fields (eeprom_action fam) (lora_save_fields c) c0 =
    Some (c0\<lparr>isOtaa := isOtaa c, devEui := devEui c, appEui := appEui c, appKey := appKey c,
           devAddr := devAddr c, nwkSKey := nwkSKey c, appSKey := appSKey c, region := region c,
           txPort := txPort c, txPower := txPower c, sf := sf c, bw := bw c,
           confirmedMsgs := confirmedMsgs c, adaptiveDatarate := adaptiveDatarate c,
           dutyCycle := dutyCycle c, sendInterval := sendInterval c, sendTrigger := sendTrigger c,
           sendStrategy := sendStrategy c\<rparr>)"
proof -
  have fp: "(if (if region c = LORAMAC_REGION_EU868 then PBENUM_FP_EU868 else PBENUM_FP_US915) = PBENUM_FP_EU868
      then LORAMAC_REGION_EU868 else LORAMAC_REGION_US915) = region c"
    using assms(2) by (auto simp: pbenum_values)
  show ?thesis
    using assms(1)
    by (simp add: lora_save_fields_def apply_field_def eeprom_action_def config_key_values raw_bytes_def
        config_wf_def b64_u64 ucast_up_down fp)
qed

lemma restore_hdc2080:
  assumes "hdc2080_mode c = HDC2080_TEMPERATURE_HIGH \<or> hdc2080_mode c = HDC2080_TEMPERATURE_LOW"
  shows "apply_fields (eeprom_action STX)
     (if hdc2080_mode c = HDC2080_TEMPERATURE_HIGH then
          [(PBMSG_BX_SENSOR_TEMPERATURE_UPPER_THRESHOLD, VaU64 (PBEncodeSInt (scast (hdc2080_threshold c))))]
        else if hdc2080_mode c = HDC2080_TEMPERATURE_LOW then
          [(PBMSG_BX_SENSOR_TEMPERATURE_LOWER_THRESHOLD, VaU64 (PBEncodeSInt (scast (hdc2080_threshold c))))]
        else rest) c1 =
    Some (c1\<lparr>hdc2080_threshold := hdc2080_threshold c,
           hdc2080_mode := hdc2080_mode c, useSensor := (useSensor c1)\<lparr>use_hdc2080 := True\<rparr>\<rparr>)"
proof -
  have "HDC2080_TEMPERATURE_HIGH \<noteq> HDC2080_TEMPERATURE_LOW" by (simp add: hdc2080_modes)
  with assms show ?thesis
    by (elim disjE) (simp_all add: apply_field_def eeprom_action_def load_sensor_field_def load_hdc2080_def
        config_key_values PBDecodeSInt_PBEncodeSInt ucast_up_down)
qed

lemma restore_sfh_bma:
  "apply_fields (eeprom_action STX)
       [(PBMSG_BX_SENSOR_LUMINANCE_UPPER_THRESHOLD, va_cast (sfh7776_threshold_upper c)),
        (PBMSG_BX_SENSOR_LUMINANCE_LOWER_THRESHOLD, va_cast (sfh7776_threshold_lower c))] c1 =
    Some (c1\<lparr>sfh7776_threshold_upper := sfh7776_threshold_upper c,
           sfh7776_threshold_lower := sfh7776_threshold_lower c,
           useSensor := (useSensor c1)\<lparr>use_sfh7776 := True\<rparr>\<rparr>)"
  "apply_fields (eeprom_action STX)
       [(PBMSG_BX_SENSOR_AXIS_THRESHOLD, va_cast (bma400_threshold c)),
        (PBMSG_BX_SENSOR_AXIS_CONFIGURE, va_cast (bma400_config c))] c1 =
    Some (c1\<lparr>bma400_threshold := bma400_threshold c,
           bma400_config := bma400_config c, useSensor := (useSensor c1)\<lparr>use_bma400 := True\<rparr>\<rparr>)"
  by (simp_all add: apply_field_def eeprom_action_def load_sensor_field_def config_key_values ucast_up_down)

lemma restore_stx:
  assumes "hdc2080_mode c < 4" "\<not> humidity_mode c"
  shows "apply_fields (eeprom_action STX) (stx_save_fields c) c1 =
    Some (let use = useSensor c;
         c2 = (if use_hdc2080 use then c1\<lparr>hdc2080_threshold := hdc2080_threshold c,
           hdc2080_mode := hdc2080_mode c, useSensor := (useSensor c1)\<lparr>use_hdc2080 := True\<rparr>\<rparr> else c1);
         c3 = (if use_sfh7776 use then c2\<lparr>sfh7776_threshold_upper := sfh7776_threshold_upper c,
           sfh7776_threshold_lower := sfh7776_threshold_lower c,
           useSensor := (useSensor c2)\<lparr>use_sfh7776 := True\<rparr>\<rparr> else c2)
     in if use_bma400 use then c3\<lparr>bma400_threshold := bma400_threshold c,
           bma400_config := bma400_config c, useSensor := (useSensor c3)\<lparr>use_bma400 := True\<rparr>\<rparr> else c3)"
proof -
  have "hdc2080_mode c \<in> {0, 1, 2, 3}"
  proof -
    have "unat (hdc2080_mode c) < 4" using assms(1) by (simp add: word_less_nat_alt)
    then have "unat (hdc2080_mode c) \<in> {unat (0::uint8), unat (1::uint8), unat (2::uint8), unat (3::uint8)}" by auto
    then show ?thesis by (simp only: insert_iff empty_iff word_unat_eq_iff)
  qed
  then have mode: "use_hdc2080 (useSensor c) \<Longrightarrow>
      hdc2080_mode c = HDC2080_TEMPERATURE_HIGH \<or> hdc2080_mode c = HDC2080_TEMPERATURE_LOW"
    using assms(2) by (auto simp: humidity_mode_def hdc2080_modes)
  note r = restore_hdc2080 [OF mode] restore_sfh_bma apply_fields.simps(1)
  show ?thesis
    unfolding stx_save_fields_def apply_fields_append Let_def
    by (cases "use_hdc2080 (useSensor c)"; cases "use_sfh7776 (useSensor c)"; cases "use_bma400 (useSensor c)")
      (simp_all only: if_True if_False r bind.simps)
qed

lemma restore_sta:
  "apply_fields (eeprom_action STA) (sta_save_fields c) c1 =
    Some (c1\<lparr>singleCount := singleCount c, doubleCount := doubleCount c, longCount := longCount c\<rparr>)"
  by (simp add: sta_save_fields_def apply_field_def eeprom_action_def load_button_field_def config_key_values
      ucast_up_down)

lemma restore_fields:
  assumes "config_storable fam c" "fam = STX \<longrightarrow> \<not> humidity_mode c"
  shows "apply_fields (eeprom_action fam) (save_fields fam c) c0 = Some (restored fam c c0)"
  using assms restore_lora [of c fam c0] restore_stx [of c]
  by (cases fam) (simp_all add: save_fields_def apply_fields_append restore_sta config_storable_def restored_def Let_def)

lemma kv_loop_image:
  assumes "config_storable fam c" "apply_fields (eeprom_action fam) (save_fields fam c) c0 = Some c1"
  shows "kv_loop (eeprom_rem (of_nat (length (config_image fam c)))) (config_image fam c @ post) (eeprom_action fam) 1 c0 =
    Some (Stop (True, c1))"
proof -
  let ?n = "of_nat (length (config_image fam c)) :: uint8"
  have n: "unat ?n = length (config_image fam c)"
    using length_image(1) [OF assms(1)] by (intro unat_word8) simp
  have up: "ucast ?n = (of_nat (length (config_image fam c)) :: uint32)"
    by (metis n of_nat_unat)
  show ?thesis
    using eeprom.kv_loop_fields [OF save_fields_readable [OF assms(1)], of 1 "[0]" ?n post "eeprom_action fam" c0]
      assms(2) n up
    by (simp add: config_image_def)
qed

lemma saved_valid:
  assumes len: "10 \<le> length img" "length img \<le> 255" and "img ! 0 = 0"
  shows "\<not> image_missing (saved_memory img mem)"
proof -
  let ?mem = "saved_memory img mem"
  obtain post where post: "image_bytes ?mem = img @ post" using saved_words(3) [OF len(2)] by blast
  have u: "unat (of_nat (length img) :: uint32) = length img"
    using len by (simp add: unsigned_of_nat take_bit_nat_eq_self)
  have "EEPROM_CRC (img @ post) (length img) = EEPROM_CRC img (length img)"
    using EEPROM_CRC_take [of "length img" "img @ post"] len by simp
  moreover have "(img @ post) ! 0 = 0" using assms by (cases img) simp_all
  ultimately show ?thesis
    using len saved_words(1,2) [OF len(2), of mem]
    by (simp add: image_missing_def post u EEPROM_APP_def EEPROM_APP_END_def word_less_nat_alt)
qed

lemma image_valid: "config_storable fam c \<Longrightarrow> \<not> image_missing (saved_memory (config_image fam c) mem)"
  using length_image [of fam c] by (intro saved_valid) (simp_all add: config_image_def)

lemma load_saved:
  assumes "config_storable fam c" "apply_fields (eeprom_action fam) (save_fields fam c) c0 = Some c1"
  shows "kv_loop (eeprom_rem (word_at (saved_memory (config_image fam c) mem) (EEPROM_APP + 4)))
      (image_bytes (saved_memory (config_image fam c) mem)) (eeprom_action fam) 1 c0 =
    Some (Stop (True, c1))"
proof -
  have "length (config_image fam c) \<le> 255" using length_image [OF assms(1)] by simp
  note w = saved_words [OF this, of mem]
  from w(3) obtain post where "image_bytes (saved_memory (config_image fam c) mem) = config_image fam c @ post" ..
  then show ?thesis using kv_loop_image [OF assms, of post] w(2) by simp
qed

lemma restored_self: "restored fam c c = c"
  by (cases fam) (simp_all add: restored_def Let_def)

lemma EEPROM_Load_saved:
  assumes "config_storable fam c" "fam = STX \<longrightarrow> \<not> humidity_mode c" "length stack = 256"
  shows "Option.bind (EEPROM_Save fam sound stack c mem) (EEPROM_Load fam ok uid stack' c0) =
    Some (Stop (Loaded ((restored fam c c0)\<lparr>changed := all_changes\<rparr>) (saved_memory (config_image fam c) mem)))"
  using image_valid [OF assms(1), of mem] load_saved [OF assms(1) restore_fields [OF assms(1,2)], of mem c0]
  by (simp add: EEPROM_Save_memory [OF assms(1,3)] EEPROM_Load_def load_prepare_def)

section \<open>Damaged images\<close>

lemma read_bytes_other:
  "a + n \<le> b \<or> b + length bs \<le> a \<Longrightarrow> read_bytes (set_bytes b bs mem) a n = read_bytes mem a n"
  by (intro nth_equalityI) (auto simp: set_bytes_def)

lemma EEPROM_CRC_image:
  assumes "n \<le> 2040"
  shows "EEPROM_CRC (image_bytes mem) n = NOT (crc_bytes (read_bytes mem (EEPROM_APP + 8) n) 0xFFFFFFFF)"
  using assms
  by (simp add: EEPROM_CRC_def Crc32Update_def Crc32Finalize_def Crc32Init_def unsigned_of_nat take_bit_nat_eq_self
      image_bytes_def take_read_bytes EEPROM_LOG_END_def EEPROM_APP_def)

lemma CRC_damaged:
  assumes "bs \<noteq> read_bytes mem a (length bs)" "length bs \<le> 4" "n \<le> 2040"
    and "EEPROM_APP + 8 \<le> a" "a + length bs \<le> EEPROM_APP + 8 + n"
  shows "EEPROM_CRC (image_bytes (set_bytes a bs mem)) n \<noteq> EEPROM_CRC (image_bytes mem) n"
proof -
  define p where "p = a - (EEPROM_APP + 8)"
  define q where "q = n - (p + length bs)"
  have n: "n = p + (length bs + q)" and a: "a = EEPROM_APP + 8 + p" using assms(4,5) by (auto simp: p_def q_def)
  have "read_bytes m (EEPROM_APP + 8) n =
      read_bytes m (EEPROM_APP + 8) p @ read_bytes m a (length bs) @ read_bytes m (a + length bs) q" for m
    unfolding n a read_bytes_split by (simp add: add.assoc)
  moreover have "read_bytes (set_bytes a bs mem) (EEPROM_APP + 8) p = read_bytes mem (EEPROM_APP + 8) p"
    "read_bytes (set_bytes a bs mem) (a + length bs) q = read_bytes mem (a + length bs) q"
    using a by (auto intro: read_bytes_other)
  ultimately show ?thesis
    using crc_bytes_burst [of bs "read_bytes mem a (length bs)"] assms(1,2)
    by (simp add: EEPROM_CRC_image [OF assms(3)])
qed

lemma damaged_missing:
  assumes "\<not> image_missing mem" "bs \<noteq> read_bytes mem a (length bs)" "length bs \<le> 4"
    and "EEPROM_APP + 8 \<le> a" "a + length bs \<le> EEPROM_APP + 8 + unat (word_at mem (EEPROM_APP + 4))"
  shows "image_missing (set_bytes a bs mem)"
proof -
  let ?n = "unat (word_at mem (EEPROM_APP + 4))"
  have n: "?n \<le> 2040" and crc: "word_at mem EEPROM_APP = EEPROM_CRC (image_bytes mem) ?n"
    using assms(1) by (auto simp: image_missing_def Let_def EEPROM_APP_def EEPROM_APP_END_def word_less_nat_alt not_less)
  have "word_at (set_bytes a bs mem) EEPROM_APP = word_at mem EEPROM_APP"
    "word_at (set_bytes a bs mem) (EEPROM_APP + 4) = word_at mem (EEPROM_APP + 4)"
    using assms(4) by (auto intro: word_at_other)
  then show ?thesis
    using CRC_damaged [OF assms(2,3) n assms(4,5)] crc by (simp add: image_missing_def Let_def)
qed

section \<open>The upper humidity threshold\<close>

lemma zigzag_nonneg:
  fixes t :: uint32
  assumes "0 \<le> sint t"
  shows "ucast (PBEncodeSInt (scast t)) = 2 * t"
proof (rule bit_word_eqI)
  have s: "\<not> bit t 31" using assms bit_last_iff [of t] by simp
  have "2 * t = push_bit 1 t" by (simp add: push_bit_eq_mult)
  moreover fix n assume "n < LENGTH(32)"
  ultimately show "bit (ucast (PBEncodeSInt (scast t)) :: uint32) n = bit (2 * t) n"
    using s by (auto simp: bit_PBEncodeSInt bit_simps)
qed

lemma restore_humidity:
  assumes "config_wf c" "region c = LORAMAC_REGION_EU868 \<or> region c = LORAMAC_REGION_US915"
    and "use_hdc2080 (useSensor c)" "hdc2080_mode c = HDC2080_HUMIDITY_HIGH" "0 \<le> sint (hdc2080_threshold c)"
  shows "\<exists>c'. apply_fields (eeprom_action STX) (save_fields STX c) c0 = Some c' \<and>
    hdc2080_threshold c' = 2 * hdc2080_threshold c \<and> hdc2080_mode c' = HDC2080_HUMIDITY_HIGH"
proof -
  have ne: "HDC2080_HUMIDITY_HIGH \<noteq> HDC2080_TEMPERATURE_HIGH" "HDC2080_HUMIDITY_HIGH \<noteq> HDC2080_TEMPERATURE_LOW"
    by (simp_all add: hdc2080_modes)
  have hdc: "apply_fields (eeprom_action STX)
      [(PBMSG_BX_SENSOR_HUMIDITY_UPPER_THRESHOLD, VaU64 (PBEncodeSInt (scast (hdc2080_threshold c))))] c1 =
    Some (load_hdc2080 (PBEncodeSInt (scast (hdc2080_threshold c))) HDC2080_HUMIDITY_HIGH c1)" for c1
    by (simp add: apply_field_def eeprom_action_def load_sensor_field_def config_key_values)
  have stx: "stx_save_fields c =
      [(PBMSG_BX_SENSOR_HUMIDITY_UPPER_THRESHOLD, VaU64 (PBEncodeSInt (scast (hdc2080_threshold c))))] @
      (if use_sfh7776 (useSensor c) then
         [(PBMSG_BX_SENSOR_LUMINANCE_UPPER_THRESHOLD, va_cast (sfh7776_threshold_upper c)),
          (PBMSG_BX_SENSOR_LUMINANCE_LOWER_THRESHOLD, va_cast (sfh7776_threshold_lower c))] else []) @
      (if use_bma400 (useSensor c) then
         [(PBMSG_BX_SENSOR_AXIS_THRESHOLD, va_cast (bma400_threshold c)),
          (PBMSG_BX_SENSOR_AXIS_CONFIGURE, va_cast (bma400_config c))] else [])"
    unfolding stx_save_fields_def using assms(3,4) ne by simp
  note r = hdc restore_sfh_bma apply_fields.simps(1)
  show ?thesis
    unfolding save_fields_def family.case stx apply_fields_append restore_lora [OF assms(1,2)]
    by (cases "use_sfh7776 (useSensor c)"; cases "use_bma400 (useSensor c)"; simp only: if_True if_False r bind.simps)
      (simp_all add: load_hdc2080_def zigzag_nonneg assms(5))
qed

section \<open>Properties\<close>

text \<open>When the flash accepts every word, \<open>EEPROM_Save\<close> leaves the checksum and the
  length of the encoded configuration at \<open>EEPROM_APP\<close>, the encoding after them, and changes nothing outside these
  at most 180 bytes; what it leaves passes the check of \<open>EEPROM_Load\<close>, and the contents of the
  uninitialised stack buffer do not matter.\<close>

theorem EEPROM_Save_image:
  assumes "config_storable fam c" "length stack = 256"
  shows "\<exists>mem'. EEPROM_Save fam sound stack c mem = Some mem' \<and> \<not> image_missing mem' \<and>
    (\<exists>post. image_bytes mem' = config_image fam c @ post) \<and>
    word_at mem' (EEPROM_APP + 4) = of_nat (length (config_image fam c)) \<and>
    (\<forall>x. x < EEPROM_APP \<or> EEPROM_APP + 180 \<le> x \<longrightarrow> mem' x = mem x)"
proof -
  have len: "length (config_image fam c) \<le> 169" using length_image [OF assms(1)] by simp
  then have "4 * ((length (config_image fam c) + 3) div 4) \<le> 172" by presburger
  then have "\<forall>x. x < EEPROM_APP \<or> EEPROM_APP + 180 \<le> x \<longrightarrow> saved_memory (config_image fam c) mem x = mem x"
    using len by (auto simp: saved_memory_def set_bytes_def)
  then show ?thesis
    using EEPROM_Save_memory [OF assms] image_valid [OF assms(1)] saved_words [of "config_image fam c" mem] len by simp
qed

text \<open>C33. What \<open>EEPROM_Save\<close> stores, \<open>EEPROM_Load\<close> of the next boot restores: every stored setting of
  the family has its old value, the others keep what they have, and all the change flags are raised so
  that the settings are applied. The humidity modes of a multi sensor (STX) are excluded: there the threshold
  does not have its old value (\<open>humidity_threshold_doubles\<close>).\<close>

theorem EEPROM_roundtrip:
  assumes "config_storable fam c" "fam = STX \<longrightarrow> \<not> humidity_mode c" "length stack = 256"
  shows "\<exists>mem'. EEPROM_Save fam sound stack c mem = Some mem' \<and>
    EEPROM_Load fam ok uid stack' c0 mem' =
      Some (Stop (Loaded ((restored fam c c0)\<lparr>changed := all_changes\<rparr>) mem'))"
  using EEPROM_Load_saved [OF assms, of mem ok uid stack' c0] EEPROM_Save_memory [OF assms(1,3)] by simp

text \<open>On a memory without a valid image, \<open>EEPROM_Load\<close> takes the defaults with the
  device EUI of the chip, and stores them.\<close>

theorem EEPROM_first_boot:
  assumes "image_missing mem" "BoardGetUniqueId w0 w1 w2 = Some e" "length stack = 256"
    and "config_storable fam (c\<lparr>devEui := e\<rparr>)" "fam = STX \<longrightarrow> \<not> humidity_mode c"
  shows "\<exists>mem'. EEPROM_Load fam sound (w0, w1, w2) stack c mem =
      Some (Stop (Loaded (c\<lparr>devEui := e, changed := all_changes\<rparr>) mem')) \<and> \<not> image_missing mem'"
proof -
  have "fam = STX \<longrightarrow> \<not> humidity_mode (c\<lparr>devEui := e\<rparr>)" using assms(5) by (simp add: humidity_mode_def)
  note l = load_saved [OF assms(4) restore_fields [OF assms(4) this], of mem "c\<lparr>devEui := e\<rparr>", unfolded restored_self]
  show ?thesis
    using assms(1,2) l image_valid [OF assms(4), of mem]
    by (simp add: EEPROM_Load_def load_prepare_def EEPROM_Save_memory [OF assms(4,3)])
qed

text \<open>C35. An image whose message was damaged in up to four adjacent bytes is rejected,
  whatever the damage.\<close>

theorem EEPROM_damage_detected:
  assumes "\<not> image_missing mem" "bs \<noteq> read_bytes mem a (length bs)" "length bs \<le> 4"
    and "EEPROM_APP + 8 \<le> a" "a + length bs \<le> EEPROM_APP + 8 + unat (word_at mem (EEPROM_APP + 4))"
  shows "image_missing (set_bytes a bs mem)"
  using assms by (rule damaged_missing)

text \<open>When \<open>EEPROM_Load\<close> gives up on an image and reboots, it has erased the image, so
  the next boot starts from the defaults instead of rebooting again.\<close>

theorem EEPROM_reboot_invalidates:
  assumes "EEPROM_Load fam sound uid stack c mem = Some (Stop (Rebooted mem'))"
  shows "image_missing mem'"
proof -
  obtain mem1 where "mem' = HW_EraseEEPROM sound (EEPROM_APP + 4) (HW_EraseEEPROM sound EEPROM_APP mem1)"
    using assms by (auto simp: EEPROM_Load_def split: option.splits outcome.splits if_splits)
  then have "word_at mem' (EEPROM_APP + 4) = 0"
    by (simp add: HW_EraseEEPROM_def hal_erase_def word_at_set_bytes)
  then show ?thesis by (simp add: image_missing_def Let_def)
qed

text \<open>The upper humidity threshold does not survive a reboot: it is saved zigzag encoded and read
  as a plain integer, so every reboot doubles it.\<close>

theorem humidity_threshold_doubles:
  assumes "config_storable STX c" "use_hdc2080 (useSensor c)" "hdc2080_mode c = HDC2080_HUMIDITY_HIGH"
    and "0 \<le> sint (hdc2080_threshold c)" "length stack = 256"
  shows "\<exists>mem' c'. EEPROM_Save STX sound stack c mem = Some mem' \<and>
    EEPROM_Load STX ok uid stack' c0 mem' = Some (Stop (Loaded c' mem')) \<and>
    hdc2080_threshold c' = 2 * hdc2080_threshold c \<and> hdc2080_mode c' = HDC2080_HUMIDITY_HIGH"
proof -
  have wf: "config_wf c" "region c = LORAMAC_REGION_EU868 \<or> region c = LORAMAC_REGION_US915"
    using assms(1) by (simp_all add: config_storable_def)
  obtain c1 where c1: "apply_fields (eeprom_action STX) (save_fields STX c) c0 = Some c1"
    "hdc2080_threshold c1 = 2 * hdc2080_threshold c" "hdc2080_mode c1 = HDC2080_HUMIDITY_HIGH"
    using restore_humidity [OF wf assms(2-4)] by blast
  show ?thesis
    using image_valid [OF assms(1), of mem] load_saved [OF assms(1) c1(1), of mem] c1(2,3)
    by (simp add: EEPROM_Save_memory [OF assms(1,5)] EEPROM_Load_def load_prepare_def)
qed

definition humid_config :: DeviceConfig where
  "humid_config = DevCfg_default\<lparr>hdc2080_mode := HDC2080_HUMIDITY_HIGH, hdc2080_threshold := 60000,
     useSensor := \<lparr>use_bma400 = False, use_sfh7776 = False, use_hdc2080 = True\<rparr>\<rparr>"

theorem humidity_threshold_doubles_witness:
  "\<exists>mem' c'. EEPROM_Save STX sound (replicate 256 7) humid_config (\<lambda>_. 0) = Some mem' \<and>
    EEPROM_Load STX sound (0, 0, 0) [] DevCfg_default mem' = Some (Stop (Loaded c' mem')) \<and>
    hdc2080_threshold c' = 120000"
proof -
  have c: "config_storable STX humid_config" by code_simp
  show ?thesis
    using humidity_threshold_doubles [OF c, of "replicate 256 7" "\<lambda>_. 0" sound "(0, 0, 0)" "[]" DevCfg_default]
    by (simp add: humid_config_def) blast
qed

text \<open>Saving a configuration with a lower humidity threshold is undefined
  behaviour: the 32-bit threshold is passed where \<open>PBEncodeField\<close> fetches a 64-bit argument.\<close>

theorem humidity_threshold_save_undefined:
  assumes "use_hdc2080 (useSensor c)" "hdc2080_mode c = HDC2080_HUMIDITY_LOW"
  shows "EEPROM_Save STX ok stack c mem = None"
proof -
  have bad: "PBEncodeMsgField len' (key, VaU32 x) st = None" if "key AND 7 = 0" for len' key x st
    using that by (cases st) (auto simp: PBEncodeMsgField_def PBEncodeField_def Let_def)
  have "encode_fields 256 (stx_save_fields c) st = None" for st
    using assms by (auto simp: stx_save_fields_def bad config_key_values hdc2080_modes)
  then show ?thesis by (simp add: EEPROM_Save_def save_fields_def encode_fields_append split: Option.bind_split)
qed

theorem humidity_threshold_save_undefined_witness:
  "EEPROM_Save STX sound [] (humid_config\<lparr>hdc2080_mode := HDC2080_HUMIDITY_LOW\<rparr>) (\<lambda>_. 0) = None"
  by (rule humidity_threshold_save_undefined) (simp_all add: humid_config_def)

section \<open>Witnesses\<close>

lemma storable_examples: "config_storable STA DevCfg_default" "config_storable STX DevCfg_default"
  by code_simp+

theorem EEPROM_Save_image_witness:
  "\<exists>mem'. EEPROM_Save STA sound (replicate 256 7) DevCfg_default (\<lambda>_. 0) = Some mem' \<and> \<not> image_missing mem'"
  using EEPROM_Save_image [OF storable_examples(1), of "replicate 256 7" "\<lambda>_. 0"] by auto

theorem EEPROM_roundtrip_witness:
  "\<exists>mem' c'. EEPROM_Save STA sound (replicate 256 7) (DevCfg_default\<lparr>txPort := 9, longCount := 200\<rparr>) (\<lambda>_. 0) = Some mem' \<and>
    EEPROM_Load STA sound (0, 0, 0) [] DevCfg_default mem' = Some (Stop (Loaded c' mem')) \<and>
    txPort c' = 9 \<and> longCount c' = 200 \<and> lrw (changed c')"
proof -
  have c: "config_storable STA (DevCfg_default\<lparr>txPort := 9, longCount := 200\<rparr>)" by code_simp
  show ?thesis
    using EEPROM_roundtrip [OF c, of "replicate 256 7" "\<lambda>_. 0" sound "(0, 0, 0)" "[]" DevCfg_default]
    by (auto simp: restored_def all_changes_def)
qed

lemma blank_missing: "image_missing (\<lambda>_. 0)"
proof -
  have "le32 0 = replicate 4 0" by code_simp
  then have "read_bytes (\<lambda>_. 0) a 4 = le32 0" for a by (simp add: read_bytes_def map_replicate_const)
  then have "word_at (\<lambda>_. 0) a = 0" for a by (simp add: word_at_def)
  then show ?thesis by (simp add: image_missing_def Let_def)
qed

theorem EEPROM_first_boot_witness:
  "\<exists>mem'. EEPROM_Load STX sound (0x0F473132, 0x33343536, 0x00110022) (replicate 256 7) DevCfg_default (\<lambda>_. 0) =
     Some (Stop (Loaded (DevCfg_default\<lparr>devEui := [0x22, 0x11, 0x47, 0, 0x0F, 0x40, 0xE2, 1], changed := all_changes\<rparr>) mem'))"
proof -
  have uid: "BoardGetUniqueId 0x0F473132 0x33343536 0x00110022 = Some [0x22, 0x11, 0x47, 0, 0x0F, 0x40, 0xE2, 1]"
    by code_simp
  have c: "config_storable STX (DevCfg_default\<lparr>devEui := [0x22, 0x11, 0x47, 0, 0x0F, 0x40, 0xE2, 1]\<rparr>)"
    by code_simp
  show ?thesis
    using EEPROM_first_boot [OF blank_missing uid _ c, of "replicate 256 7"]
    by (auto simp: humidity_mode_def DevCfg_default_def)
qed

theorem EEPROM_damage_detected_witness:
  "\<exists>mem. \<not> image_missing mem \<and> image_missing (set_bytes (EEPROM_APP + 8) [0x55] mem)"
proof -
  let ?mem = "saved_memory (config_image STA DevCfg_default) (\<lambda>_. 0)"
  note len = length_image [OF storable_examples(1)]
  have w: "word_at ?mem (EEPROM_APP + 4) = of_nat (length (config_image STA DevCfg_default))"
    using saved_words(2) len by simp
  have "read_bytes ?mem (EEPROM_APP + 8) 1 = take 1 (read_bytes ?mem (EEPROM_APP + 8) (length (config_image STA DevCfg_default)))"
    using len by (simp add: take_read_bytes)
  also have "\<dots> = [0]" unfolding saved_memory_def by simp (simp add: config_image_def)
  finally have "read_bytes ?mem (EEPROM_APP + 8) 1 = [0]" .
  moreover have v: "\<not> image_missing ?mem" by (rule image_valid [OF storable_examples(1)])
  ultimately show ?thesis
    using EEPROM_damage_detected [OF v, of "[0x55]" "EEPROM_APP + 8"] len
    by (auto simp: w unsigned_of_nat take_bit_nat_eq_self)
qed

theorem EEPROM_reboot_invalidates_witness:
  "\<exists>mem mem'. EEPROM_Load STA sound (0, 0, 0) [] DevCfg_default mem = Some (Stop (Rebooted mem')) \<and>
    image_missing mem'"
proof -
  let ?img = "replicate 10 0 :: bytes" let ?mem = "saved_memory ?img (\<lambda>_. 0)"
  obtain post where post: "image_bytes ?mem = ?img @ post" using saved_words(3) [of ?img] by auto
  have "word_at ?mem (EEPROM_APP + 4) = 10" using saved_words(2) [of ?img] by simp
  moreover have "\<not> image_missing ?mem" by (rule saved_valid) simp_all
  moreover have "eeprom_rem 10 1 \<noteq> 0" by code_simp
  moreover have "read_field (eeprom_rem 10) (?img @ post) 1 = FieldAbort"
    by (simp add: read_field_def read_key_def Let_def nth_append)
  ultimately have "\<exists>mem'. EEPROM_Load STA sound (0, 0, 0) [] DevCfg_default ?mem = Some (Stop (Rebooted mem'))"
    by (simp add: EEPROM_Load_def load_prepare_def post kv_loop.simps [of _ _ _ 1])
  then show ?thesis using EEPROM_reboot_invalidates by blast
qed

end
