(* ===== verification/Nfc_Session.thy ===== *)
theory Nfc_Session
  imports Nfc_Decode Config_Encode Eeprom_Memory
begin

unbundle bit_operations_syntax

text \<open>
  The interrupt routine of the NFC chip (\<open>NFCISR\<close> of \<^verbatim>\<open>src/Src/isr.c\<close>): it keeps the password session,
  reads a frame from the mailbox of the chip, dispatches it and replies. The world outside is the
  record \<open>nfc_env\<close>: the clocks, the registers and the mailbox of the chip, whether the transfers
  succeed (\<open>NFC_ReadReg\<close>), the sensor readings, and what the uninitialised buffer holds. What the
  routine writes to the mailbox is its list of replies. Debug output is left out, and so is the wait of
  at most 30 s for the phone to fetch the answer to a factory reset, which changes no state.
\<close>

section \<open>State and environment\<close>

record isr_state =
  pw_valid :: bool
  pw_timestamp :: uint32
  nfc_activity :: uint32
  isr_cfg :: DeviceConfig
  isr_mac :: mac
  isr_mem :: memory

record nfc_env =
  env_tick :: uint32                  \<comment> \<open>\<open>HAL_GetTick\<close>\<close>
  env_ms :: "nat \<Rightarrow> uint32"            \<comment> \<open>the results of the calls of \<open>HW_RTCGetMsTime\<close>\<close>
  env_regs_ok :: bool
  env_it_sts :: uint8
  env_mb_len :: uint8
  env_mail_ok :: bool
  env_mail :: "nat \<Rightarrow> uint8"
  env_stack :: "nat \<Rightarrow> uint8"
  env_readings :: readings
  env_flash :: "nat \<Rightarrow> bool"

record isr_result =
  res_state :: isr_state
  res_replies :: "bytes list"
  res_reset :: bool

definition MB_R2HFIRMWAREUPDATE :: uint8 where "MB_R2HFIRMWAREUPDATE = 0x04"
definition MB_R2HPRESENTPASSWORD :: uint8 where "MB_R2HPRESENTPASSWORD = 0x08"
definition MB_R2HCHANGEPASSWORD :: uint8 where "MB_R2HCHANGEPASSWORD = 0x10"
definition MB_R2HGETCONFIG :: uint8 where "MB_R2HGETCONFIG = 0x20"
definition MB_R2HSETCONFIG :: uint8 where "MB_R2HSETCONFIG = 0x21"
definition MB_R2HGETSENSOR :: uint8 where "MB_R2HGETSENSOR = 0x22"
definition MB_R2HFACTORYRESET :: uint8 where "MB_R2HFACTORYRESET = 0xFF"
definition MB_DATA :: nat where "MB_DATA = 5"
definition NFC_PWTIMEOUT :: uint32 where "NFC_PWTIMEOUT = 120000"
definition ST25DV_PASSWORD :: uint32 where "ST25DV_PASSWORD = 0x78563412"

lemmas mb_codes = MB_R2HFIRMWAREUPDATE_def MB_R2HPRESENTPASSWORD_def MB_R2HCHANGEPASSWORD_def
  MB_R2HGETCONFIG_def MB_R2HSETCONFIG_def MB_R2HGETSENSOR_def MB_R2HFACTORYRESET_def

definition isr_done :: "isr_state \<Rightarrow> bytes list \<Rightarrow> isr_result outcome option" where
  "isr_done s replies = Some (Stop \<lparr>res_state = s, res_replies = replies, res_reset = False\<rparr>)"

section \<open>The frames\<close>

definition isr_buffer :: "nfc_env \<Rightarrow> bytes" where
  \<comment> \<open>\<open>nfc.mb\<close> after both reads\<close>
  "isr_buffer env = map (\<lambda>i. if i \<le> unat (env_mb_len env) then env_mail env i else env_stack env i) [0..<256]"

definition isr_answer :: "uint8 \<Rightarrow> bool \<Rightarrow> bytes" where
  "isr_answer code ok = [code, 1, (if ok then 0 else 3), 0, 0]"

definition isr_get :: "family \<Rightarrow> nfc_env \<Rightarrow> bytes \<Rightarrow> isr_state \<Rightarrow> isr_result outcome option" where
  "isr_get fam env mb s =
    (let is_conf = (mb ! 0 = MB_R2HGETCONFIG \<and> (mb ! 4 = 0 \<or> mb ! MB_DATA = 0)) in
     if unat (env_mb_len env) + 1 < MB_DATA then isr_done s []
     else if mb ! 4 > 1 then isr_done s []
     else if take 3 (drop 1 mb) \<noteq> [0, 0, 0] then isr_done s []
     else case (if is_conf
                then PBEncodeMsg_DeviceConfiguration fam (isr_cfg s) (isr_mac s) (pw_valid s) (drop MB_DATA mb) 251
                else PBEncodeMsg_DeviceSensors fam (isr_cfg s) (env_readings env) (drop MB_DATA mb) 251) of
            None \<Rightarrow> Some Undef
          | Some (out, n) \<Rightarrow>
              let len = of_nat n :: uint8 in
              if \<not> unat len \<le> 251 then Some Undef  \<comment> \<open>the assertion\<close>
              else isr_done s [take (unat len + MB_DATA) ([mb ! 0, 1, mb ! 2, mb ! 3, len] @ out)])"

definition isr_set_config :: "family \<Rightarrow> nfc_env \<Rightarrow> bytes \<Rightarrow> isr_state \<Rightarrow> isr_result outcome option" where
  "isr_set_config fam env mb s =
    (case PBDecodeMsg fam (drop MB_DATA mb) (env_mb_len env + 1 - 5) (isr_cfg s) of
       None \<Rightarrow> None
     | Some Undef \<Rightarrow> Some Undef
     | Some (Stop (c, reqs)) \<Rightarrow>
         isr_done (s\<lparr>isr_cfg := c, isr_mac := foldl (\<lambda>m r. mib_put r m) (isr_mac s) reqs\<rparr>)
           [isr_answer MB_R2HSETCONFIG (pw_valid s)])"

definition isr_present_password :: "nfc_env \<Rightarrow> bytes \<Rightarrow> isr_state \<Rightarrow> isr_result outcome option" where
  "isr_present_password env mb s =
    (if unat (env_mb_len env) + 1 \<noteq> 9 then isr_done s []
     else let mb1 = (if mb ! 1 = 1 then mb[1 := 0] else mb) in
       if take 5 mb1 \<noteq> [MB_R2HPRESENTPASSWORD, 0, 0, 0, 4] then isr_done s []
       else let ok = (read_bytes (isr_mem s) EEPROM_PW 4 = take 4 (drop MB_DATA mb1))
            in isr_done (s\<lparr>pw_valid := ok, pw_timestamp := env_ms env 2\<rparr>) [isr_answer MB_R2HPRESENTPASSWORD ok])"

definition isr_change_password :: "nfc_env \<Rightarrow> bytes \<Rightarrow> isr_state \<Rightarrow> isr_result outcome option" where
  "isr_change_password env mb s =
    (if unat (env_mb_len env) + 1 \<noteq> 9 then isr_done s []
     else if take 5 mb \<noteq> [MB_R2HCHANGEPASSWORD, 0, 0, 0, 4] then isr_done s []
     else let replies = [isr_answer MB_R2HCHANGEPASSWORD (pw_valid s)] in
       if \<not> pw_valid s then isr_done s replies
       else isr_done (s\<lparr>isr_mem := HW_ChangePW (env_flash env) (of_le32 (take 4 (drop MB_DATA mb))) (isr_mem s)\<rparr>) replies)"

definition isr_factory_reset :: "nfc_env \<Rightarrow> bytes \<Rightarrow> isr_state \<Rightarrow> isr_result outcome option" where
  "isr_factory_reset env mb s =
    (if unat (env_mb_len env) + 1 \<noteq> 5 then isr_done s []
     else if take 5 mb \<noteq> [MB_R2HFACTORYRESET, 0, 0, 0, 0] then isr_done s []
     else Some (Stop \<lparr>res_state = s\<lparr>isr_mem := erase_words (env_flash env) 0 1536 (isr_mem s)\<rparr>,
            res_replies = [isr_answer MB_R2HFACTORYRESET True], res_reset = True\<rparr>))"

definition isr_frame :: "family \<Rightarrow> nfc_env \<Rightarrow> bytes \<Rightarrow> isr_state \<Rightarrow> isr_result outcome option" where
  "isr_frame fam env mb s =
    (if mb ! 0 = MB_R2HGETCONFIG \<or> mb ! 0 = MB_R2HGETSENSOR then isr_get fam env mb s
     else if mb ! 0 = MB_R2HSETCONFIG then isr_set_config fam env mb s
     else if mb ! 0 = MB_R2HPRESENTPASSWORD then isr_present_password env mb s
     else if mb ! 0 = MB_R2HCHANGEPASSWORD then isr_change_password env mb s
     else if mb ! 0 = MB_R2HFACTORYRESET then isr_factory_reset env mb s
     else isr_done s [])"

section \<open>The interrupt routine\<close>

definition isr_default_password :: "nfc_env \<Rightarrow> isr_state \<Rightarrow> isr_state" where
  "isr_default_password env s =
    (if NOT (word_at (isr_mem s) EEPROM_PW) \<noteq> word_at (isr_mem s) EEPROM_PW_COMPLEMENT
     then s\<lparr>isr_mem := HW_ChangePW (env_flash env) ST25DV_PASSWORD (isr_mem s)\<rparr> else s)"

definition isr_timeout :: "nfc_env \<Rightarrow> isr_state \<Rightarrow> isr_state" where
  "isr_timeout env s =
    (if pw_valid s \<and> (env_ms env 0 < pw_timestamp s \<or> env_ms env 1 \<ge> pw_timestamp s + NFC_PWTIMEOUT)
     then s\<lparr>pw_valid := False\<rparr> else s)"

definition isr_firmware_update :: "nfc_env \<Rightarrow> isr_state \<Rightarrow> isr_result outcome option" where
  "isr_firmware_update env s = Some (Stop \<lparr>res_state = s\<lparr>isr_mem :=
       HW_ProgramEEPROM (env_flash env) EEPROM_BOOTMODE 0x7 (HW_EraseEEPROM (env_flash env) EEPROM_BOOTMODE (isr_mem s))\<rparr>,
     res_replies = [], res_reset = True\<rparr>)"

definition NFCISR :: "family \<Rightarrow> nfc_env \<Rightarrow> isr_state \<Rightarrow> isr_result outcome option" where
  "NFCISR fam env s0 =
    (let s = isr_timeout env (isr_default_password env (s0\<lparr>nfc_activity := env_tick env\<rparr>)) in
     if \<not> env_regs_ok env then isr_done s []
     else if env_it_sts env AND 0x20 = 0 \<or> env_mb_len env = 0 then isr_done s []
     else if pw_valid s \<and> env_mail env 0 = MB_R2HFIRMWAREUPDATE then isr_firmware_update env s
     else if \<not> env_mail_ok env then isr_done s []
     else isr_frame fam env (isr_buffer env) s)"

section \<open>What a frame can do\<close>

lemma isr_done_iff [simp]: "isr_done s rs = Some (Stop r) \<longleftrightarrow> r = \<lparr>res_state = s, res_replies = rs, res_reset = False\<rparr>"
  by (auto simp: isr_done_def)

lemma isr_done_neq [simp]: "isr_done s rs \<noteq> None" "isr_done s rs \<noteq> Some Undef"
  by (simp_all add: isr_done_def)

definition correct_password :: "nfc_env \<Rightarrow> isr_state \<Rightarrow> bool" where
  \<comment> \<open>the mailbox presents the password in the EEPROM\<close>
  "correct_password env s \<longleftrightarrow> env_mail env 0 = MB_R2HPRESENTPASSWORD \<and> env_mb_len env = 8 \<and>
     map (env_mail env) [5..<9] = read_bytes (isr_mem s) EEPROM_PW 4"

lemma isr_buffer_nth: "i < 256 \<Longrightarrow> isr_buffer env ! i = (if i \<le> unat (env_mb_len env) then env_mail env i else env_stack env i)"
  by (simp add: isr_buffer_def)

lemma length_isr_buffer [simp]: "length (isr_buffer env) = 256"
  by (simp add: isr_buffer_def)

lemma isr_get_state:
  "isr_get fam env mb s = Some (Stop r) \<Longrightarrow> res_state r = s \<and> \<not> res_reset r"
  by (auto simp: isr_get_def Let_def split: if_splits option.splits)

lemma isr_set_config_state:
  assumes "isr_set_config fam env mb s = Some (Stop r)"
  obtains m c where "res_state r = s\<lparr>isr_cfg := c, isr_mac := m\<rparr>" "\<not> res_reset r" "tracked (isr_cfg s) c"
proof -
  obtain c reqs where "PBDecodeMsg fam (drop MB_DATA mb) (env_mb_len env + 1 - 5) (isr_cfg s) = Some (Stop (c, reqs))"
    "r = \<lparr>res_state = s\<lparr>isr_cfg := c, isr_mac := foldl (\<lambda>m r. mib_put r m) (isr_mac s) reqs\<rparr>,
       res_replies = [isr_answer MB_R2HSETCONFIG (pw_valid s)], res_reset = False\<rparr>"
    using assms unfolding isr_set_config_def isr_done_iff by (auto split: option.splits outcome.splits)
  with that PBDecodeMsg_tracked_all [of fam _ _ "isr_cfg s" c reqs] show ?thesis by fastforce
qed

lemma isr_present_password_state:
  assumes "isr_present_password env (isr_buffer env) s = Some (Stop r)" "env_mail env 0 = MB_R2HPRESENTPASSWORD"
  shows "\<not> res_reset r \<and> (res_state r = s \<or> (\<exists>b. res_state r = s\<lparr>pw_valid := b, pw_timestamp := env_ms env 2\<rparr> \<and>
    (b \<longrightarrow> correct_password env s)))"
proof -
  have "take 4 (drop 5 (isr_buffer env)) = map (env_mail env) [5..<9]" if "unat (env_mb_len env) + 1 = 9"
    using that by (intro nth_equalityI) (auto simp: isr_buffer_nth numeral_eq_Suc less_Suc_eq)
  moreover have "drop 5 ((isr_buffer env)[1 := 0]) = drop 5 (isr_buffer env)" by simp
  moreover have "env_mb_len env = 8" if "unat (env_mb_len env) + 1 = 9"
    using that by (simp add: word_unat_eq_iff)
  ultimately show ?thesis
    using assms by (auto simp: isr_present_password_def Let_def MB_DATA_def correct_password_def split: if_splits)
qed

lemma isr_change_password_state:
  assumes "isr_change_password env mb s = Some (Stop r)"
  shows "\<not> res_reset r \<and> (res_state r = s \<or> pw_valid s \<and>
    res_state r = s\<lparr>isr_mem := HW_ChangePW (env_flash env) (of_le32 (take 4 (drop MB_DATA mb))) (isr_mem s)\<rparr>)"
  using assms by (auto simp: isr_change_password_def Let_def split: if_splits)

lemma isr_factory_reset_state:
  assumes "isr_factory_reset env mb s = Some (Stop r)"
  shows "res_state r = s \<and> \<not> res_reset r \<or>
    res_reset r \<and> res_state r = s\<lparr>isr_mem := erase_words (env_flash env) 0 1536 (isr_mem s)\<rparr>"
  using assms by (auto simp: isr_factory_reset_def split: if_splits)

lemma isr_buffer_0 [simp]: "isr_buffer env ! 0 = env_mail env 0"
  by (simp add: isr_buffer_nth)

text \<open>The effect of one frame, by cases of what it may change.\<close>

lemma isr_frame_cases:
  assumes "isr_frame fam env (isr_buffer env) s = Some (Stop r)"
  obtains (same) "res_state r = s" "\<not> res_reset r"
  | (config) c m where "res_state r = s\<lparr>isr_cfg := c, isr_mac := m\<rparr>" "\<not> res_reset r" "tracked (isr_cfg s) c"
      "env_mail env 0 = MB_R2HSETCONFIG"
  | (session) b where "res_state r = s\<lparr>pw_valid := b, pw_timestamp := env_ms env 2\<rparr>" "\<not> res_reset r"
      "b \<Longrightarrow> correct_password env s"
  | (password) pw where "pw_valid s" "res_state r = s\<lparr>isr_mem := HW_ChangePW (env_flash env) pw (isr_mem s)\<rparr>"
      "\<not> res_reset r" "env_mail env 0 = MB_R2HCHANGEPASSWORD"
  | (reset) "res_reset r" "env_mail env 0 = MB_R2HFACTORYRESET"
      "res_state r = s\<lparr>isr_mem := erase_words (env_flash env) 0 1536 (isr_mem s)\<rparr>"
proof -
  let ?mb = "isr_buffer env"
  consider "isr_get fam env ?mb s = Some (Stop r)"
    | "env_mail env 0 = MB_R2HSETCONFIG" "isr_set_config fam env ?mb s = Some (Stop r)"
    | "env_mail env 0 = MB_R2HPRESENTPASSWORD" "isr_present_password env ?mb s = Some (Stop r)"
    | "env_mail env 0 = MB_R2HCHANGEPASSWORD" "isr_change_password env ?mb s = Some (Stop r)"
    | "env_mail env 0 = MB_R2HFACTORYRESET" "isr_factory_reset env ?mb s = Some (Stop r)"
    | "isr_done s [] = Some (Stop r)"
    using assms by (simp add: isr_frame_def split: if_splits)
  then show ?thesis
  proof cases
    case 1 then show ?thesis using isr_get_state same by blast
  next
    case 2 then show ?thesis using isr_set_config_state config by metis
  next
    case 3 then show ?thesis using isr_present_password_state same session by blast
  next
    case 4 then show ?thesis using isr_change_password_state same password by blast
  next
    case 5 then show ?thesis using isr_factory_reset_state same reset by blast
  next
    case 6 then show ?thesis using same by simp
  qed
qed

section \<open>What an interrupt can do\<close>

definition isr_entry :: "nfc_env \<Rightarrow> isr_state \<Rightarrow> isr_state" where
  "isr_entry env s = isr_timeout env (isr_default_password env (s\<lparr>nfc_activity := env_tick env\<rparr>))"

definition stored_mem :: "nfc_env \<Rightarrow> isr_state \<Rightarrow> memory" where
  \<comment> \<open>the EEPROM after a missing password has been replaced by the default\<close>
  "stored_mem env s = isr_mem (isr_default_password env s)"

lemma isr_entry_simps:
  "isr_mem (isr_entry env s) = stored_mem env s" "isr_cfg (isr_entry env s) = isr_cfg s"
  "isr_mac (isr_entry env s) = isr_mac s"
  "pw_valid (isr_entry env s) \<Longrightarrow> pw_valid s"
  by (auto simp: isr_entry_def stored_mem_def isr_timeout_def isr_default_password_def split: if_splits)

lemma NFCISR_cases:
  assumes "NFCISR fam env s = Some (Stop r)"
  obtains (same) "res_state r = isr_entry env s" "\<not> res_reset r"
  | (update) "pw_valid (isr_entry env s)" "env_mail env 0 = MB_R2HFIRMWAREUPDATE" "res_reset r"
  | (frame) "isr_frame fam env (isr_buffer env) (isr_entry env s) = Some (Stop r)"
  using assms unfolding NFCISR_def Let_def isr_entry_def [symmetric]
  by (auto simp: isr_firmware_update_def split: if_splits)

lemma privilege_step:
  assumes "NFCISR fam env s = Some (Stop r)" "pw_valid (res_state r)" "\<not> res_reset r"
  shows "pw_valid s \<or> correct_password env (isr_entry env s)"
  using assms(1)
proof (cases rule: NFCISR_cases)
  case same
  then show ?thesis using assms(2) isr_entry_simps(4) by simp
next
  case update
  then show ?thesis using isr_entry_simps(4) by blast
next
  case frame
  then show ?thesis
    by (cases rule: isr_frame_cases) (use assms(2,3) isr_entry_simps(4) in auto)
qed

lemma unprivileged_memory:
  assumes "NFCISR fam env s = Some (Stop r)" "\<not> pw_valid s"
  shows "isr_mem (res_state r) = stored_mem env s \<and> \<not> res_reset r \<or>
    env_mail env 0 = MB_R2HFACTORYRESET \<and> res_reset r \<and> isr_mem (res_state r) = erase_words (env_flash env) 0 1536 (stored_mem env s)"
proof -
  have e: "\<not> pw_valid (isr_entry env s)" using assms(2) isr_entry_simps(4) by blast
  show ?thesis using assms(1)
  proof (cases rule: NFCISR_cases)
    case frame
    then show ?thesis by (cases rule: isr_frame_cases) (use e in \<open>auto simp: isr_entry_simps\<close>)
  qed (use e in \<open>auto simp: isr_entry_simps\<close>)
qed

section \<open>Sessions\<close>

definition password_stored :: "memory \<Rightarrow> bool" where
  "password_stored mem \<longleftrightarrow> NOT (word_at mem EEPROM_PW) = word_at mem EEPROM_PW_COMPLEMENT"

lemma stored_mem_id: "password_stored (isr_mem s) \<Longrightarrow> stored_mem env s = isr_mem s"
  by (simp add: stored_mem_def isr_default_password_def password_stored_def)

inductive nfc_run :: "family \<Rightarrow> isr_state \<Rightarrow> bool \<Rightarrow> isr_state \<Rightarrow> bool" for fam s0 where
  \<comment> \<open>The states after interrupts none of which presented the stored password. Between them the rest of the firmware may change the
    configuration, the stack and the EEPROM behind the first 16 bytes, which hold the boot mode and the password. The flag says
    whether an interrupt has reset the device; after that only \<open>pw_valid\<close> is known to have its initial value.\<close>
  start: "nfc_run fam s0 False s0"
| interrupt: "nfc_run fam s0 was_reset s \<Longrightarrow> NFCISR fam env s = Some (Stop r) \<Longrightarrow>
    \<not> correct_password env (isr_entry env s) \<Longrightarrow> \<not> res_reset r \<Longrightarrow> nfc_run fam s0 was_reset (res_state r)"
| elsewhere: "nfc_run fam s0 was_reset s \<Longrightarrow> pw_valid s' = pw_valid s \<Longrightarrow>
    (\<And>x. x < 16 \<Longrightarrow> isr_mem s' x = isr_mem s x) \<Longrightarrow> nfc_run fam s0 was_reset s'"
| reset: "nfc_run fam s0 was_reset s \<Longrightarrow> NFCISR fam env s = Some (Stop r) \<Longrightarrow>
    \<not> correct_password env (isr_entry env s) \<Longrightarrow> res_reset r \<Longrightarrow> \<not> pw_valid s' \<Longrightarrow> nfc_run fam s0 True s'"

inductive_simps nfc_run_start: "nfc_run fam s0 False s0"

lemma password_stored_cong: "(\<And>x. x < 16 \<Longrightarrow> mem' x = mem x) \<Longrightarrow> password_stored mem' = password_stored mem"
proof -
  assume "\<And>x. x < 16 \<Longrightarrow> mem' x = mem x"
  then have "read_bytes mem' a 4 = read_bytes mem a 4" if "a \<le> 12" for a using that by (simp add: read_bytes_def)
  then show ?thesis by (simp add: password_stored_def word_at_def EEPROM_PW_def EEPROM_PW_COMPLEMENT_def)
qed

lemma run_unprivileged:
  assumes "nfc_run fam s0 was_reset s" "\<not> pw_valid s0" "password_stored (isr_mem s0)"
  shows "\<not> pw_valid s \<and> (was_reset \<or> (\<forall>x<16. isr_mem s x = isr_mem s0 x))"
  using assms
proof (induction rule: nfc_run.induct)
  case (interrupt w s env r)
  then have "\<not> pw_valid s" "w \<or> (\<forall>x<16. isr_mem s x = isr_mem s0 x)" by simp_all
  moreover from this(2) have "w \<or> isr_mem (res_state r) = isr_mem s"
    using unprivileged_memory [OF interrupt.hyps(2) \<open>\<not> pw_valid s\<close>] interrupt.hyps(4) interrupt.prems(2)
      stored_mem_id [of s env] password_stored_cong [of "isr_mem s" "isr_mem s0"] by auto
  ultimately show ?case using privilege_step [OF interrupt.hyps(2)] interrupt.hyps(3,4) by auto
qed auto

section \<open>Replies\<close>

lemma length_info_fields: "length (fields_bytes (info_fields fam)) \<le> 8"
proof -
  have "length (fields_bytes (info_fields fam)) \<le> sum_list ([4, 4] :: nat list)"
    by (rule sum_list_bound, cases fam)
      (simp_all add: info_fields_def config_key_values length_small_field pbenum_values FIRMWARE_VERSION_def)
  then show ?thesis by simp
qed

lemma field_small_casts:
  assumes "key < 2 ^ 14" "key AND 7 = 0" "drop_bit 3 key \<noteq> 0"
  shows "length (field_bytes key (va_cast (w8 :: uint8))) \<le> 4" "length (field_bytes key (va_cast (w16 :: uint16))) \<le> 5"
    "length (field_bytes key (va_cast (w32 :: uint32))) \<le> 7" "length (field_bytes key (va_bool b)) \<le> 4"
    "length (field_bytes key (VaU64 x)) \<le> 12"
  using length_casts_field [OF assms] by (simp_all add: numeral_eq_Suc)

lemma length_lora_fields:
  assumes "mac_wf m"
  shows "length (fields_bytes (lora_fields c m s b)) \<le> 170"
proof -
  let ?ns = "[4, 10, 10, 19, 6, 19, 19, 4, 12, 4, 4, 12, 12, 4, 4, 4, 7, 4, 4] :: nat list"
  have "list_all2 (\<lambda>(key, ap) n. length (field_bytes key ap) \<le> n) (lora_fields c m s b) ?ns"
    using assms unfolding lora_fields_def config_key_values list_all2_Cons list_all2_Nil2
    by (intro conjI; simp only: prod.case)
      (rule field_small_casts length_other_fields; simp add: mac_wf_def)+
  from sum_list_bound [OF this] show ?thesis by simp
qed

lemma length_stx_fields:
  assumes "\<not> humidity_mode c"
  shows "length (fields_bytes (stx_fields c)) \<le> 34"
proof -
  have k: "length (field_bytes PBMSG_BX_SENSOR_TEMPERATURE_UPPER_THRESHOLD (VaU64 x)) \<le> 12"
    "length (field_bytes PBMSG_BX_SENSOR_TEMPERATURE_LOWER_THRESHOLD (VaU64 x)) \<le> 12"
    "length (field_bytes PBMSG_BX_SENSOR_LUMINANCE_UPPER_THRESHOLD (va_cast (w :: uint16))) \<le> 5"
    "length (field_bytes PBMSG_BX_SENSOR_LUMINANCE_LOWER_THRESHOLD (va_cast (w :: uint16))) \<le> 5"
    "length (field_bytes PBMSG_BX_SENSOR_AXIS_THRESHOLD (va_cast (v :: uint32))) \<le> 7"
    "length (field_bytes PBMSG_BX_SENSOR_AXIS_CONFIGURE (va_cast (w :: uint16))) \<le> 5" for x w v
    unfolding config_key_values by (rule field_small_casts; simp)+
  show ?thesis
    using k(1,2) [of "PBEncodeSInt (scast (hdc2080_threshold c))"] assms
      add_mono [OF k(3) [of "sfh7776_threshold_upper c"] k(4) [of "sfh7776_threshold_lower c"]]
      add_mono [OF k(5) [of "bma400_threshold c"] k(6) [of "bma400_config c"]]
    by (auto simp: stx_fields_def fields_bytes_Cons fields_bytes_append humidity_mode_def)
qed

lemma length_configuration:
  assumes "configuration_fields fam pw c m = Some fs" "mac_wf m" "pw \<and> fam = STX \<longrightarrow> \<not> humidity_mode c"
  shows "1 + length (fields_bytes fs) \<le> 213"
proof (cases pw)
  case False
  then show ?thesis using assms(1) length_info_fields [of fam] by (simp add: configuration_fields_def)
next
  case True
  then obtain s b where "fs = info_fields fam @ lora_fields c m s b @ (if fam = STX then stx_fields c else [])"
    using assms(1) by (auto simp: configuration_fields_def Option.bind_eq_Some_conv)
  then show ?thesis
    using length_info_fields [of fam] length_lora_fields [OF assms(2), of c s b] length_stx_fields [of c] assms(3) True
    by (auto simp: fields_bytes_append)
qed

lemma sum_list_bound_const:
  "\<forall>(key, ap) \<in> set fs. length (field_bytes key ap) \<le> n \<Longrightarrow> length (fields_bytes fs) \<le> length fs * n"
  by (induction fs) (auto simp: length_fields_bytes)

lemma length_sensors: "1 + length (fields_bytes (sensor_fields fam c r)) \<le> 251"
proof -
  have k: "length (field_bytes PBSMSG_TX_DEVICE_PART_NUMBER (VaU64 x)) \<le> 12"
    "length (field_bytes PBSMSG_TX_DEVICE_BATTERY_VOLTAGE (VaU64 x)) \<le> 12"
    "length (field_bytes PBSMSG_TX_SENSOR_TEMPERATURE (VaU64 x)) \<le> 12"
    "length (field_bytes PBSMSG_TX_SENSOR_HUMIDITY (VaU64 x)) \<le> 12"
    "length (field_bytes PBSMSG_TX_SENSOR_PRESSURE (VaU64 x)) \<le> 12"
    "length (field_bytes PBSMSG_TX_SENSOR_LUMINANCE (VaU64 x)) \<le> 12"
    "length (field_bytes PBSMSG_TX_SENSOR_X_AXIS (VaU64 x)) \<le> 12"
    "length (field_bytes PBSMSG_TX_SENSOR_Y_AXIS (VaU64 x)) \<le> 12"
    "length (field_bytes PBSMSG_TX_SENSOR_Z_AXIS (VaU64 x)) \<le> 12"
    "length (field_bytes PBSMSG_TX_SENSOR_GESTURE_SINGLE_COUNT (VaU64 x)) \<le> 12"
    "length (field_bytes PBSMSG_TX_SENSOR_GESTURE_DOUBLE_COUNT (VaU64 x)) \<le> 12"
    "length (field_bytes PBSMSG_TX_SENSOR_GESTURE_LONG_COUNT (VaU64 x)) \<le> 12" for x
    unfolding sensor_key_values by (rule field_small_casts(5); simp)+
  have "\<forall>(key, ap) \<in> set (sensor_fields fam c r). length (field_bytes key ap) \<le> 12"
    by (cases fam) (simp_all add: sensor_fields_def k)
  then have "length (fields_bytes (sensor_fields fam c r)) \<le> length (sensor_fields fam c r) * 12"
    by (rule sum_list_bound_const)
  moreover have "length (sensor_fields fam c r) \<le> 8" by (cases fam) (simp_all add: sensor_fields_def)
  ultimately show ?thesis by simp
qed

lemma fields_ok_reply:
  assumes "configuration_fields fam pw c m = Some fs" "mac_wf m" "pw \<and> fam = STX \<longrightarrow> \<not> humidity_mode c"
  shows "fields_ok fs"
proof (cases pw)
  case True
  then show ?thesis using fields_ok_configuration [OF assms(1,2)] assms(3) by blast
next
  case False
  then have "fs = info_fields fam" using assms(1) by (simp add: configuration_fields_def)
  then show ?thesis by (simp add: fields_ok_info)
qed

lemma get_config_reply:
  assumes fs: "configuration_fields fam (pw_valid s) (isr_cfg s) (isr_mac s) = Some fs"
    and wf: "mac_wf (isr_mac s)" "pw_valid s \<and> fam = STX \<longrightarrow> \<not> humidity_mode (isr_cfg s)"
    and frame: "take 5 mb = [MB_R2HGETCONFIG, 0, 0, 0, 0]" "length mb = 256" "4 \<le> unat (env_mb_len env)"
  shows "isr_get fam env mb s = isr_done s
    [[MB_R2HGETCONFIG, 1, 0, 0, of_nat (1 + length (fields_bytes fs))] @ 0 # fields_bytes fs]"
proof -
  let ?msg = "0 # fields_bytes fs" let ?n = "1 + length (fields_bytes fs)"
  have len: "?n \<le> 213" by (rule length_configuration [OF fs wf])
  have hd: "mb ! i = [MB_R2HGETCONFIG, 0, 0, 0, 0] ! i" if "i < 5" for i
    using that frame(1,2) by (metis length_take nth_take min.absorb2 numeral_le_iff semiring_norm(70,73))
  have h: "mb ! 0 = MB_R2HGETCONFIG" "mb ! 2 = 0" "mb ! 3 = 0" "mb ! 4 = 0"
    using hd [of 0] hd [of 2] hd [of 3] hd [of 4] by simp_all
  have "take 3 (drop 1 mb) = drop 1 (take 4 (take 5 mb))" by (simp add: take_drop)
  then have cmd: "take 3 (drop 1 mb) = [0, 0, 0]" by (simp add: frame(1))
  have l: "251 \<le> length (drop MB_DATA mb)" using frame(2) by (simp add: MB_DATA_def)
  have enc: "PBEncodeMsg_DeviceConfiguration fam (isr_cfg s) (isr_mac s) (pw_valid s) (drop MB_DATA mb) 251 =
      Some (clip_write 251 0 ?msg (drop MB_DATA mb), ?n)"
    using message_clip [OF fields_ok_reply [OF fs wf] l, of 0]
    by (simp add: PBEncodeMsg_DeviceConfiguration_def fs PBMSGID_DEVICE_CONFIGURATION_def)
  have u: "unat (of_nat ?n :: uint8) = ?n" using len by (intro unat_word8) simp
  have "take ?n (clip_write 251 0 ?msg (drop MB_DATA mb)) = ?msg"
    using take_clip_write [OF _ l, of 0 ?msg] len by simp
  moreover have take_5: "take (n + 5) ([a, b, c, d, e] @ ys) = [a, b, c, d, e] @ take n ys"
    for n and a b c d e :: uint8 and ys by (simp only: take_append) simp
  ultimately have "take (?n + 5) ([mb ! 0, 1, mb ! 2, mb ! 3, of_nat ?n] @ clip_write 251 0 ?msg (drop MB_DATA mb)) =
      [MB_R2HGETCONFIG, 1, 0, 0, of_nat ?n] @ ?msg"
    by (simp only: take_5 h)
  then show ?thesis
    using frame(3) len cmd h enc u by (simp add: isr_get_def MB_DATA_def Let_def del: of_nat_Suc of_nat_add)
qed

section \<open>A configuration frame in an unprivileged session\<close>

definition frame_env :: "bytes \<Rightarrow> nfc_env" where
  \<comment> \<open>an interrupt that finds a frame in the mailbox\<close>
  "frame_env mail = \<lparr>env_tick = 0, env_ms = (\<lambda>_. 1000), env_regs_ok = True, env_it_sts = 0x20,
     env_mb_len = of_nat (length mail) - 1, env_mail_ok = True,
     env_mail = (\<lambda>i. if i < length mail then mail ! i else 0), env_stack = (\<lambda>_. 0xA5),
     env_readings = readings_example, env_flash = sound\<rparr>"

lemma txPort_finish: "txPort (dev_cfg (nfc_finish fam s)) = txPort (dev_cfg s)"
  by (simp add: nfc_finish_def on_cfg_def Let_def and_then_DEVCFG)

lemma set_port_message:
  "\<exists>c' rs. PBDecodeMsg fam (0 # 0x70 # 7 # post) 3 c = Some (Stop (c', rs)) \<and> txPort c' = 7"
proof -
  let ?fs = "[(PBMSG_BX_LORA_PORT, VaU64 7)]"
  have b: "fields_bytes ?fs = [0x70, 7]" by code_simp
  have r: "\<forall>(key, ap) \<in> set ?fs. field_readable key ap" by code_simp
  have "PBDecodeMsg fam (0 # fields_bytes ?fs @ post) 3 c =
      Some (let s = nfc_finish fam (nfc_apply fam ?fs (nfc_start c)) in Stop (dev_cfg s, mac_requests s))"
    by (rule PBDecodeMsg_nfc_apply [OF r]) (simp_all add: b)
  moreover have "txPort (dev_cfg (nfc_apply fam ?fs (nfc_start c))) = 7"
    by (simp add: nfc_apply_Cons nfc_action_def config_key_values on_cfg_def txPort.setter_value)
  ultimately show ?thesis by (simp add: b txPort_finish Let_def)
qed

lemma config_accepted:
  assumes "\<not> pw_valid s"
  shows "\<exists>r. NFCISR fam (frame_env [0x21, 0, 0, 0, 3, 0, 0x70, 7]) s = Some (Stop r) \<and>
    txPort (isr_cfg (res_state r)) = 7 \<and> res_replies r = [isr_answer MB_R2HSETCONFIG False]"
proof -
  define env where "env = frame_env [0x21, 0, 0, 0, 3, 0, 0x70, 7]"
  have e: "env_regs_ok env" "env_it_sts env AND 0x20 \<noteq> 0" "env_mb_len env = 7" "env_mail_ok env"
    "env_mail env 0 = 0x21" by (simp_all add: env_def frame_env_def)
  have pw: "\<not> pw_valid (isr_entry env s)" using assms isr_entry_simps(4) by blast
  have buf: "drop MB_DATA (isr_buffer env) = 0 # 0x70 # 7 # replicate 248 0xA5"
    by (rule nth_equalityI) (auto simp: isr_buffer_nth MB_DATA_def env_def frame_env_def nth_Cons')
  have "NFCISR fam env s = isr_set_config fam env (isr_buffer env) (isr_entry env s)"
    using e pw by (simp add: NFCISR_def isr_entry_def Let_def isr_frame_def mb_codes)
  moreover obtain c' rs where "PBDecodeMsg fam (drop MB_DATA (isr_buffer env)) 3 (isr_cfg (isr_entry env s)) = Some (Stop (c', rs))"
    "txPort c' = 7" unfolding buf using set_port_message by blast
  ultimately show ?thesis using e pw by (simp add: isr_set_config_def isr_done_def flip: env_def)
qed

section \<open>Properties\<close>

text \<open>C25. After an interrupt the session is privileged only if it was before, or if the frame in
  the mailbox presented the password that is stored in the EEPROM.\<close>

theorem privilege_needs_password:
  assumes "NFCISR fam env s = Some (Stop r)" "pw_valid (res_state r)" "\<not> res_reset r"
  shows "pw_valid s \<or> correct_password env (isr_entry env s)"
  using assms by (rule privilege_step)

text \<open>C24. A phone that never presents the stored password stays unprivileged for any number of
  interrupts, whatever it sends and whatever the rest of the firmware does in between. Until an interrupt resets the device, the
  boot mode and the password in the EEPROM stay as they were, and no interrupt changes any byte of it. One thing such a phone
  can do: a factory reset, which the protocol allows without a password. It erases the whole EEPROM, and the password with it; no other frame
  resets the device.\<close>

theorem no_password_no_access:
  assumes "nfc_run fam s0 was_reset s" "\<not> pw_valid s0" "password_stored (isr_mem s0)"
  shows "\<not> pw_valid s \<and>
    (was_reset \<or> (\<forall>x<16. isr_mem s x = isr_mem s0 x) \<and>
      (\<forall>env r. NFCISR fam env s = Some (Stop r) \<longrightarrow>
        (if res_reset r then env_mail env 0 = MB_R2HFACTORYRESET \<and> isr_mem (res_state r) = erase_words (env_flash env) 0 1536 (isr_mem s)
         else isr_mem (res_state r) = isr_mem s)))"
proof -
  note run = run_unprivileged [OF assms]
  have "was_reset \<or> password_stored (isr_mem s)"
    using run assms(3) password_stored_cong [of "isr_mem s" "isr_mem s0"] by auto
  then have "was_reset \<or> stored_mem env s = isr_mem s" for env using stored_mem_id by blast
  then show ?thesis using run unprivileged_memory [of fam _ s] by fastforce
qed

text \<open>In an unprivileged session the only frame that resets the device is the factory
  reset: the firmware update is refused.\<close>

theorem unprivileged_reset_is_factory_reset:
  assumes "NFCISR fam env s = Some (Stop r)" "\<not> pw_valid s" "res_reset r"
  shows "env_mail env 0 = MB_R2HFACTORYRESET"
  using unprivileged_memory [OF assms(1,2)] assms(3) by simp

text \<open>When two minutes have passed since the password was accepted, or the clock reads an
  earlier time, the interrupt behaves exactly as in an unprivileged session.\<close>

theorem expired_session_is_unprivileged:
  assumes "env_ms env 0 < pw_timestamp s \<or> env_ms env 1 \<ge> pw_timestamp s + NFC_PWTIMEOUT"
  shows "NFCISR fam env s = NFCISR fam env (s\<lparr>pw_valid := False\<rparr>)"
proof -
  have "isr_timeout env (isr_default_password env (s\<lparr>nfc_activity := env_tick env\<rparr>)) =
      isr_timeout env (isr_default_password env (s\<lparr>pw_valid := False, nfc_activity := env_tick env\<rparr>))"
    using assms by (auto simp: isr_timeout_def isr_default_password_def)
  then show ?thesis by (simp add: NFCISR_def)
qed

text \<open>C26. A request for the configuration is answered with the header, the size and the whole
  message, in every configuration of a device whose data rate is in the table of its region: the message fits the buffer and its size
  fits the byte of the header. In a privileged session it carries the settings; otherwise nothing but the kind of device and the version
  of the firmware, with the header of success, where \<^verbatim>\<open>MESSAGE_FORMAT_NFC.md\<close> specifies the error 3 and no data. Excluded is a
  privileged request to a multi sensor (STX) in one of the humidity modes, which is undefined behaviour
  (\<open>humidity_threshold_read_is_undefined\<close>).\<close>

theorem configuration_reply:
  fixes env s fam
  defines "c \<equiv> isr_cfg s" and "m \<equiv> isr_mac s" and "privileged \<equiv> pw_valid (isr_entry env s)"
  assumes "env_regs_ok env" "env_it_sts env AND 0x20 \<noteq> 0" "4 \<le> unat (env_mb_len env)" "env_mail_ok env"
    and "map (env_mail env) [0..<5] = [MB_R2HGETCONFIG, 0, 0, 0, 0]"
    and "mac_wf m" "privileged \<and> fam = STX \<longrightarrow> \<not> humidity_mode c"
    and "PHY_SF_FROM_DR (region c) (ChannelsDatarate m) = Some sfv" "PHY_BW_FROM_DR (region c) (ChannelsDatarate m) = Some bwv"
    and "fs = info_fields fam @ (if privileged then lora_fields c m sfv bwv @ (if fam = STX then stx_fields c else []) else [])"
  shows "NFCISR fam env s = Some (Stop \<lparr>res_state = isr_entry env s,
      res_replies = [[MB_R2HGETCONFIG, 1, 0, 0, of_nat (1 + length (fields_bytes fs))] @ 0 # fields_bytes fs],
      res_reset = False\<rparr>) \<and>
    unat (of_nat (1 + length (fields_bytes fs)) :: uint8) = 1 + length (fields_bytes fs)"
proof -
  have fs: "configuration_fields fam privileged c m = Some fs"
    using assms(11-13) by (simp add: configuration_fields_def)
  have "take 5 (isr_buffer env) = map (env_mail env) [0..<5]"
    using assms(6) by (intro nth_equalityI) (auto simp: isr_buffer_nth numeral_eq_Suc less_Suc_eq)
  then have mb: "take 5 (isr_buffer env) = [MB_R2HGETCONFIG, 0, 0, 0, 0]" using assms(8) by simp
  have m0: "env_mail env 0 = MB_R2HGETCONFIG" using assms(8) by (simp add: upt_rec)
  have "env_mb_len env \<noteq> 0" using assms(6) by auto
  then have "NFCISR fam env s = isr_get fam env (isr_buffer env) (isr_entry env s)"
    using assms(4,5,7) m0 by (simp add: NFCISR_def isr_entry_def Let_def isr_frame_def mb_codes)
  also have "\<dots> = isr_done (isr_entry env s)
      [[MB_R2HGETCONFIG, 1, 0, 0, of_nat (1 + length (fields_bytes fs))] @ 0 # fields_bytes fs]"
    using fs assms(6,9,10) mb by (intro get_config_reply) (simp_all add: isr_entry_simps c_def m_def privileged_def)
  moreover have "1 + length (fields_bytes fs) \<le> 213" by (rule length_configuration [OF fs assms(9,10)])
  then have "unat (of_nat (1 + length (fields_bytes fs)) :: uint8) = 1 + length (fields_bytes fs)"
    by (intro unat_word8) simp
  ultimately show ?thesis by (simp add: isr_done_def)
qed

text \<open>C27. There is a frame that changes the configuration in an unprivileged session: the
  routine applies the message, and then answers that the request was bad.\<close>

theorem config_accepted_without_password:
  assumes "\<not> pw_valid s"
  shows "\<exists>r. NFCISR fam (frame_env [0x21, 0, 0, 0, 3, 0, 0x70, 7]) s = Some (Stop r) \<and>
    txPort (isr_cfg (res_state r)) = 7 \<and> res_replies r = [isr_answer MB_R2HSETCONFIG False]"
  using assms by (rule config_accepted)

section \<open>Witnesses\<close>

definition isr_example :: isr_state where
  "isr_example = \<lparr>pw_valid = False, pw_timestamp = 0, nfc_activity = 0, isr_cfg = DevCfg_default,
     isr_mac = mac_example, isr_mem = HW_ChangePW sound ST25DV_PASSWORD (\<lambda>_. 0)\<rparr>"

lemma isr_example_stored: "password_stored (isr_mem isr_example)"
  by code_simp

theorem config_accepted_without_password_witness:
  "\<exists>r. NFCISR STX (frame_env [0x21, 0, 0, 0, 3, 0, 0x70, 7]) isr_example = Some (Stop r) \<and>
    txPort (isr_cfg (res_state r)) = 7"
  using config_accepted_without_password [of isr_example STX] by (auto simp: isr_example_def)

theorem no_password_no_access_witness:
  "\<exists>s. nfc_run STX isr_example False s \<and> txPort (isr_cfg s) = 7 \<and> \<not> pw_valid s \<and> (\<forall>x<16. isr_mem s x = isr_mem isr_example x)"
proof -
  let ?env = "frame_env [0x21, 0, 0, 0, 3, 0, 0x70, 7]"
  have pw: "\<not> pw_valid isr_example" by (simp add: isr_example_def)
  obtain r where r: "NFCISR STX ?env isr_example = Some (Stop r)" "txPort (isr_cfg (res_state r)) = 7"
    using config_accepted [OF pw] by blast
  have "\<not> correct_password ?env (isr_entry ?env isr_example)"
    by (simp add: correct_password_def frame_env_def mb_codes)
  moreover have "\<not> res_reset r"
    using unprivileged_memory [OF r(1) pw] by (simp add: frame_env_def mb_codes)
  ultimately have run: "nfc_run STX isr_example False (res_state r)"
    using nfc_run.interrupt [OF nfc_run.start r(1)] by blast
  with no_password_no_access [OF run pw isr_example_stored] r(2) show ?thesis by blast
qed

theorem privilege_needs_password_witness:
  "correct_password (frame_env [8, 0, 0, 0, 4, 0x12, 0x34, 0x56, 0x78])
    (isr_entry (frame_env [8, 0, 0, 0, 4, 0x12, 0x34, 0x56, 0x78]) isr_example)"
proof -
  let ?env = "frame_env [8, 0, 0, 0, 4, 0x12, 0x34, 0x56, 0x78]"
  have "case NFCISR STA ?env isr_example of Some (Stop r) \<Rightarrow> pw_valid (res_state r) \<and> \<not> res_reset r | _ \<Rightarrow> False"
    by code_simp
  then obtain r where r: "NFCISR STA ?env isr_example = Some (Stop r)" "pw_valid (res_state r)" "\<not> res_reset r"
    by (auto split: option.splits outcome.splits)
  have "\<not> pw_valid isr_example" by (simp add: isr_example_def)
  with privilege_needs_password [OF r] show ?thesis by blast
qed

theorem unprivileged_reset_is_factory_reset_witness:
  "\<exists>r. NFCISR STA (frame_env [0xFF, 0, 0, 0, 0]) isr_example = Some (Stop r) \<and> res_reset r \<and>
    env_mail (frame_env [0xFF, 0, 0, 0, 0]) 0 = MB_R2HFACTORYRESET"
proof -
  let ?env = "frame_env [0xFF, 0, 0, 0, 0]"
  have "take 5 (isr_buffer ?env) = [MB_R2HFACTORYRESET, 0, 0, 0, 0]" by code_simp
  then obtain r where r: "NFCISR STA ?env isr_example = Some (Stop r)" "res_reset r"
    by (simp add: NFCISR_def Let_def isr_frame_def mb_codes isr_factory_reset_def frame_env_def isr_example_def
        isr_timeout_def isr_default_password_def)
  have "\<not> pw_valid isr_example" by (simp add: isr_example_def)
  from unprivileged_reset_is_factory_reset [OF r(1) this r(2)] r show ?thesis by blast
qed

theorem expired_session_is_unprivileged_witness:
  "NFCISR STA (frame_env [4, 0]) (isr_example\<lparr>pw_valid := True, pw_timestamp := 2000\<rparr>) =
    NFCISR STA (frame_env [4, 0]) (isr_example\<lparr>pw_valid := True, pw_timestamp := 2000, pw_valid := False\<rparr>)"
  by (rule expired_session_is_unprivileged) (simp add: frame_env_def)

theorem configuration_reply_witness:
  "\<exists>r. NFCISR STE (frame_env [0x20, 0, 0, 0, 0]) isr_example = Some (Stop r) \<and>
    res_replies r = [[0x20, 1, 0, 0, 5, 0, 8, 3, 16, 11]]"
proof -
  let ?env = "frame_env [0x20, 0, 0, 0, 0]"
  have b: "fields_bytes (info_fields STE) = [8, 3, 16, 11]" by code_simp
  have pw: "\<not> pw_valid (isr_entry ?env isr_example)"
    using isr_entry_simps(4) [of ?env isr_example] by (auto simp: isr_example_def)
  have dr: "PHY_SF_FROM_DR (region (isr_cfg isr_example)) (ChannelsDatarate (isr_mac isr_example)) = Some 12"
    "PHY_BW_FROM_DR (region (isr_cfg isr_example)) (ChannelsDatarate (isr_mac isr_example)) = Some 0"
    by (code_simp, code_simp)
  have e: "env_regs_ok ?env" "env_it_sts ?env AND 0x20 \<noteq> 0" "4 \<le> unat (env_mb_len ?env)" "env_mail_ok ?env"
    "map (env_mail ?env) [0..<5] = [MB_R2HGETCONFIG, 0, 0, 0, 0]" "mac_wf (isr_mac isr_example)"
    by (simp_all add: frame_env_def mb_codes isr_example_def mac_wf_def mac_example_def upt_rec)
  from configuration_reply [where s = isr_example and fam = STE, OF e _ dr refl] pw show ?thesis by (simp add: b mb_codes)
qed

end
