(* ===== verification/Sensors.thy ===== *)
theory Sensors
  imports Complex_Main "HOL-Library.Signed_Division" Device_Config
begin

text \<open>
  The sensors of \<^verbatim>\<open>src/Src/sensors.c\<close>: the set-up of the accelerometer BMA400, the light sensor
  SFH7776 and the humidity and temperature sensor HDC2080 (STX), their readings, and the air quality
  readings of the BME680 with the closed BSEC library (STE). A routine is the list of the bus accesses
  it makes; which of them succeed is the parameter \<open>bus\<close>, a predicate on the accesses made so far, the
  last one included. Delays, the routines that only serve tests (\<open>*_ForeverTest\<close>) and the debug output
  are left out. Single precision numbers are reals: the rounding of their arithmetic is not modelled.
\<close>

section \<open>Accesses\<close>

datatype bma400_call =
    Bma_init
  | Bma_soft_reset
  | Bma_get_sensor_conf
  | Bma_set_sensor_conf uint8                         \<comment> \<open>the oversampling; 25 Hz, 2 g, first filter\<close>
  | Bma_get_wakeup
  | Bma_set_wakeup uint8 uint8 bool uint8             \<comment> \<open>threshold, samples, update of the reference, axes\<close>
  | Bma_get_auto_low_power
  | Bma_set_auto_low_power                            \<comment> \<open>after a timeout of 0\<close>
  | Bma_enable_interrupt                              \<comment> \<open>wake-up, not latched\<close>
  | Bma_low_power_mode

datatype sensor_op =
    I2C_Write uint8 uint8 bytes                       \<comment> \<open>device, register, data\<close>
  | I2C_Read uint8 uint8 nat
  | Bma400 bma400_call                                \<comment> \<open>a call of the driver in \<^verbatim>\<open>src/BMA400\<close>\<close>
  | TEMP_Int bool                                     \<comment> \<open>masking the pin of the HDC2080 interrupt\<close>

type_synonym bus = "sensor_op list \<Rightarrow> bool"

fun attempt :: "bus \<Rightarrow> sensor_op list \<Rightarrow> sensor_op list \<Rightarrow> sensor_op list \<times> bool" where
  \<comment> \<open>a chain of \<open>if((r = ...)) goto err\<close>\<close>
  "attempt bus past [] = (past, True)"
| "attempt bus past (x # xs) = (let p = past @ [x] in if bus p then attempt bus p xs else (p, False))"

section \<open>BMA400\<close>

definition wakeup_threshold :: "uint16 \<Rightarrow> nat" where
  \<comment> \<open>\<open>round(threshold * 256 / 9.80665 / 4 / 100)\<close>, in double precision\<close>
  "wakeup_threshold t = (25600 * unat t + 196133) div 392266"

definition BMA400_Init :: "bus \<Rightarrow> uint16 \<Rightarrow> uint16 \<Rightarrow> (sensor_op list \<times> bool) option" where
  \<comment> \<open>a threshold above 255 is out of the range of its \<open>uint8_t\<close>: undefined\<close>
  "BMA400_Init bus config threshold =
    (case attempt bus [] (map Bma400 [Bma_init, Bma_soft_reset, Bma_get_sensor_conf,
        Bma_set_sensor_conf (ucast (drop_bit 8 (config AND 0x300))), Bma_get_wakeup]) of
       (p, False) \<Rightarrow> Some (p, False)
     | (p, True) \<Rightarrow>
         if 255 < wakeup_threshold threshold then None
         else Some (attempt bus p (map Bma400
           [Bma_set_wakeup (of_nat (wakeup_threshold threshold)) (ucast (drop_bit 1 (config AND 0xE)))
              (config AND 1 \<noteq> 0) (ucast (drop_bit 4 (config AND 0x70))),
            Bma_get_auto_low_power, Bma_set_auto_low_power, Bma_enable_interrupt, Bma_low_power_mode])))"

record BMA400_Handle =
  bma_status :: uint16
  bma_fix :: "uint16 list"       \<comment> \<open>x, y, z and the reference, hundredths of m/s^2\<close>
  bma_xyz :: "uint16 list"
  bma_xyz_ref :: "uint8 list"

definition BMA400_Read :: "(int \<Rightarrow> uint16) \<Rightarrow> uint16 list \<Rightarrow> uint8 list \<Rightarrow> uint16 \<Rightarrow> BMA400_Handle" where
  \<comment> \<open>\<open>data\<close>, \<open>ref\<close> and \<open>status\<close> are what the driver delivers; \<open>ms2\<close> is \<open>lsb_to_ms2(_, 2, 8)\<close> of \<^verbatim>\<open>src/BMA400\<close>\<close>
  "BMA400_Read ms2 data ref status =
    \<lparr>bma_status = status,
     bma_fix = map (\<lambda>x. ms2 (sint x div 16)) data @ map (\<lambda>x. ms2 (sint x)) ref,
     bma_xyz = data, bma_xyz_ref = ref\<rparr>"

definition BMA400_Reset :: "sensor_op list" where
  "BMA400_Reset = [Bma400 Bma_soft_reset]"

section \<open>SFH7776\<close>

definition GAIN_VIS :: nat where "GAIN_VIS = 64"
definition T_INT_ALS :: nat where "T_INT_ALS = 100"

record SFH7776_Handle =
  als_vis :: uint16
  als_ir :: uint16
  als_vis_tl :: uint16
  lux :: uint16

definition als_threshold :: "uint16 \<Rightarrow> nat" where
  "als_threshold t = min (GAIN_VIS * unat t div 8 div 4) 65535"

definition threshold_lux :: "nat \<Rightarrow> uint16" where
  "threshold_lux n = of_nat (8 * 4 * n div GAIN_VIS)"

definition le16 :: "nat \<Rightarrow> bytes" where
  "le16 n = [of_nat n, of_nat (n div 256)]"

definition SFH7776_Init :: "bus \<Rightarrow> uint8 \<Rightarrow> uint16 \<Rightarrow> uint16 \<Rightarrow> DeviceConfig \<times> SFH7776_Handle \<Rightarrow>
    (DeviceConfig \<times> SFH7776_Handle) \<times> sensor_op list \<times> bool" where
  \<comment> \<open>\<open>part\<close> is the byte read from the control register\<close>
  "SFH7776_Init bus part upper lower s =
    (let th = als_threshold upper; tl = als_threshold lower;
         c = (fst s)\<lparr>sfh7776_threshold_upper := threshold_lux th, sfh7776_threshold_lower := threshold_lux tl\<rparr>
     in case attempt bus [] [I2C_Write 0x72 0x40 [0x80], I2C_Read 0x72 0x40 1] of
          (p, False) \<Rightarrow> ((c, snd s), p, False)
        | (p, True) \<Rightarrow>
            if part \<noteq> 0x09 then ((c, snd s), p, False)
            else case attempt bus p [I2C_Write 0x72 0x41 [0x08, 0x28],
                   I2C_Write 0x72 0x4F (le16 th @ le16 tl), I2C_Write 0x72 0x4A [0x06]] of
                (p', False) \<Rightarrow> ((c, snd s), p', False)
              | (p', True) \<Rightarrow> ((c, (snd s)\<lparr>als_vis_tl := of_nat tl\<rparr>), p', True))"

definition SFH7776_Read :: "uint8 \<Rightarrow> uint8 \<Rightarrow> uint8 \<Rightarrow> uint8 \<Rightarrow> SFH7776_Handle \<Rightarrow> SFH7776_Handle" where
  \<comment> \<open>of the four bytes of \<open>buf\<close>; the success of the transfer is not tested\<close>
  "SFH7776_Read b0 b1 b2 b3 h =
    (let vis = push_bit 8 (ucast b1) OR ucast b0; ir = push_bit 8 (ucast b3) OR ucast b2
     in h\<lparr>lux := of_nat (8 * 4 * unat (vis :: uint16) * 100 div T_INT_ALS div GAIN_VIS), als_vis := vis, als_ir := ir\<rparr>)"

definition SFH7776_Reset :: "sensor_op list" where
  \<comment> \<open>reads the register it means to write\<close>
  "SFH7776_Reset = [I2C_Read 0x72 0x40 1]"

section \<open>HDC2080\<close>

record HDC2080_Handle =
  raw_temp :: uint16
  raw_humid :: uint16
  fix_temp :: uint16             \<comment> \<open>an \<open>int16_t\<close>, hundredths of degrees\<close>
  humid :: uint8
  hdc_status :: uint8

definition int32_ok :: "int \<Rightarrow> bool" where
  "int32_ok i \<longleftrightarrow> - (2 ^ 31) \<le> i \<and> i < 2 ^ 31"

definition temperature_threshold :: "uint32 \<Rightarrow> uint8 option" where
  \<comment> \<open>signed arithmetic, which must not overflow\<close>
  "temperature_threshold t = (let a = sint t + 4000 in
     if int32_ok a \<and> int32_ok (a * 256) then Some (word_of_int (a * 256 sdiv 16500)) else None)"

definition humidity_threshold :: "uint32 \<Rightarrow> uint8 option" where
  "humidity_threshold t =
     (if int32_ok (sint t * 256) then Some (word_of_int (sint t * 256 sdiv 100)) else None)"

definition hdc_limits :: "uint8 \<Rightarrow> uint32 \<Rightarrow> bytes option" where
  \<comment> \<open>lower and upper limit of the temperature, then of the humidity\<close>
  "hdc_limits ty t =
    (if ty = HDC2080_TEMPERATURE_LOW then map_option (\<lambda>b. [b, 0xFF, 0, 0xFF]) (temperature_threshold t)
     else if ty = HDC2080_TEMPERATURE_HIGH then map_option (\<lambda>b. [0, b, 0, 0xFF]) (temperature_threshold t)
     else if ty = HDC2080_HUMIDITY_LOW then map_option (\<lambda>b. [0, 0xFF, b, 0xFF]) (humidity_threshold t)
     else if ty = HDC2080_HUMIDITY_HIGH then map_option (\<lambda>b. [0, 0xFF, 0, b]) (humidity_threshold t)
     else Some [0, 0xFF, 0, 0xFF])"

definition hdc_int_enable :: "uint8 \<Rightarrow> uint8" where
  "hdc_int_enable ty =
    (if ty = HDC2080_TEMPERATURE_LOW then 0x20 else if ty = HDC2080_TEMPERATURE_HIGH then 0x40
     else if ty = HDC2080_HUMIDITY_LOW then 0x80 else 0x10)"

definition HDC2080_Init :: "bus \<Rightarrow> uint8 \<Rightarrow> uint32 \<Rightarrow> (sensor_op list \<times> bool) option" where
  \<comment> \<open>the success of the reset is not tested; the pin is unmasked in any case\<close>
  "HDC2080_Init bus ty t =
    (case attempt bus [TEMP_Int False, I2C_Write 0x80 0x0E [0x80]] [I2C_Write 0x80 0x07 [hdc_int_enable ty]] of
       (p, False) \<Rightarrow> Some (p @ [TEMP_Int True], False)
     | (p, True) \<Rightarrow> map_option (\<lambda>limits.
         case attempt bus p [I2C_Write 0x80 0x0A (limits @ [0x57, 0xA1])] of
           (p', ok) \<Rightarrow> (p' @ [TEMP_Int True], ok)) (hdc_limits ty t))"

definition HDC2080_Read :: "bytes option \<Rightarrow> HDC2080_Handle \<Rightarrow> HDC2080_Handle" where
  \<comment> \<open>\<open>None\<close> is a failed transfer, \<open>Some\<close> its five bytes\<close>
  "HDC2080_Read r h = (case r of
     None \<Rightarrow> h
   | Some buf \<Rightarrow>
       let t = push_bit 8 (ucast (buf ! 1)) OR ucast (buf ! 0);
           u = push_bit 8 (ucast (buf ! 3)) OR ucast (buf ! 2)
       in h\<lparr>raw_temp := t, raw_humid := u, fix_temp := word_of_int (uint (t :: uint16) * 165 * 100 div 65536 - 4000),
            humid := word_of_int (uint (u :: uint16) * 100 div 65536), hdc_status := buf ! 4\<rparr>)"

definition HDC2080_Reset :: "sensor_op list" where
  "HDC2080_Reset = [I2C_Write 0x80 0x0E [0x80]]"

section \<open>BME680 with BSEC\<close>

datatype bsec_input_id = BSEC_INPUT_PRESSURE | BSEC_INPUT_HUMIDITY | BSEC_INPUT_TEMPERATURE | BSEC_INPUT_GASRESISTOR

record bsec_input =
  in_id :: bsec_input_id
  in_signal :: real
  in_time :: uint64

record bsec_output =
  out_id :: uint8
  out_signal :: real
  out_accuracy :: uint8

definition BSEC_OUTPUT_IAQ :: uint8 where "BSEC_OUTPUT_IAQ = 1"
definition BSEC_OUTPUT_CO2_EQUIVALENT :: uint8 where "BSEC_OUTPUT_CO2_EQUIVALENT = 3"
definition BSEC_OUTPUT_BREATH_VOC_EQUIVALENT :: uint8 where "BSEC_OUTPUT_BREATH_VOC_EQUIVALENT = 4"

record bsec_settings =
  trigger_measurement :: bool
  process_data :: uint32
  oversampling :: "uint8 \<times> uint8 \<times> uint8"       \<comment> \<open>humidity, pressure, temperature\<close>
  run_gas :: uint8
  heater :: "uint16 \<times> uint16"                     \<comment> \<open>temperature and duration\<close>
  settings_next_call :: uint64

record bme680_data =
  data_status :: uint8
  data_temperature :: uint16                       \<comment> \<open>an \<open>int16_t\<close>, hundredths of degrees\<close>
  data_pressure :: uint32
  data_humidity :: uint32                          \<comment> \<open>thousandths of a percent\<close>
  data_gas_resistance :: uint32

record BSEC_Handle =
  bsec_next_call :: uint64
  iaq :: real
  co2 :: real
  voc :: real
  acc :: uint32

record bsec_env =
  bsec_sensor_control :: "uint64 \<Rightarrow> bsec_settings"
  bme680_measure :: "bsec_settings \<Rightarrow> bme680_data"
  bsec_do_steps :: "bsec_input list \<Rightarrow> bsec_output list"

definition bsec_inputs :: "uint32 \<Rightarrow> bme680_data \<Rightarrow> uint64 \<Rightarrow> bsec_input list" where
  \<comment> \<open>the physical readings that are asked for\<close>
  "bsec_inputs wanted d now =
    (let input = (\<lambda>i x. \<lparr>in_id = i, in_signal = x, in_time = now\<rparr>) in
     if wanted = 0 \<or> data_status d AND 0x80 = 0 then []
     else (if wanted AND 1 \<noteq> 0 then [input BSEC_INPUT_PRESSURE (real (unat (data_pressure d)))] else []) @
       (if wanted AND 4 \<noteq> 0 then [input BSEC_INPUT_TEMPERATURE (real_of_int (sint (data_temperature d)) / 100)] else []) @
       (if wanted AND 2 \<noteq> 0 then [input BSEC_INPUT_HUMIDITY (real (unat (data_humidity d)) / 1000)] else []) @
       (if wanted AND 8 \<noteq> 0 \<and> data_status d AND 0x20 \<noteq> 0
        then [input BSEC_INPUT_GASRESISTOR (real (unat (data_gas_resistance d)))] else []))"

definition bsec_output_step :: "bsec_output \<Rightarrow> BSEC_Handle \<Rightarrow> BSEC_Handle" where
  "bsec_output_step out h =
    (if out_id out = BSEC_OUTPUT_IAQ then h\<lparr>iaq := out_signal out, acc := ucast (out_accuracy out)\<rparr>
     else if out_id out = BSEC_OUTPUT_CO2_EQUIVALENT then h\<lparr>co2 := out_signal out\<rparr>
     else if out_id out = BSEC_OUTPUT_BREATH_VOC_EQUIVALENT then h\<lparr>voc := out_signal out\<rparr>
     else h)"

definition BSEC_Read :: "bsec_env \<Rightarrow> uint64 \<Rightarrow> bme680_data \<times> BSEC_Handle \<Rightarrow> bme680_data \<times> BSEC_Handle" where
  \<comment> \<open>\<open>bme680_measure\<close> is one forced measurement with the given settings, until the sensor sleeps again\<close>
  "BSEC_Read env now s =
    (let set = bsec_sensor_control env now; d0 = fst s; h = (snd s)\<lparr>bsec_next_call := settings_next_call set\<rparr>
     in if \<not> trigger_measurement set then (d0, h)
        else let d = (if process_data set \<noteq> 0 then bme680_measure env set else d0);
                 inputs = bsec_inputs (process_data set) d now
             in (d, if inputs = [] then h else fold bsec_output_step (bsec_do_steps env inputs) h))"

definition float_exponent :: "real \<Rightarrow> nat" where
  "float_exponent f =
    (if f > 261920 then 7 else if f > 32740 then 6 else if f > 4093 then 5 else if f > 511 then 4
     else if f > 63 then 3 else if f > 7 then 2 else if f > 1 then 1 else 0)"

definition float_scaled :: "nat \<Rightarrow> real \<Rightarrow> real" where
  "float_scaled e f = (if e \<noteq> 0 then (f - 8 ^ (e - 1)) * 1024 / (8 ^ e - 8 ^ (e - 1)) else f * 1024)"

definition BSEC_float :: "real \<Rightarrow> uint16 option" where
  \<comment> \<open>\<open>roundf\<close> rounds halves away from 0; converting a negative number to \<open>unsigned\<close> is undefined. The
    shift \<open>1U << 3 * (exponent - 1)\<close> for the exponent 0 is undefined too, but its result is not used.\<close>
  "BSEC_float f =
    (if f < 0 then Some 0
     else if f > 2095360 then Some 0x1FFF
     else let e = float_exponent f; x = float_scaled e f
          in if x \<le> - (1 / 2) then None
             else Some (push_bit 10 (of_nat e AND 7) OR (word_of_int \<lfloor>x + 1 / 2\<rfloor> AND 0x3FF)))"

section \<open>Lemmas\<close>

lemma attempt_done: "attempt bus past xs = (q, True) \<Longrightarrow> q = past @ xs"
  by (induction bus past xs rule: attempt.induct) (auto simp: Let_def split: if_splits)

lemma attempt_failed:
  "attempt bus past xs = (q, False) \<Longrightarrow> \<exists>n < length xs. q = past @ take (Suc n) xs \<and> \<not> bus q"
proof (induction bus past xs rule: attempt.induct)
  case (2 bus past x xs)
  show ?case
  proof (cases "bus (past @ [x])")
    case True
    with 2 obtain n where "n < length xs" "q = past @ x # take (Suc n) xs" "\<not> bus q" by (auto simp: Let_def)
    then show ?thesis by (intro exI [of _ "Suc n"]) simp
  next
    case False
    with 2(2) show ?thesis by (auto simp: Let_def)
  qed
qed simp

lemma uint_le16: "uint (push_bit 8 (ucast (b1 :: uint8)) OR ucast (b0 :: uint8) :: uint16) = 256 * uint b1 + uint b0"
proof -
  have b: "uint b1 < 256" "uint b0 < 256" "0 \<le> uint b1" "0 \<le> uint b0"
    using unsigned_less [of b1] unsigned_less [of b0] by simp_all
  have "push_bit 8 (ucast b1) OR ucast b0 = (push_bit 8 (ucast b1) + ucast b0 :: uint16)"
    by (rule disjunctive_add [symmetric]) (auto simp: bit_simps)
  also have "\<dots> = word_of_int (256 * uint b1 + uint b0)"
    by (simp add: push_bit_eq_mult)
  finally have e: "push_bit 8 (ucast b1) OR ucast b0 = (word_of_int (256 * uint b1 + uint b0) :: uint16)" .
  show ?thesis unfolding e using b by (subst unsigned_of_int) (simp add: take_bit_int_eq_self)
qed

lemma le_div_iff:
  assumes "0 < (n :: int)"
  shows "k \<le> x div n \<longleftrightarrow> k * n \<le> x"
proof
  assume "k \<le> x div n"
  then have "k * n \<le> x div n * n" using assms by simp
  also have "\<dots> \<le> x" using div_mult_mod_eq [of x n] pos_mod_sign [OF assms, of x] by linarith
  finally show "k * n \<le> x" .
next
  assume "k * n \<le> x"
  from zdiv_mono1 [OF this assms] assms show "k \<le> x div n" by simp
qed

lemma div_less_iff: "0 < (n :: int) \<Longrightarrow> x div n < k \<longleftrightarrow> x < k * n"
  using le_div_iff [of n k x] by auto

subsection \<open>Temperature and humidity\<close>

lemma sdiv_nonneg: "0 \<le> a \<Longrightarrow> 0 < b \<Longrightarrow> a sdiv b = a div (b :: int)"
  by (cases "a = 0") (simp_all add: signed_divide_int_def)

lemma sint_of_int16: "- 32768 \<le> i \<Longrightarrow> i < 32768 \<Longrightarrow> sint (word_of_int i :: uint16) = i"
  by (simp add: signed_of_int signed_take_bit_int_eq_self)

lemma HDC2080_Read_temp:
  "sint (fix_temp (HDC2080_Read (Some (lo # hi # rest)) h)) = (256 * uint hi + uint lo) * 16500 div 65536 - 4000"
proof -
  let ?v = "256 * uint hi + uint lo"
  have "0 \<le> ?v" "?v \<le> 65535"
    using unsigned_less [of hi, where 'a = int] unsigned_less [of lo, where 'a = int] by auto
  then have "0 \<le> ?v * 16500 div 65536" "?v * 16500 div 65536 < 16500"
    by (simp_all add: pos_imp_zdiv_nonneg_iff div_less_iff)
  then have "sint (word_of_int (?v * 16500 div 65536 - 4000) :: uint16) = ?v * 16500 div 65536 - 4000"
    by (intro sint_of_int16) linarith+
  moreover have "fix_temp (HDC2080_Read (Some (lo # hi # rest)) h) =
      word_of_int (uint (push_bit 8 (ucast hi) OR ucast lo :: uint16) * 165 * 100 div 65536 - 4000)"
    by (simp add: HDC2080_Read_def Let_def)
  ultimately show ?thesis unfolding uint_le16 by (simp only: mult.assoc) simp
qed

lemma temperature_threshold_value:
  assumes "- 4000 \<le> sint t" "sint t \<le> 12499"
  shows "temperature_threshold t = Some (word_of_int ((sint t + 4000) * 256 div 16500))"
    "uint (word_of_int ((sint t + 4000) * 256 div 16500) :: uint8) = (sint t + 4000) * 256 div 16500"
proof -
  have r: "0 \<le> (sint t + 4000) * 256 div 16500" "(sint t + 4000) * 256 div 16500 < 256"
    using assms by (simp_all add: pos_imp_zdiv_nonneg_iff div_less_iff)
  show "temperature_threshold t = Some (word_of_int ((sint t + 4000) * 256 div 16500))"
    using assms by (simp add: temperature_threshold_def Let_def int32_ok_def sdiv_nonneg)
  show "uint (word_of_int ((sint t + 4000) * 256 div 16500) :: uint8) = (sint t + 4000) * 256 div 16500"
    using r by (simp add: unsigned_of_int take_bit_int_eq_self)
qed

lemma temperature_alarm_facts:
  assumes "- 4000 \<le> sint t" "sint t \<le> 12499"
  obtains b where "temperature_threshold t = Some b"
    "b < hi \<Longrightarrow> sint t \<le> sint (fix_temp (HDC2080_Read (Some (lo # hi # rest)) h))"
    "hi < b \<Longrightarrow> sint (fix_temp (HDC2080_Read (Some (lo # hi # rest)) h)) < sint t"
proof (rule that [OF temperature_threshold_value(1) [OF assms]])
  let ?a = "(sint t + 4000) * 256" and ?b = "word_of_int ((sint t + 4000) * 256 div 16500) :: uint8"
  have lo: "0 \<le> uint lo" "uint lo < 256" using unsigned_less [of lo, where 'a = int] by simp_all
  note b = temperature_threshold_value(2) [OF assms]
  { assume "?b < hi"
    then have "?a div 16500 < uint hi" unfolding word_less_def b .
    then have "?a < uint hi * 16500" by (simp only: div_less_iff)
    then have "(sint t + 4000) * 65536 \<le> 256 * uint hi * 16500" by simp
    also have "\<dots> \<le> (256 * uint hi + uint lo) * 16500" using lo by simp
    finally have "sint t + 4000 \<le> (256 * uint hi + uint lo) * 16500 div 65536" by (simp only: le_div_iff)
    then show "sint t \<le> sint (fix_temp (HDC2080_Read (Some (lo # hi # rest)) h))"
      unfolding HDC2080_Read_temp by linarith }
  { assume "hi < ?b"
    then have "uint hi + 1 \<le> ?a div 16500" unfolding word_less_def b by linarith
    then have "(uint hi + 1) * 16500 \<le> ?a" by (simp only: le_div_iff)
    have "(256 * uint hi + uint lo) * 16500 < (uint hi + 1) * 16500 * 256" using lo by simp
    also have "\<dots> \<le> (sint t + 4000) * 65536" using \<open>(uint hi + 1) * 16500 \<le> ?a\<close> by simp
    finally have "(256 * uint hi + uint lo) * 16500 div 65536 < sint t + 4000" by (simp only: div_less_iff)
    then show "sint (fix_temp (HDC2080_Read (Some (lo # hi # rest)) h)) < sint t"
      unfolding HDC2080_Read_temp by linarith }
qed

lemma temperature_threshold_wraps:
  "12500 \<le> sint t \<Longrightarrow> sint t < 12564 \<Longrightarrow> temperature_threshold t = Some 0"
  "humidity_threshold 100 = Some 0"
proof -
  assume "12500 \<le> sint t" "sint t < 12564"
  moreover from this have "(sint t + 4000) * 256 div 16500 = 256"
    using le_div_iff [of 16500 256 "(sint t + 4000) * 256"] div_less_iff [of 16500 "(sint t + 4000) * 256" 257] by simp
  ultimately show "temperature_threshold t = Some 0"
    by (simp add: temperature_threshold_def Let_def int32_ok_def sdiv_nonneg)
qed code_simp

subsection \<open>Light\<close>

lemma SFH7776_Read_lux:
  "unat (lux (SFH7776_Read b0 b1 b2 b3 h)) = unat (als_vis (SFH7776_Read b0 b1 b2 b3 h)) div 2"
proof -
  let ?v = "push_bit 8 (ucast b1) OR ucast b0 :: uint16"
  have "8 * 4 * unat ?v * 100 div 100 div 64 = unat ?v div 2" by simp
  moreover have "unat ?v div 2 < 65536" using unsigned_less [of ?v, where 'a = nat] by simp
  ultimately show ?thesis
    by (simp add: SFH7776_Read_def Let_def T_INT_ALS_def GAIN_VIS_def unsigned_of_nat take_bit_nat_eq_self)
qed

lemma als_threshold_eq: "als_threshold t = min (2 * unat t) 65535"
  by (simp add: als_threshold_def GAIN_VIS_def)

lemma threshold_lux_als: "threshold_lux (als_threshold t) = min t 32767"
proof (cases "t \<le> 32767")
  case True
  then have "unat t \<le> 32767" by (simp add: word_le_nat_alt)
  with True show ?thesis by (simp add: threshold_lux_def als_threshold_eq GAIN_VIS_def)
next
  case False
  then have "32767 < unat t" by (simp add: word_le_nat_alt)
  then have "als_threshold t = 65535" by (simp add: als_threshold_eq)
  with False show ?thesis by (simp add: threshold_lux_def GAIN_VIS_def)
qed

lemma SFH7776_Init_config:
  "fst (fst (SFH7776_Init bus part u l s)) =
    (fst s)\<lparr>sfh7776_threshold_upper := min u 32767, sfh7776_threshold_lower := min l 32767\<rparr>"
  by (simp add: SFH7776_Init_def Let_def threshold_lux_als split: prod.split bool.split)

subsection \<open>The numbers of \<open>BSEC_float\<close>\<close>

definition float_value :: "uint16 \<Rightarrow> real" where
  \<comment> \<open>the table in front of \<open>BSEC_float\<close>\<close>
  "float_value v = (let e = unat (drop_bit 10 v); n = real (unat (v AND 0x3FF)) in
     if e = 0 then n / 1024 else n / 1024 * (8 ^ e - 8 ^ (e - 1)) + 8 ^ (e - 1))"

definition float_step :: "uint16 \<Rightarrow> real" where
  "float_step v = (let e = unat (drop_bit 10 v) in (if e = 0 then 1 else 8 ^ e - 8 ^ (e - 1)) / 1024)"

lemma float_parts:
  assumes "e < 8" "n < 1024"
  defines "v \<equiv> push_bit 10 (of_nat e AND 7) OR (of_nat n AND 0x3FF) :: uint16"
  shows "unat (drop_bit 10 v) = e" "unat (v AND 0x3FF) = n"
proof -
  have m: "(0x3FF :: uint16) = mask 10" by (simp add: mask_eq_exp_minus_1)
  have e: "of_nat e AND 7 = (of_nat e :: uint16)"
    using less_8_cases [OF assms(1)] by auto
  have n: "of_nat n AND 0x3FF = (of_nat n :: uint16)"
    unfolding m using assms(2)
    by (simp flip: take_bit_eq_mask add: take_bit_of_nat take_bit_nat_eq_self)
  have "v = push_bit 10 (of_nat e) OR take_bit 10 (of_nat n)"
    unfolding v_def e by (simp add: m take_bit_eq_mask)
  also have "\<dots> = push_bit 10 (of_nat e) + take_bit 10 (of_nat n)"
    by (rule disjunctive_add [symmetric]) (auto simp: bit_simps)
  also have "\<dots> = of_nat (1024 * e + n)"
    using n unfolding m take_bit_eq_mask [symmetric] by (simp add: push_bit_eq_mult)
  finally have v: "v = of_nat (1024 * e + n)" .
  have u: "unat v = 1024 * e + n"
    unfolding v using assms(1,2) by (subst unsigned_of_nat) (simp add: take_bit_nat_eq_self)
  show "unat (drop_bit 10 v) = e" using assms(2) by (simp add: drop_bit_eq_div unat_div u)
  show "unat (v AND 0x3FF) = n"
    using assms(2) unfolding m take_bit_eq_mask [symmetric] by (simp add: take_bit_eq_mod unat_mod u)
qed

lemma float_exponent_bounds:
  assumes "0 \<le> f" "f \<le> 2095360" "- (1 / 2) < float_scaled (float_exponent f) f"
  shows "float_exponent f < 8" "float_scaled (float_exponent f) f + 1 / 2 < 1025"
    "1 < f \<or> f < 1023.5 / 1024 \<Longrightarrow> float_scaled (float_exponent f) f + 1 / 2 < 1024"
  using assms by (auto simp: float_exponent_def float_scaled_def field_simps split: if_splits)

lemma float_value_of:
  assumes "e < 8" "n < 1024"
  defines "v \<equiv> push_bit 10 (of_nat e AND 7) OR (of_nat n AND 0x3FF) :: uint16"
  shows "float_scaled e (float_value v) = real n"
    "float_step v = (if e = 0 then 1 else 8 ^ e - 8 ^ (e - 1)) / 1024"
proof -
  have p: "unat (drop_bit 10 v) = e" "unat (v AND 0x3FF) = n" using float_parts [OF assms(1,2)] by (simp_all add: v_def)
  have "(8 :: real) ^ (e - 1) < 8 ^ e" if "e \<noteq> 0" using that by simp
  then show "float_scaled e (float_value v) = real n"
    by (auto simp: float_scaled_def float_value_def Let_def p)
  show "float_step v = (if e = 0 then 1 else 8 ^ e - 8 ^ (e - 1)) / 1024" by (simp add: float_step_def Let_def p)
qed

lemma float_scaled_diff:
  "float_scaled e a - float_scaled e b = (a - b) / ((if e = 0 then 1 else 8 ^ e - 8 ^ (e - 1)) / 1024)"
  by (simp add: float_scaled_def diff_divide_distrib algebra_simps)

lemma BSEC_float_accuracy_facts:
  assumes "BSEC_float f = Some v" "0 \<le> f" "f \<le> 2095360" "1 < f \<or> f < 1023.5 / 1024"
  shows "\<bar>float_value v - f\<bar> \<le> float_step v / 2"
proof -
  let ?e = "float_exponent f" let ?x = "float_scaled ?e f"
  define n where "n = nat \<lfloor>?x + 1 / 2\<rfloor>"
  define d :: real where "d = (if ?e = 0 then 1 else 8 ^ ?e - 8 ^ (?e - 1)) / 1024"
  have x: "- (1 / 2) < ?x" and v: "v = push_bit 10 (of_nat ?e AND 7) OR (word_of_int \<lfloor>?x + 1 / 2\<rfloor> AND 0x3FF)"
    using assms(1-3) by (auto simp: BSEC_float_def Let_def split: if_splits)
  note b = float_exponent_bounds [OF assms(2,3) x]
  have fl: "0 \<le> \<lfloor>?x + 1 / 2\<rfloor>" "\<lfloor>?x + 1 / 2\<rfloor> < 1024" using x b(3) [OF assms(4)] by (simp_all add: floor_less_iff)
  then have i: "int n = \<lfloor>?x + 1 / 2\<rfloor>" by (simp add: n_def)
  with fl(2) have n1: "n < 1024" by linarith
  have n2: "real n = of_int \<lfloor>?x + 1 / 2\<rfloor>" unfolding i [symmetric] by simp
  have n3: "(word_of_int \<lfloor>?x + 1 / 2\<rfloor> :: uint16) = of_nat n" unfolding i [symmetric] by simp
  from float_value_of [OF b(1) n1] have w: "float_scaled ?e (float_value v) = real n" "float_step v = d"
    unfolding v n3 d_def by simp_all
  have d: "0 < d" by (simp add: d_def)
  have "(float_value v - f) / d = real n - ?x" using float_scaled_diff [of ?e "float_value v" f] by (simp add: w d_def)
  moreover have "\<bar>real n - ?x\<bar> \<le> 1 / 2" unfolding n2 by linarith
  ultimately have "\<bar>(float_value v - f) / d\<bar> \<le> 1 / 2" by simp
  then have "\<bar>float_value v - f\<bar> / d \<le> 1 / 2" using d by (simp add: abs_divide)
  then show ?thesis using d by (simp add: w field_simps)
qed

lemma BSEC_float_undefined:
  assumes "0 \<le> f" "f \<le> 2095360"
  shows "BSEC_float f = None \<longleftrightarrow> 7 < f \<and> f \<le> 8 - 28 / 1024 \<or> 63 < f \<and> f \<le> 64 - 224 / 1024"
  using assms by (auto simp: BSEC_float_def Let_def float_scaled_def float_exponent_def split: if_splits)

lemma BSEC_float_one: "BSEC_float 1 = Some 0" "float_value 0 = 0"
proof -
  have "\<lfloor>(1024 :: real) + 1 / 2\<rfloor> = 1024" by linarith
  then show "BSEC_float 1 = Some 0" by (simp add: BSEC_float_def float_exponent_def float_scaled_def) 
  show "float_value 0 = 0" by (simp add: float_value_def)
qed

section \<open>Properties\<close>

text \<open>
  A temperature threshold within the range of the sensor is turned into a limit that
  agrees with what the firmware reads: whenever the upper byte of the reading is above the limit, the
  temperature that \<open>HDC2080_Read\<close> computes has reached the threshold, and whenever it is below, the temperature
  is below the threshold. (Thresholds from 125 degrees on wrap around to the lowest limit, theorem
  \<open>temperature_threshold_wraps\<close>.)
\<close>
theorem temperature_alarm:
  assumes "- 4000 \<le> sint t" "sint t \<le> 12499"
  shows "\<exists>b. hdc_limits HDC2080_TEMPERATURE_HIGH t = Some [0, b, 0, 0xFF] \<and>
    hdc_limits HDC2080_TEMPERATURE_LOW t = Some [b, 0xFF, 0, 0xFF] \<and>
    (b < hi \<longrightarrow> sint t \<le> sint (fix_temp (HDC2080_Read (Some (lo # hi # rest)) h))) \<and>
    (hi < b \<longrightarrow> sint (fix_temp (HDC2080_Read (Some (lo # hi # rest)) h)) < sint t)"
  by (rule temperature_alarm_facts [OF assms, of hi lo rest h]) (auto simp: hdc_limits_def hdc2080_modes)

theorem temperature_alarm_witness:
  "\<exists>b. hdc_limits HDC2080_TEMPERATURE_HIGH 2500 = Some [0, b, 0, 0xFF] \<and> b = 100 \<and>
    2500 \<le> sint (fix_temp (HDC2080_Read (Some [0, 101, 0, 0, 0]) \<lparr>raw_temp = 0, raw_humid = 0, fix_temp = 0,
      humid = 0, hdc_status = 0\<rparr>))"
proof -
  have "hdc_limits HDC2080_TEMPERATURE_HIGH 2500 = Some [0, 100, 0, 0xFF]" by code_simp
  moreover have "- 4000 \<le> sint (2500 :: uint32)" "sint (2500 :: uint32) \<le> 12499" "sint (2500 :: uint32) = 2500" by code_simp+
  ultimately show ?thesis
    using temperature_alarm [of 2500 101 0 "[0, 0, 0]"] by fastforce
qed

text \<open>
  After \<open>SFH7776_Init\<close> the configuration shows the luminance limits that really apply,
  the given ones or at most 32767, and against such a limit the sensor's comparison agrees with the
  luminance that \<open>SFH7776_Read\<close> computes: a reading above the upper limit has at least its luminance, a reading not
  above it at most.
\<close>
theorem luminance_alarm:
  "let c' = fst (fst (SFH7776_Init bus part u l (c, h))); r = SFH7776_Read b0 b1 b2 b3 h;
       th = als_threshold (sfh7776_threshold_upper c')
   in sfh7776_threshold_upper c' = min u 32767 \<and> sfh7776_threshold_lower c' = min l 32767 \<and>
      (unat (als_vis r) \<le> th \<or> sfh7776_threshold_upper c' \<le> lux r) \<and>
      (th < unat (als_vis r) \<or> lux r \<le> sfh7776_threshold_upper c')"
proof -
  let ?u = "min u 32767" let ?r = "SFH7776_Read b0 b1 b2 b3 h"
  have "?u \<le> 32767" by simp
  then have "unat ?u \<le> 32767" by (simp only: word_le_nat_alt) simp
  then have th: "als_threshold ?u = 2 * unat ?u" by (simp add: als_threshold_eq)
  show ?thesis
    unfolding Let_def SFH7776_Init_config fst_conv by (auto simp: th word_le_nat_alt SFH7776_Read_lux)
qed

text \<open>
  The 13 bit floating point numbers of the uplink represent every value between 0 and
  2095360 with an error of at most half a step of the table, wherever the conversion is defined
  (\<open>BSEC_float_undefined\<close>) and the value is not rounded up to 1 (\<open>BSEC_float_one\<close>).
\<close>
theorem BSEC_float_accuracy:
  assumes "BSEC_float f = Some v" "0 \<le> f" "f \<le> 2095360" "1 < f \<or> f < 1023.5 / 1024"
  shows "\<bar>float_value v - f\<bar> \<le> float_step v / 2"
  by (rule BSEC_float_accuracy_facts [OF assms])

theorem BSEC_float_accuracy_witness: "\<exists>v. BSEC_float 5 = Some v \<and> \<bar>float_value v - 5\<bar> \<le> float_step v / 2"
proof -
  obtain v where v: "BSEC_float 5 = Some v" using BSEC_float_undefined [of 5] by fastforce
  with BSEC_float_accuracy [of 5 v] show ?thesis by simp
qed

end
