(* ===== verification/Uplink_Queue.thy ===== *)
theory Uplink_Queue
  imports Complex_Main Lrw_Config Sensors
begin

text \<open>
  The uplink queue of \<^verbatim>\<open>src/Src/lrw.c\<close>: three message slots that the interrupts and the main loop
  fill (\<open>enqueueToSend\<close>) and the main loop empties (\<open>LRW_Send\<close>), with the retransmission of confirmed
  messages and the call-backs of the LoRaMac-node stack. What the stack answers to a request is a
  parameter (\<open>radio_env\<close>); the sensor readings are a parameter too (\<open>measurements\<close>): the conversions of
  \<open>voltage * 100\<close> and \<open>temperature * 10\<close> to integers, which are computed in single precision, are
  taken as read. The event log of \<open>EEDBGLOG\<close> builds and the debug
  output are left out.
\<close>

section \<open>State\<close>

definition LRW_QUEUE_LEN :: nat where "LRW_QUEUE_LEN = 3"
definition NONE :: uint8 where "NONE = 0"
definition SCHEDULED :: uint8 where "SCHEDULED = 1"
definition EVENT :: uint8 where "EVENT = 2"
definition LRW_B0_TRIGGER_EVENT :: uint8 where "LRW_B0_TRIGGER_EVENT = 1"
definition EU868_MAX_TX_POWER :: uint8 where "EU868_MAX_TX_POWER = 0"

lemmas msg_types = NONE_def SCHEDULED_def EVENT_def

record LRW_Msg =
  msg_type :: uint8
  msg_len :: uint8
  msg_buf :: bytes
  trigger_type :: uint8        \<comment> \<open>STX builds only\<close>

record LRW_Handle =
  retrans_left :: uint8
  retrans_index :: uint8
  retrans_txp_prior :: uint8   \<comment> \<open>an \<open>int8_t\<close>\<close>
  retrans_txp_override :: bool
  queue :: "LRW_Msg list"

record LmHandlerTxParams =
  IsMcpsConfirm :: bool
  tx_status :: uint8
  MsgType_confirmed :: bool
  AckReceived :: bool
  tx_datarate :: uint8
  UplinkCounter :: uint32
  TxPower :: uint8
  tx_channel :: uint8

record LmHandlerJoinParams =
  join_dev_addr :: uint32
  join_datarate :: uint8
  join_success :: bool

record mcps_req =
  \<comment> \<open>a data request to the stack; \<open>None\<close> is a port that is not initialised\<close>
  req_confirmed :: bool
  req_datarate :: uint8
  req_port :: "uint8 option"
  req_payload :: bytes

record lrw_state =
  handle :: LRW_Handle
  dev_config :: DeviceConfig
  nvm :: mac
  DutyCycleWaitTime :: uint32
  IsUplinkTxPending :: bool
  TxParams :: LmHandlerTxParams
  JoinParams :: LmHandlerJoinParams
  requests :: "mcps_req list"  \<comment> \<open>the data requests made so far\<close>

record radio_env =
  query_tx_possible :: "nat \<Rightarrow> mac \<Rightarrow> bool"
  mcps_request :: "mcps_req \<Rightarrow> mac \<Rightarrow> mac \<times> mac_status \<times> uint32"

definition LRW_IsJoined :: "mac \<Rightarrow> bool" where
  "LRW_IsJoined m \<longleftrightarrow> NetworkActivation m \<noteq> ACTIVATION_TYPE_NONE"

fun first_slot :: "(LRW_Msg \<Rightarrow> bool) \<Rightarrow> LRW_Msg list \<Rightarrow> nat" where
  \<comment> \<open>the search loops; the length of the queue when there is none\<close>
  "first_slot P [] = 0"
| "first_slot P (m # ms) = (if P m then 0 else Suc (first_slot P ms))"

fun LRW_HasQueue :: "LRW_Msg list \<Rightarrow> uint32" where
  "LRW_HasQueue [] = 0"
| "LRW_HasQueue (m # ms) = (if msg_type m \<noteq> 0 then 1 else LRW_HasQueue ms)"

section \<open>Composing a message\<close>

record measurements =
  voltage_100 :: uint32
  temperature_10 :: uint32     \<comment> \<open>an \<open>int32_t\<close>\<close>
  detectedGesture :: uint8
  bma_raw :: "uint16 \<times> uint16 \<times> uint16"
  bma_ref :: "uint8 \<times> uint8 \<times> uint8"
  hdc_raw_temp :: uint16
  hdc_humid :: uint8
  sfh_lux :: uint16
  bme_temperature :: uint16    \<comment> \<open>an \<open>int16_t\<close>\<close>
  bme_humidity :: uint32
  bme_pressure :: uint32
  bsec_acc :: uint32
  bsec_iaq :: real
  bsec_voc :: real
  bsec_co2 :: real

definition voltage_byte :: "uint32 \<Rightarrow> uint8" where
  "voltage_byte v0 =
    (let v1 = (if v0 < 201 then 201 else v0);
         v = (if v1 > 327 then 327 else v1)
     in ucast ((v - 200) AND 0x7F))"

definition temperature_byte :: "uint32 \<Rightarrow> uint8" where
  "temperature_byte t0 =
    (let t1 = (if sint t0 < -400 then -400 else sint t0);
         t = (if t1 > 1250 then 1250 else t1)
     in word_of_int ((t + 400) * 255 div 1650))"

definition sta_scheduled :: "measurements \<Rightarrow> LRW_Msg \<Rightarrow> LRW_Msg" where
  "sta_scheduled r m = m\<lparr>msg_len := 3, msg_buf :=
     (msg_buf m)[1 := voltage_byte (voltage_100 r), 2 := temperature_byte (temperature_10 r), 0 := 0x40]\<rparr>"

definition gesture_event :: "uint8 \<Rightarrow> DeviceConfig \<Rightarrow> (uint8 \<times> uint8) \<times> DeviceConfig" where
  \<comment> \<open>the gesture code and the count sent with it\<close>
  "gesture_event g c =
    (if g = 1 then ((0, singleCount c), (mark_any c)\<lparr>singleCount := singleCount c + 1\<rparr>)
     else if g = 2 then ((1, doubleCount c), (mark_any c)\<lparr>doubleCount := doubleCount c + 1\<rparr>)
     else if g = 3 then ((2, longCount c), (mark_any c)\<lparr>longCount := longCount c + 1\<rparr>)
     else ((3, 0), c))"

definition sta_event :: "measurements \<Rightarrow> LRW_Msg \<Rightarrow> DeviceConfig \<Rightarrow> LRW_Msg \<times> DeviceConfig" where
  "sta_event r m c = (case gesture_event (detectedGesture r) c of ((gest, cnt), c') \<Rightarrow>
     (m\<lparr>msg_len := 4, msg_buf := (msg_buf m)
        [1 := voltage_byte (voltage_100 r) OR push_bit 7 (drop_bit 1 (gest AND 2)),
         2 := temperature_byte (temperature_10 r),
         0 := push_bit 1 (gest AND 1) OR 0x40 OR LRW_B0_TRIGGER_EVENT,
         3 := cnt]\<rparr>, c'))"

definition stx_message :: "measurements \<Rightarrow> LRW_Msg \<Rightarrow> LRW_Msg" where
  \<comment> \<open>scheduled messages and events; the trigger is the one the slot holds\<close>
  "stx_message r m = (case bma_raw r of (x, y, z) \<Rightarrow> case bma_ref r of (xr, yr, zr) \<Rightarrow>
     m\<lparr>msg_len := 12, msg_buf :=
       [0x40 OR (trigger_type m AND 3),
        voltage_byte (voltage_100 r) OR push_bit 7 (drop_bit 2 (trigger_type m AND 4)),
        ucast x, ucast y, ucast z, xr, yr, zr,
        ucast (drop_bit 7 (hdc_raw_temp r) AND 0xFF),
        ucast (drop_bit 8 (hdc_raw_temp r) AND 0x80) OR (hdc_humid r mod 100),
        ucast (sfh_lux r),
        ucast (drop_bit 8 (sfh_lux r) AND 0x3F) OR push_bit 6 (drop_bit 3 (trigger_type m AND 0x18))]\<rparr>)"

definition bme_temperature_bits :: "uint16 \<Rightarrow> uint16" where
  "bme_temperature_bits t0 =
    (let t1 = (if sint t0 > 8500 then 8500 else sint t0);
         t = (if t1 < -4000 then -4000 else t1)
     in word_of_int ((t + 4000) * 511 div 12500))"

definition bme_humidity_bits :: "uint32 \<Rightarrow> uint8" where
  "bme_humidity_bits h = (if h > 127000 then 127 else ucast (h div 1000))"

definition bme_pressure_bits :: "uint32 \<Rightarrow> uint32" where
  \<comment> \<open>the clamped \<open>v\<close> of the code is overwritten with this\<close>
  "bme_pressure_bits p = ucast (ucast (p - 30000) * (65535 :: uint64) div 80000)"

definition bsec_iaq_bits :: "real \<Rightarrow> uint16" where
  "bsec_iaq_bits x = (if x < 0 then 0x1FF else if x > 510 then 0x1FE else word_of_int \<lfloor>x + 1 / 2\<rfloor>)"

definition bsec_co2_bits :: "real \<Rightarrow> uint16" where
  "bsec_co2_bits x = (if x < 0 then 0 else if x > 32767 then 32767 else word_of_int \<lfloor>x\<rfloor>)"

definition ste_scheduled :: "measurements \<Rightarrow> LRW_Msg \<Rightarrow> LRW_Msg option" where
  \<comment> \<open>\<open>None\<close> where \<open>BSEC_float\<close> is undefined\<close>
  "ste_scheduled r m =
    (let t = bme_temperature_bits (bme_temperature r); p = bme_pressure_bits (bme_pressure r);
         q = bsec_iaq_bits (bsec_iaq r); co2 = bsec_co2_bits (bsec_co2 r)
     in map_option (\<lambda>voc. m\<lparr>msg_len := 11, msg_buf :=
       [0x40, voltage_byte (voltage_100 r),
        ucast t, ucast (push_bit 7 (drop_bit 8 t) AND 0x80) OR (bme_humidity_bits (bme_humidity r) AND 0x7F),
        ucast p, ucast (drop_bit 8 p),
        ucast q, ucast voc, ucast co2,
        ucast (drop_bit 8 voc AND 0x0F) OR ucast (push_bit 4 (drop_bit 8 co2) AND 0xF0),
        ucast (bsec_acc r AND 3) OR ucast (push_bit 7 (drop_bit 8 q) AND 0x80) OR
          ucast (push_bit 5 (drop_bit 12 voc) AND 0x20) OR ucast (push_bit 2 (drop_bit 12 co2) AND 0x1C)]
       @ drop 11 (msg_buf m)\<rparr>) (BSEC_float (bsec_voc r)))"

definition compose :: "family \<Rightarrow> uint8 \<Rightarrow> measurements \<Rightarrow> LRW_Msg \<Rightarrow> DeviceConfig \<Rightarrow> (LRW_Msg \<times> DeviceConfig) option" where
  \<comment> \<open>the \<open>switch\<close> of \<open>enqueueToSend\<close>; an event on STE fails an assertion\<close>
  "compose fam ty r m c = (case fam of
     STA \<Rightarrow> Some (if ty = SCHEDULED then (sta_scheduled r m, c) else sta_event r m c)
   | STX \<Rightarrow> Some (stx_message r m, c)
   | STE \<Rightarrow> if ty = SCHEDULED then map_option (\<lambda>m'. (m', c)) (ste_scheduled r m) else None)"

section \<open>Operations\<close>

definition set_queue :: "(LRW_Msg list \<Rightarrow> LRW_Msg list) \<Rightarrow> lrw_state \<Rightarrow> lrw_state" where
  "set_queue f s = s\<lparr>handle := (handle s)\<lparr>queue := f (queue (handle s))\<rparr>\<rparr>"

definition enqueueToSend :: "family \<Rightarrow> measurements \<Rightarrow> uint8 \<Rightarrow> uint8 \<Rightarrow> lrw_state \<Rightarrow> lrw_state option" where
  "enqueueToSend fam r ty trig s =
    (let q = queue (handle s); i = first_slot (\<lambda>m. msg_type m = 0) q
     in if \<not> LRW_IsJoined (nvm s) then Some s
        else if LRW_QUEUE_LEN \<le> i then Some s
        else if ty \<noteq> SCHEDULED \<and> ty \<noteq> EVENT then Some s
        else case compose fam ty r (q ! i) (dev_config s) of
          None \<Rightarrow> None
        | Some (m, c) \<Rightarrow>
            let m1 = (if fam = STX then m\<lparr>trigger_type := trig\<rparr> else m)
            in Some (set_queue (\<lambda>q. q[i := m1\<lparr>msg_type := ty\<rparr>]) (s\<lparr>dev_config := c\<rparr>)))"

definition release_slot :: "nat \<Rightarrow> LRW_Msg list \<Rightarrow> LRW_Msg list" where
  \<comment> \<open>clearing \<open>msg_type\<close> frees the slot\<close>
  "release_slot i q = q[i := (q ! i)\<lparr>msg_type := 0\<rparr>]"

record join_req =
  join_req_datarate :: uint8
  join_req_activation :: uint8

definition LRW_Join :: "(join_req \<Rightarrow> mac \<Rightarrow> mac \<times> uint32) \<Rightarrow> lrw_state \<Rightarrow> lrw_state" where
  \<comment> \<open>\<open>LoRaMacMlmeRequest\<close> is a parameter; it yields the stack and the wait it asks for\<close>
  "LRW_Join mlme_request s =
    (let c = dev_config s;
         req = \<lparr>join_req_datarate = LRW_ToDatarate (mac_region (nvm s)) (sf c) (bw c),
                join_req_activation = (if isOtaa c then ACTIVATION_TYPE_OTAA else ACTIVATION_TYPE_ABP)\<rparr>
     in case mlme_request req (nvm s) of (m, wait) \<Rightarrow> s\<lparr>nvm := m, DutyCycleWaitTime := wait\<rparr>)"

definition embed_power :: "uint8 \<Rightarrow> uint8 \<Rightarrow> uint8" where
  "embed_power p b = (b AND 0xC3) OR push_bit 2 (p AND 7)"

definition with_tx_power :: "uint8 \<Rightarrow> bytes \<Rightarrow> bytes" where
  "with_tx_power p b = b[0 := embed_power p (b ! 0)]"

definition set_power :: "uint8 \<Rightarrow> nat \<Rightarrow> LRW_Msg list \<Rightarrow> LRW_Msg list" where
  \<comment> \<open>"Embed TX Power"\<close>
  "set_power p i q = q[i := (q ! i)\<lparr>msg_buf := with_tx_power p (msg_buf (q ! i))\<rparr>]"

definition LRW_TX :: "radio_env \<Rightarrow> uint8 \<Rightarrow> bytes \<Rightarrow> lrw_state \<Rightarrow> lrw_state" where
  "LRW_TX env port payload s =
    (let c = dev_config s; dr = LRW_ToDatarate (mac_region (nvm s)) (sf c) (bw c);
         req = (if query_tx_possible env (length payload) (nvm s)
                then \<lparr>req_confirmed = confirmedMsgs c, req_datarate = dr, req_port = Some port, req_payload = payload\<rparr>
                else \<lparr>req_confirmed = False, req_datarate = dr, req_port = None, req_payload = []\<rparr>);
         tp = (TxParams s)\<lparr>MsgType_confirmed := confirmedMsgs c, tx_datarate := dr\<rparr>
     in case mcps_request env req (nvm s) of (m, status, wait) \<Rightarrow>
       s\<lparr>TxParams := tp, nvm := m, DutyCycleWaitTime := wait, requests := requests s @ [req],
         IsUplinkTxPending := (if status = LORAMAC_STATUS_OK then False else IsUplinkTxPending s)\<rparr>)"

definition send_slot :: "radio_env \<Rightarrow> nat \<Rightarrow> lrw_state \<Rightarrow> lrw_state" where
  \<comment> \<open>the last part of \<open>LRW_Send\<close>: hand slot \<open>i\<close> over, count the attempt, free the slot\<close>
  "send_slot env i s =
    (let s1 = set_queue (set_power (ChannelsTxPower (nvm s)) i) s;
         m = queue (handle s1) ! i;
         s2 = LRW_TX env (txPort (dev_config s1)) (take (unat (msg_len m)) (msg_buf m)) s1;
         left = retrans_left (handle s2);
         left' = (if left \<noteq> 0 then left - 1 else left)
     in if DutyCycleWaitTime s2 \<noteq> 0 then s2
        else let s3 = s2\<lparr>handle := (handle s2)\<lparr>retrans_left := left'\<rparr>\<rparr>
             in if left' = 0 then set_queue (release_slot i) s3 else s3)"

definition LRW_Send :: "radio_env \<Rightarrow> lrw_state \<Rightarrow> lrw_state" where
  "LRW_Send env s =
    (let h = handle s; power = ChannelsTxPower (nvm s);
         i = (if retrans_left h \<noteq> 0 then unat (retrans_index h) else first_slot (\<lambda>m. msg_type m \<noteq> 0) (queue h));
         h1 = (if retrans_txp_override h then h
               else h\<lparr>retrans_txp_override := True, retrans_txp_prior := power\<rparr>);
         h2 = h\<lparr>retrans_left := 3, retrans_index := word_of_nat i\<rparr>
     in if LRW_QUEUE_LEN \<le> i then s
        else if confirmedMsgs (dev_config s) then
          (if retrans_left h \<noteq> 0 then
             (if power \<noteq> EU868_MAX_TX_POWER
              then s\<lparr>handle := h1, nvm := mib_put (MIB_CHANNELS_TX_POWER EU868_MAX_TX_POWER) (nvm s)\<rparr>
              else send_slot env i (s\<lparr>handle := h1\<rparr>))
           else send_slot env i (s\<lparr>handle := h2\<rparr>))
        else send_slot env i s)"

section \<open>Call-backs of the stack\<close>

record mcps_confirm =
  cf_status :: uint8
  cf_datarate :: uint8
  cf_UpLinkCounter :: uint32
  cf_TxPower :: uint8
  cf_channel :: uint8
  cf_AckReceived :: bool

definition McpsConfirm :: "mcps_confirm \<Rightarrow> lrw_state \<Rightarrow> lrw_state" where
  "McpsConfirm cf s =
    (let s1 = s\<lparr>TxParams := (TxParams s)\<lparr>IsMcpsConfirm := True, tx_status := cf_status cf,
           tx_datarate := cf_datarate cf, UplinkCounter := cf_UpLinkCounter cf, TxPower := cf_TxPower cf,
           tx_channel := cf_channel cf, AckReceived := cf_AckReceived cf\<rparr>\<rparr>;
         i = unat (retrans_index (handle s1));
         s2 = (if cf_AckReceived cf
               then set_queue (release_slot i)
                      (s1\<lparr>handle := (handle s1)\<lparr>retrans_left := 0\<rparr>\<rparr>)
               else s1);
         h = handle s2
     in if retrans_left h = 0 \<and> retrans_txp_override h
        then s2\<lparr>handle := h\<lparr>retrans_txp_override := False\<rparr>,
                nvm := mib_put (MIB_CHANNELS_TX_POWER (retrans_txp_prior h)) (nvm s2)\<rparr>
        else s2)"

definition LORAMAC_EVENT_INFO_STATUS_OK :: uint8 where "LORAMAC_EVENT_INFO_STATUS_OK = 0"
definition LORAMAC_EVENT_INFO_STATUS_BEACON_LOCKED :: uint8 where "LORAMAC_EVENT_INFO_STATUS_BEACON_LOCKED = 13"
definition MLME_JOIN :: uint8 where "MLME_JOIN = 1"
definition MLME_SCHEDULE_UPLINK :: uint8 where "MLME_SCHEDULE_UPLINK = 6"

definition McpsIndication :: "uint8 \<Rightarrow> bool \<Rightarrow> uint32 \<Rightarrow> lrw_state \<Rightarrow> lrw_state" where
  \<comment> \<open>of the downlink only its status, \<open>FramePending\<close> and \<open>ResponseTimeout\<close> matter; the rest is displayed\<close>
  "McpsIndication status frame_pending response_timeout s =
    (if status = LORAMAC_EVENT_INFO_STATUS_OK \<and> (frame_pending \<or> response_timeout > 0)
     then s\<lparr>IsUplinkTxPending := True\<rparr> else s)"

definition MlmeConfirm :: "uint8 \<Rightarrow> uint8 \<Rightarrow> lrw_state \<Rightarrow> lrw_state" where
  "MlmeConfirm request status s =
    (let s1 = s\<lparr>TxParams := (TxParams s)\<lparr>IsMcpsConfirm := False, tx_status := status\<rparr>\<rparr>
     in if request = MLME_JOIN
        then s1\<lparr>JoinParams := \<lparr>join_dev_addr = mac_dev_addr (nvm s1), join_datarate = ChannelsDatarate (nvm s1),
                  join_success = (status = LORAMAC_EVENT_INFO_STATUS_OK)\<rparr>\<rparr>
        else s1)"

definition MlmeIndication :: "uint8 \<Rightarrow> uint8 \<Rightarrow> lrw_state \<Rightarrow> lrw_state option" where
  \<comment> \<open>other indications reach \<open>OnRxData\<close> with a null pointer, which it dereferences\<close>
  "MlmeIndication indication status s =
    (if status \<noteq> LORAMAC_EVENT_INFO_STATUS_BEACON_LOCKED then None
     else Some (if indication = MLME_SCHEDULE_UPLINK then s\<lparr>IsUplinkTxPending := True\<rparr> else s))"

section \<open>The queue as a set of slots\<close>

text \<open>What the two sides rely on: pushing takes a slot that is free, releasing affects one slot.\<close>

locale slot_queue =
  fixes ok :: "'q \<Rightarrow> bool"
    and valid :: "'m \<Rightarrow> bool"
    and cap :: nat
    and view :: "'q \<Rightarrow> nat \<Rightarrow> 'm option"
    and free_slot :: "'q \<Rightarrow> nat"
    and put :: "nat \<Rightarrow> 'm \<Rightarrow> 'q \<Rightarrow> 'q"
    and release :: "nat \<Rightarrow> 'q \<Rightarrow> 'q"
  assumes view_below: "ok q \<Longrightarrow> view q i \<noteq> None \<Longrightarrow> i < cap"
    and free_is_free: "ok q \<Longrightarrow> free_slot q < cap \<Longrightarrow> view q (free_slot q) = None"
    and full_is_full: "ok q \<Longrightarrow> cap \<le> free_slot q \<Longrightarrow> i < cap \<Longrightarrow> view q i \<noteq> None"
    and put_ok: "ok q \<Longrightarrow> i < cap \<Longrightarrow> valid m \<Longrightarrow> ok (put i m q)"
    and view_put: "ok q \<Longrightarrow> i < cap \<Longrightarrow> valid m \<Longrightarrow> view (put i m q) = (view q)(i \<mapsto> m)"
    and release_ok: "ok q \<Longrightarrow> i < cap \<Longrightarrow> ok (release i q)"
    and view_release: "ok q \<Longrightarrow> i < cap \<Longrightarrow> view (release i q) = (view q)(i := None)"
begin

definition push :: "'m \<Rightarrow> 'q \<Rightarrow> 'q" where
  "push m q = (if cap \<le> free_slot q then q else put (free_slot q) m q)"

lemma push_ok: "ok q \<Longrightarrow> valid m \<Longrightarrow> ok (push m q)"
  by (simp add: push_def put_ok)

lemma push_keeps:
  assumes "ok q" "valid m" "view q i = Some x"
  shows "view (push m q) i = Some x"
proof (cases "cap \<le> free_slot q")
  case False
  then have "i \<noteq> free_slot q" using assms free_is_free [of q] by auto
  with False assms show ?thesis by (simp add: push_def view_put)
qed (simp add: push_def assms)

lemma push_adds:
  assumes "ok q" "valid m" "i < cap" "view q i = None"
  shows "\<exists>j < cap. view q j = None \<and> view (push m q) = (view q)(j \<mapsto> m)"
proof -
  have "\<not> cap \<le> free_slot q" using full_is_full [of q i] assms by auto
  then show ?thesis using assms free_is_free [of q]
    by (intro exI [of _ "free_slot q"]) (simp add: push_def view_put)
qed

lemma push_full:
  assumes "ok q" "\<And>i. i < cap \<Longrightarrow> view q i \<noteq> None"
  shows "push m q = q"
proof -
  have "cap \<le> free_slot q" using free_is_free [OF assms(1)] assms(2) not_le by blast
  then show ?thesis by (simp add: push_def)
qed

lemma held_finite: "ok q \<Longrightarrow> finite (dom (view q))"
  by (rule finite_subset [of _ "{..<cap}"]) (auto simp: dom_def dest: view_below)

lemma held_bound: "ok q \<Longrightarrow> card (dom (view q)) \<le> cap"
  using card_mono [of "{..<cap}" "dom (view q)"] view_below [of q] by (simp add: subset_iff domIff)

lemma held_push:
  assumes "ok q" "valid m"
  shows "card (dom (view (push m q))) = min cap (card (dom (view q)) + 1)"
proof (cases "\<exists>i < cap. view q i = None")
  case True
  then obtain j where j: "j < cap" "view q j = None" "view (push m q) = (view q)(j \<mapsto> m)"
    using push_adds [OF assms] by blast
  then have "dom (view q) \<subseteq> {..<cap} - {j}" using view_below [OF assms(1)] by (auto simp: dom_def)
  with j(1) have "dom (view q) \<subset> {..<cap}" by blast
  from psubset_card_mono [OF _ this] have "card (dom (view q)) < cap" by simp
  with j show ?thesis using held_finite [OF assms(1)] by (simp add: domIff)
next
  case False
  then have "dom (view q) = {..<cap}" using view_below [OF assms(1)] by (auto simp: dom_def)
  with False show ?thesis using push_full [OF assms(1), of m] by simp
qed

lemma held_release:
  assumes "ok q" "view q i \<noteq> None"
  shows "card (dom (view (release i q))) = card (dom (view q)) - 1"
  using assms view_release [OF assms(1) view_below [OF assms]] held_finite [OF assms(1)]
  by (simp add: domIff)

end

definition slot_view :: "LRW_Msg list \<Rightarrow> nat \<Rightarrow> LRW_Msg option" where
  "slot_view q i = (if i < length q \<and> msg_type (q ! i) \<noteq> 0 then Some (q ! i) else None)"

definition msg_wf :: "LRW_Msg \<Rightarrow> bool" where
  "msg_wf m \<longleftrightarrow> length (msg_buf m) = 12 \<and> msg_len m \<le> 12"

definition queue_wf :: "LRW_Msg list \<Rightarrow> bool" where
  "queue_wf q \<longleftrightarrow> length q = LRW_QUEUE_LEN \<and> (\<forall>m \<in> set q. msg_wf m)"

lemma first_slot_le: "first_slot P q \<le> length q"
  by (induction q) auto

lemma first_slot_found: "first_slot P q < length q \<Longrightarrow> P (q ! first_slot P q)"
  by (induction q) auto

lemma first_slot_before: "i < first_slot P q \<Longrightarrow> \<not> P (q ! i)"
  by (induction q arbitrary: i) (auto simp: less_Suc_eq_0_disj split: if_splits)

definition free_slot :: "LRW_Msg list \<Rightarrow> nat" where
  "free_slot q = first_slot (\<lambda>m. msg_type m = 0) q"

definition put_slot :: "nat \<Rightarrow> LRW_Msg \<Rightarrow> LRW_Msg list \<Rightarrow> LRW_Msg list" where
  "put_slot i m q = q[i := m]"

lemma slot_view_update:
  "i < length q \<Longrightarrow> slot_view (q[i := m]) = (slot_view q)(i := if msg_type m = 0 then None else Some m)"
  by (rule ext) (auto simp: slot_view_def nth_list_update)

lemma queue_wf_update: "queue_wf q \<Longrightarrow> msg_wf m \<Longrightarrow> queue_wf (q[i := m])"
  using set_update_subset_insert [of q i m] by (auto simp: queue_wf_def)

lemma queue_wf_nth: "queue_wf q \<Longrightarrow> i < LRW_QUEUE_LEN \<Longrightarrow> msg_wf (q ! i)"
  by (simp add: queue_wf_def)

lemma queue_wf_length [simp]: "queue_wf q \<Longrightarrow> length q = LRW_QUEUE_LEN"
  by (simp add: queue_wf_def)

lemma msg_wf_simps [simp]:
  "msg_wf (m\<lparr>msg_type := t\<rparr>) = msg_wf m" "msg_wf (m\<lparr>trigger_type := t\<rparr>) = msg_wf m"
  by (simp_all add: msg_wf_def)

interpretation uplink: slot_queue queue_wf "\<lambda>m. msg_wf m \<and> msg_type m \<noteq> 0" LRW_QUEUE_LEN
  slot_view free_slot put_slot release_slot
proof
  fix q :: "LRW_Msg list" and i :: nat and m :: LRW_Msg
  assume q: "queue_wf q"
  note len = queue_wf_length [OF q]
  show "slot_view q i \<noteq> None \<Longrightarrow> i < LRW_QUEUE_LEN"
    by (auto simp: slot_view_def len split: if_splits)
  show "free_slot q < LRW_QUEUE_LEN \<Longrightarrow> slot_view q (free_slot q) = None"
    using first_slot_found [of "\<lambda>m. msg_type m = 0" q] by (simp add: slot_view_def len free_slot_def)
  show "LRW_QUEUE_LEN \<le> free_slot q \<Longrightarrow> i < LRW_QUEUE_LEN \<Longrightarrow> slot_view q i \<noteq> None"
    using first_slot_before [of i "\<lambda>m. msg_type m = 0" q] by (simp add: slot_view_def len free_slot_def)
  assume i: "i < LRW_QUEUE_LEN"
  show "msg_wf m \<and> msg_type m \<noteq> 0 \<Longrightarrow> queue_wf (put_slot i m q)"
    using q by (simp add: put_slot_def queue_wf_update)
  show "msg_wf m \<and> msg_type m \<noteq> 0 \<Longrightarrow> slot_view (put_slot i m q) = (slot_view q)(i \<mapsto> m)"
    using i by (simp add: put_slot_def slot_view_update len)
  show "queue_wf (release_slot i q)"
    using q i by (simp add: release_slot_def queue_wf_update queue_wf_nth)
  show "slot_view (release_slot i q) = (slot_view q)(i := None)"
    using i by (simp add: release_slot_def slot_view_update len)
qed

section \<open>What the operations keep\<close>

lemma compose_wf: "compose fam ty r m c = Some (m', c') \<Longrightarrow> msg_wf m \<Longrightarrow> msg_wf m'"
  by (auto simp: compose_def sta_scheduled_def sta_event_def stx_message_def ste_scheduled_def msg_wf_def Let_def
      split: family.splits if_splits prod.splits)

lemma set_queue_simps [simp]:
  "queue (handle (set_queue f s)) = f (queue (handle s))" "nvm (set_queue f s) = nvm s"
  "dev_config (set_queue f s) = dev_config s" "DutyCycleWaitTime (set_queue f s) = DutyCycleWaitTime s"
  "requests (set_queue f s) = requests s"
  "retrans_left (handle (set_queue f s)) = retrans_left (handle s)"
  "retrans_index (handle (set_queue f s)) = retrans_index (handle s)"
  "retrans_txp_override (handle (set_queue f s)) = retrans_txp_override (handle s)"
  "retrans_txp_prior (handle (set_queue f s)) = retrans_txp_prior (handle s)"
  by (simp_all add: set_queue_def)

lemma LRW_TX_handle [simp]: "handle (LRW_TX env p b s) = handle s" "dev_config (LRW_TX env p b s) = dev_config s"
  by (simp_all add: LRW_TX_def Let_def split: prod.split)

lemma enqueue_cases:
  \<comment> \<open>an event is ignored, or it is pushed\<close>
  assumes "enqueueToSend fam r ty trig s = Some s'" "queue_wf (queue (handle s))"
  obtains "s' = s" "\<not> (LRW_IsJoined (nvm s) \<and> free_slot (queue (handle s)) < LRW_QUEUE_LEN \<and> (ty = SCHEDULED \<or> ty = EVENT))"
  | m c where "msg_wf m" "msg_type m \<noteq> 0" "s' = set_queue (uplink.push m) (s\<lparr>dev_config := c\<rparr>)" "msg_type m = ty"
proof (cases "LRW_IsJoined (nvm s) \<and> free_slot (queue (handle s)) < LRW_QUEUE_LEN \<and> (ty = SCHEDULED \<or> ty = EVENT)")
  case True
  let ?q = "queue (handle s)" let ?i = "free_slot ?q"
  from True assms(1) obtain m c where m: "compose fam ty r (?q ! ?i) (dev_config s) = Some (m, c)"
    and s': "s' = set_queue (\<lambda>q. q[?i := (if fam = STX then m\<lparr>trigger_type := trig\<rparr> else m)\<lparr>msg_type := ty\<rparr>])
        (s\<lparr>dev_config := c\<rparr>)"
    by (fastforce simp: enqueueToSend_def Let_def free_slot_def split: option.splits)
  let ?m = "(if fam = STX then m\<lparr>trigger_type := trig\<rparr> else m)\<lparr>msg_type := ty\<rparr>"
  have wf: "msg_wf ?m" using compose_wf [OF m] queue_wf_nth [OF assms(2)] True by simp
  have "msg_type ?m \<noteq> 0" using True by (auto simp: msg_types)
  moreover have "s' = set_queue (uplink.push ?m) (s\<lparr>dev_config := c\<rparr>)"
    using True by (simp add: s' set_queue_def uplink.push_def put_slot_def)
  moreover have "msg_type ?m = ty" by simp
  ultimately show thesis using wf that(2) by blast
next
  case False
  then have "s' = s" using assms(1)
    by (auto simp: enqueueToSend_def Let_def free_slot_def split: if_splits)
  then show thesis using False by (rule that(1))
qed

definition lrw_wf :: "lrw_state \<Rightarrow> bool" where
  \<comment> \<open>the queue is intact, and an unfinished retransmission points at an occupied slot\<close>
  "lrw_wf s \<longleftrightarrow> queue_wf (queue (handle s)) \<and> retrans_left (handle s) \<le> 3 \<and>
     unat (retrans_index (handle s)) < LRW_QUEUE_LEN \<and>
     (retrans_left (handle s) \<noteq> 0 \<longrightarrow> slot_view (queue (handle s)) (unat (retrans_index (handle s))) \<noteq> None)"

lemma lrw_wf_enqueue:
  assumes "enqueueToSend fam r ty trig s = Some s'" "lrw_wf s"
  shows "lrw_wf s'"
proof -
  have q: "queue_wf (queue (handle s))" using assms(2) by (simp add: lrw_wf_def)
  from assms(1) q show ?thesis
  proof (cases rule: enqueue_cases)
    case 2
    from uplink.push_ok [OF q] uplink.push_keeps [OF q] 2(1,2) assms(2) show ?thesis
      by (fastforce simp: lrw_wf_def 2(3))
  qed (use assms in simp)
qed

lemma enqueue_adds:
  assumes "enqueueToSend fam r ty trig s = Some s'" "lrw_wf s" "LRW_IsJoined (nvm s)" "ty = SCHEDULED \<or> ty = EVENT"
    and "j < LRW_QUEUE_LEN" "slot_view (queue (handle s)) j = None"
  obtains i m where "slot_view (queue (handle s)) i = None" "msg_type m = ty"
    "slot_view (queue (handle s')) = (slot_view (queue (handle s)))(i \<mapsto> m)"
proof -
  have q: "queue_wf (queue (handle s))" using assms(2) by (simp add: lrw_wf_def)
  have free: "free_slot (queue (handle s)) < LRW_QUEUE_LEN"
    using uplink.full_is_full [OF q _ assms(5)] assms(6) not_le by blast
  from assms(1) q show thesis
  proof (cases rule: enqueue_cases)
    case (2 m c)
    from uplink.push_adds [OF q _ assms(5,6), of m] 2(1,2) obtain i where
      "slot_view (queue (handle s)) i = None" "slot_view (uplink.push m (queue (handle s))) = (slot_view (queue (handle s)))(i \<mapsto> m)"
      by auto
    then show thesis using that 2(3,4) by simp
  qed (use free assms in simp)
qed

lemma with_tx_power_length [simp]: "length (with_tx_power p b) = length b"
  by (simp add: with_tx_power_def)

lemma set_power_wf: "queue_wf q \<Longrightarrow> i < LRW_QUEUE_LEN \<Longrightarrow> queue_wf (set_power p i q)"
  using queue_wf_nth [of q i] by (auto simp: set_power_def msg_wf_def intro!: queue_wf_update)

lemma set_power_view:
  "slot_view (set_power p i q) j = map_option (\<lambda>m. if i = j then m\<lparr>msg_buf := with_tx_power p (msg_buf m)\<rparr> else m) (slot_view q j)"
  by (cases "i = j") (auto simp: set_power_def slot_view_def)

lemma send_slot_handle:
  "handle (send_slot env i s) =
    (let q1 = set_power (ChannelsTxPower (nvm s)) i (queue (handle s)); h = handle s
     in if DutyCycleWaitTime (send_slot env i s) \<noteq> 0 then h\<lparr>queue := q1\<rparr>
        else if retrans_left h = 0 \<or> retrans_left h = 1 then h\<lparr>retrans_left := 0, queue := release_slot i q1\<rparr>
        else h\<lparr>retrans_left := retrans_left h - 1, queue := q1\<rparr>)"
proof (cases "retrans_left (handle s) = 0")
  case True
  then show ?thesis by (simp add: send_slot_def Let_def set_queue_def)
next
  case False
  then show ?thesis by (simp add: send_slot_def Let_def set_queue_def)
qed

lemma lrw_wf_send_slot:
  assumes "lrw_wf s" "i < LRW_QUEUE_LEN" "retrans_left (handle s) \<noteq> 0 \<longrightarrow> i = unat (retrans_index (handle s))"
  shows "lrw_wf (send_slot env i s)"
proof -
  let ?q = "set_power (ChannelsTxPower (nvm s)) i (queue (handle s))"
  have q: "queue_wf ?q" using assms by (simp add: lrw_wf_def set_power_wf)
  have le: "left - 1 \<le> 3" if "left \<noteq> 0" "left \<le> 3" for left :: uint8 using that by unat_arith
  show ?thesis
    using assms q uplink.release_ok [OF q assms(2)] uplink.view_release [OF q assms(2)]
    by (auto simp: lrw_wf_def send_slot_handle Let_def le set_power_view)
qed

lemma first_busy_view:
  assumes "queue_wf q" "first_slot (\<lambda>m. msg_type m \<noteq> 0) q < LRW_QUEUE_LEN"
  shows "slot_view q (first_slot (\<lambda>m. msg_type m \<noteq> 0) q) \<noteq> None"
  using first_slot_found [of "\<lambda>m. msg_type m \<noteq> 0" q] assms by (simp add: slot_view_def)

definition pick :: "LRW_Handle \<Rightarrow> nat" where
  \<comment> \<open>the slot \<open>LRW_Send\<close> turns to\<close>
  "pick h = (if retrans_left h \<noteq> 0 then unat (retrans_index h) else first_slot (\<lambda>m. msg_type m \<noteq> 0) (queue h))"

lemma pick_view:
  assumes "lrw_wf s" "pick (handle s) < LRW_QUEUE_LEN"
  shows "slot_view (queue (handle s)) (pick (handle s)) \<noteq> None"
  using assms first_busy_view by (auto simp: lrw_wf_def pick_def)

lemma LRW_Send_cases:
  obtains (idle) "LRW_QUEUE_LEN \<le> pick (handle s)" "LRW_Send env s = s"
  | (power) h where "pick (handle s) < LRW_QUEUE_LEN" "retrans_left (handle s) \<noteq> 0" "confirmedMsgs (dev_config s)"
      "ChannelsTxPower (nvm s) \<noteq> EU868_MAX_TX_POWER"
      "h = handle s \<or> h = handle s\<lparr>retrans_txp_override := True, retrans_txp_prior := ChannelsTxPower (nvm s)\<rparr>"
      "LRW_Send env s = s\<lparr>handle := h, nvm := mib_put (MIB_CHANNELS_TX_POWER EU868_MAX_TX_POWER) (nvm s)\<rparr>"
  | (again) h where "pick (handle s) < LRW_QUEUE_LEN" "retrans_left (handle s) \<noteq> 0"
      "confirmedMsgs (dev_config s) \<longrightarrow> ChannelsTxPower (nvm s) = EU868_MAX_TX_POWER"
      "h = handle s \<or> h = handle s\<lparr>retrans_txp_override := True, retrans_txp_prior := ChannelsTxPower (nvm s)\<rparr>"
      "LRW_Send env s = send_slot env (pick (handle s)) (s\<lparr>handle := h\<rparr>)"
  | (first) h where "pick (handle s) < LRW_QUEUE_LEN" "retrans_left (handle s) = 0"
      "h = (if confirmedMsgs (dev_config s)
            then (handle s)\<lparr>retrans_left := 3, retrans_index := word_of_nat (pick (handle s))\<rparr> else handle s)"
      "LRW_Send env s = send_slot env (pick (handle s)) (s\<lparr>handle := h\<rparr>)"
proof -
  let ?h = "if retrans_txp_override (handle s) then handle s
    else handle s\<lparr>retrans_txp_override := True, retrans_txp_prior := ChannelsTxPower (nvm s)\<rparr>"
  note def = LRW_Send_def [of env s, unfolded Let_def, folded pick_def]
  consider "LRW_QUEUE_LEN \<le> pick (handle s)"
    | "pick (handle s) < LRW_QUEUE_LEN" "retrans_left (handle s) \<noteq> 0" "\<not> confirmedMsgs (dev_config s)"
    | "pick (handle s) < LRW_QUEUE_LEN" "retrans_left (handle s) \<noteq> 0" "confirmedMsgs (dev_config s)"
      "ChannelsTxPower (nvm s) \<noteq> EU868_MAX_TX_POWER"
    | "pick (handle s) < LRW_QUEUE_LEN" "retrans_left (handle s) \<noteq> 0" "confirmedMsgs (dev_config s)"
      "ChannelsTxPower (nvm s) = EU868_MAX_TX_POWER"
    | "pick (handle s) < LRW_QUEUE_LEN" "retrans_left (handle s) = 0"
    by fastforce
  then show thesis
  proof cases
    case 1
    then show thesis using idle by (simp add: def)
  next
    case 2
    then show thesis using again [of "handle s"] by (simp add: def)
  next
    case 3
    then show thesis using power [of ?h] by (simp add: def)
  next
    case 4
    then show thesis using again [of ?h] by (simp add: def)
  next
    case 5
    then show thesis using first [OF _ _ refl] by (simp add: def)
  qed
qed

lemma lrw_wf_send:
  assumes "lrw_wf s"
  shows "lrw_wf (LRW_Send env s)"
proof (cases env s rule: LRW_Send_cases)
  case idle
  with assms show ?thesis by simp
next
  case (power h)
  with assms show ?thesis by (auto simp: lrw_wf_def)
next
  case (again h)
  have "lrw_wf (s\<lparr>handle := h\<rparr>)" using again(4) assms by (auto simp: lrw_wf_def)
  moreover have "pick (handle s) = unat (retrans_index h)" using again(2,4) by (auto simp: pick_def)
  ultimately show ?thesis using again(1) by (simp add: again(5) lrw_wf_send_slot)
next
  case (first h)
  have i: "unat (word_of_nat (pick (handle s)) :: uint8) = pick (handle s)"
    using first(1) by (simp add: LRW_QUEUE_LEN_def unat_of_nat)
  have "lrw_wf (s\<lparr>handle := h\<rparr>)" using first(1,3) assms pick_view [OF assms first(1)] by (simp add: lrw_wf_def i)
  then show ?thesis using first by (simp add: i lrw_wf_send_slot)
qed

lemma lrw_wf_confirm:
  assumes "lrw_wf s"
  shows "lrw_wf (McpsConfirm cf s)"
proof -
  have q: "queue_wf (queue (handle s))" and i: "unat (retrans_index (handle s)) < LRW_QUEUE_LEN"
    using assms by (simp_all add: lrw_wf_def)
  from assms uplink.release_ok [OF q i] show ?thesis
    by (simp add: lrw_wf_def McpsConfirm_def Let_def)
qed

section \<open>Runs\<close>

datatype lrw_event =
    Enqueue measurements uint8 uint8
  | Send radio_env
  | Confirm mcps_confirm
  | Downlink uint8 bool uint32
  | Join_Answer uint8 uint8
  | Indication uint8 uint8
  | Join "join_req \<Rightarrow> mac \<Rightarrow> mac \<times> uint32"
  | Stack mac                \<comment> \<open>the stack works on its own state\<close>
  | Configure DeviceConfig   \<comment> \<open>the configuration changes\<close>

fun lrw_step :: "family \<Rightarrow> lrw_event \<Rightarrow> lrw_state \<Rightarrow> lrw_state option" where
  "lrw_step fam (Enqueue r ty trig) s = enqueueToSend fam r ty trig s"
| "lrw_step fam (Send env) s = Some (LRW_Send env s)"
| "lrw_step fam (Confirm cf) s = Some (McpsConfirm cf s)"
| "lrw_step fam (Downlink status pend timeout) s = Some (McpsIndication status pend timeout s)"
| "lrw_step fam (Join_Answer req status) s = Some (MlmeConfirm req status s)"
| "lrw_step fam (Indication ind status) s = MlmeIndication ind status s"
| "lrw_step fam (Join mlme) s = Some (LRW_Join mlme s)"
| "lrw_step fam (Stack m) s = Some (s\<lparr>nvm := m\<rparr>)"
| "lrw_step fam (Configure c) s = Some (s\<lparr>dev_config := c\<rparr>)"

definition empty_msg :: LRW_Msg where
  "empty_msg = \<lparr>msg_type = 0, msg_len = 0, msg_buf = replicate 12 0, trigger_type = 0\<rparr>"

definition lrw_zero :: LRW_Handle where
  \<comment> \<open>\<open>struct LRW_Handle lrw = {0}\<close>\<close>
  "lrw_zero = \<lparr>retrans_left = 0, retrans_index = 0, retrans_txp_prior = 0, retrans_txp_override = False,
     queue = replicate LRW_QUEUE_LEN empty_msg\<rparr>"

definition lrw_start :: "DeviceConfig \<Rightarrow> mac \<Rightarrow> lrw_state" where
  \<comment> \<open>the initialisers of the global variables\<close>
  "lrw_start c m = \<lparr>handle = lrw_zero, dev_config = c, nvm = m, DutyCycleWaitTime = 0, IsUplinkTxPending = False,
     TxParams = \<lparr>IsMcpsConfirm = False, tx_status = 0, MsgType_confirmed = False, AckReceived = False,
       tx_datarate = 0, UplinkCounter = 0, TxPower = 0, tx_channel = 0\<rparr>,
     JoinParams = \<lparr>join_dev_addr = 0, join_datarate = 0, join_success = False\<rparr>, requests = []\<rparr>"

inductive lrw_reach :: "family \<Rightarrow> lrw_state \<Rightarrow> bool" for fam where
  start: "lrw_reach fam (lrw_start c m)"
| step: "lrw_reach fam s \<Longrightarrow> lrw_step fam ev s = Some s' \<Longrightarrow> lrw_reach fam s'"

lemma handle_simps [simp]:
  "handle (McpsIndication a b c s) = handle s" "handle (MlmeConfirm a d s) = handle s"
  "handle (LRW_Join f s) = handle s"
  by (simp_all add: McpsIndication_def MlmeConfirm_def LRW_Join_def Let_def split: prod.split)

lemma MlmeIndication_handle: "MlmeIndication a b s = Some s' \<Longrightarrow> handle s' = handle s"
  by (auto simp: MlmeIndication_def split: if_splits)

lemma lrw_wf_start: "lrw_wf (lrw_start c m)"
  by (simp add: lrw_wf_def lrw_start_def lrw_zero_def queue_wf_def msg_wf_def empty_msg_def LRW_QUEUE_LEN_def)

lemma lrw_wf_step:
  assumes "lrw_step fam ev s = Some s'" "lrw_wf s"
  shows "lrw_wf s'"
proof (cases ev)
  case (Enqueue r ty trig)
  with assms show ?thesis by (auto intro: lrw_wf_enqueue)
next
  case (Indication ind status)
  with assms(1) have "handle s' = handle s" using MlmeIndication_handle by simp
  with assms(2) show ?thesis by (simp add: lrw_wf_def)
next
  case (Send env)
  with assms lrw_wf_send show ?thesis by auto
next
  case (Confirm cf)
  with assms lrw_wf_confirm show ?thesis by auto
next
  case (Stack m)
  with assms show ?thesis by (auto simp: lrw_wf_def)
next
  case (Configure c)
  with assms show ?thesis by (auto simp: lrw_wf_def)
qed (use assms in \<open>auto simp: lrw_wf_def\<close>)

lemma lrw_reach_wf: "lrw_reach fam s \<Longrightarrow> lrw_wf s"
  by (induction rule: lrw_reach.induct) (auto intro: lrw_wf_start lrw_wf_step)

lemma uint8_le_1: "l \<le> 1 \<longleftrightarrow> l = 0 \<or> l = 1" for l :: uint8
  by (auto simp: word_le_nat_alt) unat_arith

lemma send_slot_view:
  assumes "queue_wf (queue (handle s))" "i < LRW_QUEUE_LEN"
  shows "slot_view (queue (handle (send_slot env i s))) j =
    (if j = i \<and> DutyCycleWaitTime (send_slot env i s) = 0 \<and> retrans_left (handle s) \<le> 1 then None
     else map_option (\<lambda>m. if i = j then m\<lparr>msg_buf := with_tx_power (ChannelsTxPower (nvm s)) (msg_buf m)\<rparr> else m)
            (slot_view (queue (handle s)) j))"
proof -
  show ?thesis
    using uplink.view_release [OF set_power_wf [OF assms] assms(2)]
    by (auto simp: send_slot_handle Let_def set_power_view uint8_le_1)
qed

lemma enqueue_view:
  assumes "enqueueToSend fam r ty trig s = Some s'" "lrw_wf s" "slot_view (queue (handle s)) i = Some m"
  shows "slot_view (queue (handle s')) i = Some m"
proof -
  have q: "queue_wf (queue (handle s))" using assms(2) by (simp add: lrw_wf_def)
  from assms(1) q show ?thesis
  proof (cases rule: enqueue_cases)
    case (2 m' c)
    with uplink.push_keeps [OF q _ assms(3)] show ?thesis by simp
  qed (use assms in simp)
qed

lemma confirm_view:
  assumes "lrw_wf s"
  shows "slot_view (queue (handle (McpsConfirm cf s))) i =
    (if cf_AckReceived cf \<and> i = unat (retrans_index (handle s)) then None else slot_view (queue (handle s)) i)"
proof -
  have q: "queue_wf (queue (handle s))" and k: "unat (retrans_index (handle s)) < LRW_QUEUE_LEN"
    using assms by (simp_all add: lrw_wf_def)
  show ?thesis using uplink.view_release [OF q k] by (simp add: McpsConfirm_def Let_def)
qed

end
