(* ===== verification/Uplink_Delivery.thy ===== *)
theory Uplink_Delivery
  imports Uplink_Queue
begin

text \<open>
  What becomes of a queued message (\<^verbatim>\<open>src/Src/lrw.c\<close>): the three attempts at a confirmed message,
  the report a button event is read back to with the format of \<^verbatim>\<open>MESSAGE_FORMAT_LORA_01.md\<close>, and the
  properties of the queue over all runs.
\<close>

section \<open>Bytes\<close>

lemma voltage_byte_value: "unat (voltage_byte v) = max 201 (min 327 (unat v)) - 200"
proof -
  have m: "x AND 0x7F = x" if "x < 128" for x :: uint32
    using less_mask_eq [of x 7] that by (simp add: mask_numerals)
  have u: "unat (ucast x :: uint8) = unat x" if "x < 128" for x :: uint32
    using that by (simp add: unsigned_ucast_eq word_less_nat_alt take_bit_nat_eq_self) 
  consider "v < 201" | "327 < v" | "201 \<le> v" "v \<le> 327" by fastforce
  then show ?thesis
  proof cases
    case 1 then show ?thesis by (simp add: voltage_byte_def word_less_nat_alt)
  next
    case 2 then show ?thesis by (simp add: voltage_byte_def word_less_nat_alt)
  next
    case 3
    then have lt: "v - 200 < 128" "unat (v - 200) = unat v - 200" by unat_arith+
    with 3 show ?thesis by (simp add: voltage_byte_def m u not_less word_le_nat_alt word_less_nat_alt)
  qed
qed

lemma embed_power_fields:
  "drop_bit 6 (embed_power p b) = drop_bit 6 b" (is ?A)
  "drop_bit 2 (embed_power p b) AND 7 = p AND 7" (is ?B)
  "bit (embed_power p b) 0 = bit b 0" (is ?C) "bit (embed_power p b) (Suc 0) = bit b (Suc 0)" (is ?D)
proof -
  have n: "(0xC3 :: uint8) = mask 2 OR push_bit 6 (mask 2)" "(7::uint8) = mask 3" by (simp_all add: mask_eq_exp_minus_1)
  have b8: "bit b (6 + k) \<Longrightarrow> k < 2" for k using bit_imp_le_length [of b "6 + k"] by simp
  show ?A unfolding n embed_power_def by (rule bit_word_eqI) (auto simp: bit_simps dest: b8)
  show ?B unfolding n embed_power_def by (rule bit_word_eqI) (auto simp: bit_simps)
  show ?C ?D unfolding n embed_power_def by (simp_all add: bit_simps)
qed

section \<open>Sending\<close>

definition answers_at_once :: "radio_env \<Rightarrow> bool" where
  \<comment> \<open>a stack that has room for every payload, accepts every request at once and keeps its parameters\<close>
  "answers_at_once env \<longleftrightarrow> (\<forall>n m. query_tx_possible env n m) \<and>
     (\<forall>req m. mcps_request env req m = (m, LORAMAC_STATUS_OK, 0))"

lemma send_slot_payload:
  assumes "i < length (queue (handle s))"
  defines "m \<equiv> queue (handle s) ! i"
  assumes "query_tx_possible env (length (take (unat (msg_len m)) (msg_buf m))) (nvm s)"
  shows "requests (send_slot env i s) = requests s @ [\<lparr>req_confirmed = confirmedMsgs (dev_config s),
    req_datarate = LRW_ToDatarate (mac_region (nvm s)) (sf (dev_config s)) (bw (dev_config s)),
    req_port = Some (txPort (dev_config s)),
    req_payload = take (unat (msg_len m)) (with_tx_power (ChannelsTxPower (nvm s)) (msg_buf m))\<rparr>]"
  using assms by (simp add: send_slot_def Let_def LRW_TX_def set_power_def split: prod.split)

lemma send_slot_request:
  assumes "answers_at_once env"
  shows "nvm (send_slot env i s) = nvm s" "dev_config (send_slot env i s) = dev_config s"
    "DutyCycleWaitTime (send_slot env i s) = 0"
  using assms by (simp_all add: send_slot_def LRW_TX_def Let_def answers_at_once_def)

definition raises_power :: "lrw_state \<Rightarrow> bool" where
  \<comment> \<open>\<open>LRW_Send\<close> sets the maximal transmit power for the repetitions and sends nothing yet\<close>
  "raises_power s \<longleftrightarrow> retrans_left (handle s) \<noteq> 0 \<and> confirmedMsgs (dev_config s) \<and>
     ChannelsTxPower (nvm s) \<noteq> EU868_MAX_TX_POWER"

definition last_attempt :: "lrw_state \<Rightarrow> bool" where
  "last_attempt s \<longleftrightarrow> retrans_left (handle s) = 1 \<or> retrans_left (handle s) = 0 \<and> \<not> confirmedMsgs (dev_config s)"

lemma LRW_Send_view:
  assumes "lrw_wf s" "slot_view (queue (handle s)) i = Some m"
  shows "slot_view (queue (handle (LRW_Send env s))) i =
    (if i \<noteq> pick (handle s) \<or> raises_power s then Some m
     else if DutyCycleWaitTime (LRW_Send env s) = 0 \<and> last_attempt s then None
     else Some (m\<lparr>msg_buf := with_tx_power (ChannelsTxPower (nvm s)) (msg_buf m)\<rparr>))"
proof -
  have q: "queue_wf (queue (handle s))" using assms(1) by (simp add: lrw_wf_def)
  have i: "i < LRW_QUEUE_LEN" using uplink.view_below [OF q] assms(2) by simp
  show ?thesis
  proof (cases env s rule: LRW_Send_cases)
    case idle
    with assms i show ?thesis by auto
  next
    case (power h)
    with assms show ?thesis by (auto simp: raises_power_def)
  next
    case (again h)
    have h: "queue h = queue (handle s)" "retrans_left h = retrans_left (handle s)" using again(4) by auto
    have "\<not> raises_power s" "last_attempt s \<longleftrightarrow> retrans_left h \<le> 1"
      using again(2,3) by (auto simp: raises_power_def last_attempt_def uint8_le_1 h)
    with send_slot_view [of "s\<lparr>handle := h\<rparr>" "pick (handle s)" env i] q again(1) assms(2) show ?thesis
      by (auto simp: again(5) h)
  next
    case (first h)
    have h: "queue h = queue (handle s)" using first(3) by auto
    have "\<not> raises_power s" "last_attempt s \<longleftrightarrow> retrans_left h \<le> 1"
      using first(2,3) by (auto simp: raises_power_def last_attempt_def uint8_le_1)
    with send_slot_view [of "s\<lparr>handle := h\<rparr>" "pick (handle s)" env i] q first(1) assms(2) show ?thesis
      by (auto simp: first(4) h)
  qed
qed

definition confirmed_request :: "lrw_state \<Rightarrow> LRW_Msg \<Rightarrow> uint8 \<Rightarrow> mcps_req" where
  \<comment> \<open>the request for message \<open>m\<close> with power \<open>p\<close> written into it, as the configuration asks for\<close>
  "confirmed_request s m p = \<lparr>req_confirmed = True,
     req_datarate = LRW_ToDatarate (mac_region (nvm s)) (sf (dev_config s)) (bw (dev_config s)),
     req_port = Some (txPort (dev_config s)),
     req_payload = take (unat (msg_len m)) (with_tx_power p (msg_buf m))\<rparr>"

lemma with_tx_power_again [simp]: "with_tx_power p (with_tx_power q b) = with_tx_power p b"
proof -
  have n: "(0xC3 :: uint8) = mask 2 OR push_bit 6 (mask 2)" "(7::uint8) = mask 3" by (simp_all add: mask_eq_exp_minus_1)
  have "embed_power p (embed_power q x) = embed_power p x" for x :: uint8
    unfolding n embed_power_def by (rule bit_word_eqI) (auto simp: bit_simps)
  then show ?thesis by (cases b) (simp_all add: with_tx_power_def)
qed

lemma confirmed_request_with_power [simp]:
  "confirmed_request s (m\<lparr>msg_buf := with_tx_power q (msg_buf m)\<rparr>) p = confirmed_request s m p"
  by (simp add: confirmed_request_def)

lemma send_request:
  \<comment> \<open>one attempt at a confirmed message\<close>
  assumes "lrw_wf s" "answers_at_once env" "confirmedMsgs (dev_config s)"
    and m: "slot_view (queue (handle s)) (pick (handle s)) = Some m" and power: "\<not> raises_power s"
  defines "s' \<equiv> LRW_Send env s" and "left \<equiv> (if retrans_left (handle s) = 0 then 3 else retrans_left (handle s))"
  shows "requests s' = requests s @ [confirmed_request s m (ChannelsTxPower (nvm s))]"
    "nvm s' = nvm s" "dev_config s' = dev_config s"
    "retrans_left (handle s') = left - 1" "unat (retrans_index (handle s')) = pick (handle s)"
    "slot_view (queue (handle s')) (pick (handle s)) =
       (if left = 1 then None else Some (m\<lparr>msg_buf := with_tx_power (ChannelsTxPower (nvm s)) (msg_buf m)\<rparr>))"
proof -
  have q: "queue_wf (queue (handle s))" using assms(1) by (simp add: lrw_wf_def)
  have p: "pick (handle s) < LRW_QUEUE_LEN" using uplink.view_below [OF q] m by simp
  then have i: "unat (word_of_nat (pick (handle s)) :: uint8) = pick (handle s)"
    by (simp add: LRW_QUEUE_LEN_def unat_of_nat)
  obtain h where h: "s' = send_slot env (pick (handle s)) (s\<lparr>handle := h\<rparr>)" "queue h = queue (handle s)"
    "retrans_left h = left" "unat (retrans_index h) = pick (handle s)"
  proof (cases env s rule: LRW_Send_cases)
    case (again h)
    then show thesis by (intro that [of h]) (auto simp: s'_def left_def pick_def)
  next
    case (first h)
    then show thesis using assms(3) by (intro that [of h]) (auto simp: s'_def left_def i)
  qed (use p power in \<open>auto simp: raises_power_def\<close>)
  have l: "left \<noteq> 0" by (simp add: left_def)
  have mq: "pick (handle s) < length (queue (handle s))" "queue (handle s) ! pick (handle s) = m"
    using m by (auto simp: slot_view_def split: if_splits)
  show "requests s' = requests s @ [confirmed_request s m (ChannelsTxPower (nvm s))]"
    using send_slot_payload [of "pick (handle s)" "s\<lparr>handle := h\<rparr>" env] mq assms(2,3)
    by (simp add: h confirmed_request_def answers_at_once_def)
  show "nvm s' = nvm s" "dev_config s' = dev_config s"
    using send_slot_request [OF assms(2), of "pick (handle s)" "s\<lparr>handle := h\<rparr>"] by (simp_all add: h(1))
  show "retrans_left (handle s') = left - 1" "unat (retrans_index (handle s')) = pick (handle s)"
    using l by (auto simp: h(1) send_slot_handle Let_def send_slot_request [OF assms(2)] h(3,4))
  show "slot_view (queue (handle s')) (pick (handle s)) =
       (if left = 1 then None else Some (m\<lparr>msg_buf := with_tx_power (ChannelsTxPower (nvm s)) (msg_buf m)\<rparr>))"
    using send_slot_view [of "s\<lparr>handle := h\<rparr>" "pick (handle s)" env "pick (handle s)"] q p l m
    by (simp add: h send_slot_request [OF assms(2)] uint8_le_1)
qed

lemma raise_power:
  fixes env :: radio_env
  assumes "lrw_wf s" "raises_power s" "\<not> tx_running (nvm s)" "served (mac_region (nvm s))"
  defines "s' \<equiv> LRW_Send env s"
  shows "requests s' = requests s" "dev_config s' = dev_config s" "pick (handle s') = pick (handle s)"
    "retrans_left (handle s') = retrans_left (handle s)" "ChannelsTxPower (nvm s') = EU868_MAX_TX_POWER"
    "queue (handle s') = queue (handle s)" "mac_region (nvm s') = mac_region (nvm s)"
proof -
  have p: "RegionVerify (mac_region (nvm s)) (PHY_TX_POWER EU868_MAX_TX_POWER)"
    using assms(4) by (auto simp: served_def RegionVerify_def RegionCommonValueInRange_def EU868_MAX_TX_POWER_def regions)
  have "requests s' = requests s \<and> dev_config s' = dev_config s \<and> pick (handle s') = pick (handle s) \<and>
    retrans_left (handle s') = retrans_left (handle s) \<and> ChannelsTxPower (nvm s') = EU868_MAX_TX_POWER \<and>
    queue (handle s') = queue (handle s) \<and> mac_region (nvm s') = mac_region (nvm s)"
  proof (cases env s rule: LRW_Send_cases)
    case idle
    with assms(1,2) show ?thesis by (auto simp: pick_def lrw_wf_def raises_power_def)
  next
    case (power h)
    from power(5) assms(2) have "pick h = pick (handle s)" "retrans_left h = retrans_left (handle s)"
      "queue h = queue (handle s)"
      by (auto simp: pick_def raises_power_def)
    with p assms(3) show ?thesis by (simp add: s'_def power(6) mib_put_idle checked_def)
  qed (use assms in \<open>auto simp: raises_power_def\<close>)
  then show "requests s' = requests s" "dev_config s' = dev_config s" "pick (handle s') = pick (handle s)"
    "retrans_left (handle s') = retrans_left (handle s)" "ChannelsTxPower (nvm s') = EU868_MAX_TX_POWER"
    "queue (handle s') = queue (handle s)" "mac_region (nvm s') = mac_region (nvm s)" by blast+
qed

lemma confirmed_request_cong:
  "dev_config s = dev_config s' \<Longrightarrow> mac_region (nvm s) = mac_region (nvm s') \<Longrightarrow>
    confirmed_request s = confirmed_request s'"
  by (intro ext) (simp add: confirmed_request_def)

lemma confirmed_attempts_run:
  assumes "lrw_reach fam s" "answers_at_once env" "confirmedMsgs (dev_config s)" "\<not> tx_running (nvm s)"
    and "served (mac_region (nvm s))" "retrans_left (handle s) = 0"
    and m: "slot_view (queue (handle s)) (pick (handle s)) = Some m"
  shows "\<exists>n \<in> {3, 4}. requests ((LRW_Send env ^^ n) s) = requests s @
      [confirmed_request s m (ChannelsTxPower (nvm s)), confirmed_request s m EU868_MAX_TX_POWER,
       confirmed_request s m EU868_MAX_TX_POWER] \<and>
    retrans_left (handle ((LRW_Send env ^^ n) s)) = 0 \<and>
    slot_view (queue (handle ((LRW_Send env ^^ n) s))) (pick (handle s)) = None"
proof -
  let ?f = "LRW_Send env" let ?p = "pick (handle s)"
  let ?m = "\<lambda>p. m\<lparr>msg_buf := with_tx_power p (msg_buf m)\<rparr>"
  have wf: "lrw_wf s" by (rule lrw_reach_wf [OF assms(1)])
  have "\<not> raises_power s" using assms(6) by (simp add: raises_power_def)
  define s1 where "s1 = ?f s"
  note one = send_request [OF wf assms(2,3) m \<open>\<not> raises_power s\<close>, folded s1_def, simplified assms(6), simplified]
  have wf1: "lrw_wf s1" using lrw_wf_send [OF wf] by (simp add: s1_def)
  have p1: "pick (handle s1) = ?p" using one by (simp add: pick_def)
  obtain k s2 where s2: "s2 = (?f ^^ k) s1" "k = 0 \<or> k = 1" "lrw_wf s2" "requests s2 = requests s1" "dev_config s2 = dev_config s1"
    "pick (handle s2) = ?p" "retrans_left (handle s2) = 2" "ChannelsTxPower (nvm s2) = EU868_MAX_TX_POWER"
    "queue (handle s2) = queue (handle s1)" "mac_region (nvm s2) = mac_region (nvm s1)"
  proof (cases "raises_power s1")
    case False
    then have "ChannelsTxPower (nvm s1) = EU868_MAX_TX_POWER" using one assms(3) by (simp add: raises_power_def)
    then show thesis using that [of s1 0] one p1 wf1 by simp
  next
    case True
    have pre: "\<not> tx_running (nvm s1)" "served (mac_region (nvm s1))" using one assms(4,5) by auto
    show thesis using raise_power [OF wf1 True pre] one p1 lrw_wf_send [OF wf1] that [of "?f s1" 1] by simp
  qed
  define s3 where "s3 = ?f s2"
  have pre2: "confirmedMsgs (dev_config s2)" "\<not> raises_power s2"
    "slot_view (queue (handle s2)) (pick (handle s2)) = Some (?m (ChannelsTxPower (nvm s)))"
    using s2 one assms(3) by (auto simp: raises_power_def)
  note two = send_request [OF s2(3) assms(2) pre2(1,3,2), folded s3_def, simplified s2(6-8), simplified]
  have p3: "pick (handle s3) = ?p" using two by (simp add: pick_def)
  have pre3: "confirmedMsgs (dev_config s3)" "\<not> raises_power s3"
    "slot_view (queue (handle s3)) (pick (handle s3)) = Some (?m EU868_MAX_TX_POWER)"
    using two s2 one assms(3) p3 by (auto simp: raises_power_def)
  note three = send_request [OF lrw_wf_send [OF s2(3), of env, folded s3_def] assms(2) pre3(1,3,2), simplified p3, simplified]
  have same: "confirmed_request s2 = confirmed_request s" "confirmed_request s3 = confirmed_request s"
    by (rule confirmed_request_cong; use s2 one two in simp)+
  have run: "(?f ^^ (3 + k)) s = ?f s3" using s2(1,2) by (auto simp: s3_def s1_def numeral_3_eq_3)
  show ?thesis
    using one(1) s2(2,4,8) two three by (intro bexI [of _ "3 + k"]) (auto simp: run same)
qed

section \<open>Reading a message\<close>

record uplink_report =
  \<comment> \<open>what \<^verbatim>\<open>MESSAGE_FORMAT_LORA_01.md\<close> says of a button event\<close>
  rep_version :: nat
  rep_power :: nat
  rep_event :: bool
  rep_gesture :: nat
  rep_centivolts :: nat
  rep_temperature :: nat
  rep_count :: nat

definition read_report :: "bytes \<Rightarrow> uplink_report" where
  "read_report b = \<lparr>rep_version = unat (drop_bit 6 (b ! 0)), rep_power = unat (drop_bit 2 (b ! 0) AND 7),
     rep_event = bit (b ! 0) 0, rep_gesture = of_bool (bit (b ! 0) 1) + 2 * of_bool (bit (b ! 1) 7),
     rep_centivolts = 200 + unat (b ! 1 AND 0x7F), rep_temperature = unat (b ! 2), rep_count = unat (b ! 3)\<rparr>"

definition gesture_count :: "uint8 \<Rightarrow> DeviceConfig \<Rightarrow> uint8" where
  "gesture_count g c = (if g = 1 then singleCount c else if g = 2 then doubleCount c else longCount c)"

lemma voltage_low_bits:
  "voltage_byte v AND 0x7F = voltage_byte v" "bit (voltage_byte v) 7 = False"
  "(voltage_byte v OR 0x80) AND 0x7F = voltage_byte v"
proof -
  have "unat (voltage_byte v) < 2 ^ 7" by (simp add: voltage_byte_value)
  then have lt: "voltage_byte v < 2 ^ 7" by (simp add: word_less_nat_alt)
  show m: "voltage_byte v AND 0x7F = voltage_byte v" using less_mask_eq [OF lt] by (simp add: mask_numerals)
  show "bit (voltage_byte v) 7 = False"
    using arg_cong [OF m, of "\<lambda>w. bit w 7"] by (simp add: mask_numerals bit_simps)
  show "(voltage_byte v OR 0x80) AND 0x7F = voltage_byte v"
    using m by (simp add: bit.conj_disj_distrib2)
qed

lemma read_with_power:
  \<comment> \<open>embedding the transmit power changes no other field\<close>
  assumes "4 \<le> length b"
  shows "read_report (take 4 (with_tx_power p b)) = (read_report b)\<lparr>rep_power := unat (p AND 7)\<rparr>"
  using assms by (cases b) (simp_all add: read_report_def with_tx_power_def embed_power_fields)

lemma voltage_high_bit [simp]: "bit (b OR 0x80 :: uint8) 7"
proof -
  have "(0x80 :: uint8) = push_bit 7 1" by simp
  then show ?thesis by (simp only: bit_simps) simp
qed

lemma read_sta_event:
  fixes c :: DeviceConfig
  assumes "detectedGesture r = 1 \<or> detectedGesture r = 2 \<or> detectedGesture r = 3" "msg_wf m"
  defines "e \<equiv> fst (sta_event r m c)"
  shows "read_report (take (unat (msg_len e)) (with_tx_power p (msg_buf e))) =
    \<lparr>rep_version = 1, rep_power = unat (p AND 7), rep_event = True, rep_gesture = unat (detectedGesture r) - 1,
     rep_centivolts = max 201 (min 327 (unat (voltage_100 r))),
     rep_temperature = unat (temperature_byte (temperature_10 r)), rep_count = unat (gesture_count (detectedGesture r) c)\<rparr>"
proof -
  have len: "length (msg_buf m) = 12" using assms(2) by (simp add: msg_wf_def)
  have v: "200 + (max 201 (min 327 (unat (voltage_100 r))) - 200) = max 201 (min 327 (unat (voltage_100 r)))" by simp
  note simps = e_def sta_event_def gesture_event_def gesture_count_def read_report_def len
    voltage_low_bits voltage_byte_value v LRW_B0_TRIGGER_EVENT_def
  have "read_report (take 4 (with_tx_power p (msg_buf e))) = (read_report (msg_buf e))\<lparr>rep_power := unat (p AND 7)\<rparr>"
    using assms(1) by (intro read_with_power) (auto simp: e_def sta_event_def gesture_event_def len)
  moreover have "unat (msg_len e) = 4" using assms(1) by (auto simp: e_def sta_event_def gesture_event_def)
  ultimately show ?thesis using assms(1) by (elim disjE) (simp_all add: simps)
qed

lemma temperature_byte_value:
  "int (unat (temperature_byte t)) = (max (-400) (min 1250 (sint t)) + 400) * 255 div 1650"
proof -
  let ?c = "max (-400) (min 1250 (sint t))"
  have "(if (if sint t < -400 then -400 else sint t) > 1250 then 1250 else if sint t < -400 then -400 else sint t) = ?c"
    by auto
  then have "temperature_byte t = word_of_int ((?c + 400) * 255 div 1650)" by (simp only: temperature_byte_def Let_def)
  moreover have "0 \<le> (?c + 400) * 255 div 1650" "(?c + 400) * 255 div 1650 < 256" by (auto simp: max_def min_def)
  ultimately show ?thesis by (simp add: uint8_of_int)
qed

section \<open>Examples\<close>

definition air_example :: radio_env where
  "air_example = \<lparr>query_tx_possible = (\<lambda>n m. True), mcps_request = (\<lambda>req m. (m, LORAMAC_STATUS_OK, 0))\<rparr>"

definition press_example :: "uint8 \<Rightarrow> measurements" where
  "press_example g = \<lparr>voltage_100 = 300, temperature_10 = 215, detectedGesture = g, bma_raw = (0, 0, 0), bma_ref = (0, 0, 0),
     hdc_raw_temp = 0, hdc_humid = 0, sfh_lux = 0, bme_temperature = 0, bme_humidity = 0, bme_pressure = 0,
     bsec_acc = 0, bsec_iaq = 0, bsec_voc = 0, bsec_co2 = 0\<rparr>"

definition joined_example :: mac where
  "joined_example = mac_example\<lparr>NetworkActivation := ACTIVATION_TYPE_OTAA, ChannelsTxPower := 0\<rparr>"

definition run_example :: "lrw_event list \<Rightarrow> lrw_state option" where
  "run_example evs = fold (\<lambda>ev s. Option.bind s (lrw_step STA ev)) evs (Some (lrw_start DevCfg_default joined_example))"

definition queued_example :: lrw_state where
  "queued_example = the (run_example [Enqueue (press_example 1) EVENT 0])"

definition ack_example :: mcps_confirm where
  "ack_example = \<lparr>cf_status = 0, cf_datarate = 0, cf_UpLinkCounter = 1, cf_TxPower = 0, cf_channel = 0, cf_AckReceived = True\<rparr>"

lemmas uplink_examples = air_example_def press_example_def joined_example_def mac_example_def

lemma queued_example_step: "run_example [Enqueue (press_example 1) EVENT 0] = Some queued_example"
proof -
  have "run_example [Enqueue (press_example 1) EVENT 0] \<noteq> None" by code_simp
  then show ?thesis by (simp add: queued_example_def)
qed

lemma queued_example_facts:
  "msg_type (queue (handle queued_example) ! 0) = EVENT" "retrans_left (handle queued_example) = 0"
  "confirmedMsgs (dev_config queued_example)" "nvm queued_example = joined_example"
  by (simp_all add: queued_example_def) (code_simp, code_simp, code_simp, code_simp)

lemma queued_example_reach: "lrw_reach STA queued_example"
proof (rule lrw_reach.step [OF lrw_reach.start])
  show "lrw_step STA (Enqueue (press_example 1) EVENT 0) (lrw_start DevCfg_default joined_example) = Some queued_example"
    using queued_example_step by (simp add: run_example_def)
qed

lemma queued_example_view: "slot_view (queue (handle queued_example)) 0 \<noteq> None"
  using queued_example_facts(1) lrw_reach_wf [OF queued_example_reach]
  by (simp add: slot_view_def lrw_wf_def LRW_QUEUE_LEN_def msg_types)

lemma first_slot_0: "q \<noteq> [] \<Longrightarrow> P (q ! 0) \<Longrightarrow> first_slot P q = 0"
  by (cases q) auto

lemma gesture_event_config:
  "txPort (snd (sta_event r m c)) = txPort c" "confirmedMsgs (snd (sta_event r m c)) = confirmedMsgs c"
  by (simp_all add: sta_event_def gesture_event_def mark_any_def split: prod.split)

lemma message_sent:
  \<comment> \<open>what \<open>enqueueToSend\<close> composes for an empty queue is what \<open>LRW_Send\<close> requests\<close>
  assumes reach: "lrw_reach fam s" and joined: "LRW_IsJoined (nvm s)"
    and empty: "\<And>i. slot_view (queue (handle s)) i = None" and ty: "ty = SCHEDULED \<or> ty = EVENT"
    and composed: "compose fam ty r (queue (handle s) ! 0) (dev_config s) = Some (m, c)"
      "txPort c = txPort (dev_config s)" "confirmedMsgs c = confirmedMsgs (dev_config s)"
    and tx: "query_tx_possible env (unat (msg_len m)) (nvm s)"
  shows "\<exists>s1 req. enqueueToSend fam r ty trig s = Some s1 \<and> requests (LRW_Send env s1) = requests s @ [req] \<and>
    req_port req = Some (txPort (dev_config s)) \<and> req_confirmed req = confirmedMsgs (dev_config s) \<and>
    req_payload req = take (unat (msg_len m)) (with_tx_power (ChannelsTxPower (nvm s)) (msg_buf m))"
proof -
  let ?q = "queue (handle s)"
  let ?m = "(if fam = STX then m\<lparr>trigger_type := trig\<rparr> else m)\<lparr>msg_type := ty\<rparr>"
  have q: "length ?q = LRW_QUEUE_LEN" "\<forall>m \<in> set ?q. msg_wf m" and left: "retrans_left (handle s) = 0"
    using lrw_reach_wf [OF reach] empty by (auto simp: lrw_wf_def queue_wf_def)
  then have ne: "?q \<noteq> []" and wf: "msg_wf (?q ! 0)" by (auto simp: LRW_QUEUE_LEN_def)
  have "msg_type (?q ! 0) = 0" using empty [of 0] q(1) by (simp add: slot_view_def LRW_QUEUE_LEN_def split: if_splits)
  from first_slot_0 [OF ne, of "\<lambda>m. msg_type m = 0", OF this] have "first_slot (\<lambda>m. msg_type m = 0) ?q = 0" .
  then obtain s1 where s1: "enqueueToSend fam r ty trig s = Some s1" "queue (handle s1) = ?q[0 := ?m]"
      "dev_config s1 = c" "nvm s1 = nvm s" "retrans_left (handle s1) = 0" "requests s1 = requests s"
    using joined left ty composed(1) by (auto simp: enqueueToSend_def Let_def LRW_QUEUE_LEN_def)
  have nth: "queue (handle s1) ! 0 = ?m" using ne by (simp add: s1)
  have "msg_type ?m \<noteq> 0" using ty by (auto simp: msg_types)
  then have "pick (handle s1) = 0" using ne nth by (simp add: pick_def s1 first_slot_0)
  then obtain h where h: "LRW_Send env s1 = send_slot env 0 (s1\<lparr>handle := h\<rparr>)" "queue h = queue (handle s1)"
    by (cases env s1 rule: LRW_Send_cases) (auto simp: s1(5) LRW_QUEUE_LEN_def)
  have "unat (msg_len m) \<le> length (msg_buf m)"
    using compose_wf [OF composed(1) wf] by (simp add: msg_wf_def word_le_nat_alt)
  then have "requests (LRW_Send env s1) = requests s @ [\<lparr>req_confirmed = confirmedMsgs (dev_config s),
    req_datarate = LRW_ToDatarate (mac_region (nvm s)) (sf c) (bw c), req_port = Some (txPort (dev_config s)),
    req_payload = take (unat (msg_len m)) (with_tx_power (ChannelsTxPower (nvm s)) (msg_buf m))\<rparr>]"
    unfolding h(1) using send_slot_payload [of 0 "s1\<lparr>handle := h\<rparr>" env] ne tx
    by (simp add: h(2) s1 nth composed(2,3))
  with s1(1) show ?thesis by auto
qed

lemma button_event_sent:
  assumes reach: "lrw_reach STA s" and joined: "LRW_IsJoined (nvm s)"
    and empty: "\<And>i. slot_view (queue (handle s)) i = None"
    and g: "detectedGesture r = 1 \<or> detectedGesture r = 2 \<or> detectedGesture r = 3"
    and tx: "query_tx_possible env 4 (nvm s)"
  shows "\<exists>s1 req. enqueueToSend STA r EVENT trig s = Some s1 \<and> requests (LRW_Send env s1) = requests s @ [req] \<and>
    req_port req = Some (txPort (dev_config s)) \<and> req_confirmed req = confirmedMsgs (dev_config s) \<and>
    read_report (req_payload req) = \<lparr>rep_version = 1, rep_power = unat (ChannelsTxPower (nvm s) AND 7), rep_event = True,
      rep_gesture = unat (detectedGesture r) - 1, rep_centivolts = max 201 (min 327 (unat (voltage_100 r))),
      rep_temperature = unat (temperature_byte (temperature_10 r)),
      rep_count = unat (gesture_count (detectedGesture r) (dev_config s))\<rparr>"
proof -
  let ?e = "sta_event r (queue (handle s) ! 0) (dev_config s)"
  have wf: "msg_wf (queue (handle s) ! 0)"
    using lrw_reach_wf [OF reach] by (auto simp: lrw_wf_def LRW_QUEUE_LEN_def intro!: queue_wf_nth)
  have "compose STA EVENT r (queue (handle s) ! 0) (dev_config s) = Some (fst ?e, snd ?e)"
    by (simp add: compose_def msg_types)
  moreover have "unat (msg_len (fst ?e)) = 4" using g by (auto simp: sta_event_def gesture_event_def)
  ultimately show ?thesis
    using message_sent [OF reach joined empty _ _ gesture_event_config, of EVENT r "fst ?e" r "queue (handle s) ! 0" env trig] tx
      read_sta_event [OF g wf, of "dev_config s" "ChannelsTxPower (nvm s)"] by fastforce
qed

section \<open>Properties\<close>

lemma uplink_invariant_facts:
  assumes "lrw_reach fam s"
  shows "length (queue (handle s)) = LRW_QUEUE_LEN"
    and "\<forall>m \<in> set (queue (handle s)). length (msg_buf m) = 12 \<and> msg_len m \<le> 12"
    and "retrans_left (handle s) \<le> 3" and "unat (retrans_index (handle s)) < LRW_QUEUE_LEN"
    and "retrans_left (handle s) = 0 \<or> slot_view (queue (handle s)) (unat (retrans_index (handle s))) \<noteq> None"
  using lrw_reach_wf [OF assms] by (auto simp: lrw_wf_def queue_wf_def msg_wf_def)

text \<open>
  C23. In every state the firmware can reach, through any sequence of events, sends,
  confirmations, downlinks and changes of stack and configuration, the uplink queue has its three
  slots, no message is longer than its buffer, at most three attempts are left, and an unfinished
  retransmission points at a slot that holds a message.
\<close>
theorem uplink_invariant:
  assumes "lrw_reach fam s"
  shows "length (queue (handle s)) = LRW_QUEUE_LEN \<and>
    (\<forall>m \<in> set (queue (handle s)). length (msg_buf m) = 12 \<and> msg_len m \<le> 12) \<and>
    retrans_left (handle s) \<le> 3 \<and> unat (retrans_index (handle s)) < LRW_QUEUE_LEN \<and>
    (retrans_left (handle s) = 0 \<or> slot_view (queue (handle s)) (unat (retrans_index (handle s))) \<noteq> None)"
  using uplink_invariant_facts [OF assms] by blast

theorem uplink_invariant_witness:
  "length (queue (handle (LRW_Send air_example queued_example))) = LRW_QUEUE_LEN \<and>
   retrans_left (handle (LRW_Send air_example queued_example)) = 2"
proof -
  have "lrw_reach STA (LRW_Send air_example queued_example)"
    by (rule lrw_reach.step [OF queued_example_reach, of "Send air_example"]) simp
  from uplink_invariant [OF this]
  have "length (queue (handle (LRW_Send air_example queued_example))) = LRW_QUEUE_LEN" by blast
  moreover have "retrans_left (handle (LRW_Send air_example queued_example)) = 2"
    unfolding queued_example_def by code_simp
  ultimately show ?thesis by blast
qed

text \<open>
  C2. What any event does to any queued message. \<open>LRW_Send\<close> touches
  only the slot it turned to: it keeps the message while it raises the power, frees the slot when the
  stack did not ask for a wait and this was the last attempt or the message is not confirmed, and
  otherwise keeps the message with the transmit power written into it. A confirmation that is an
  acknowledgement frees the slot of the last retransmission. Every other event keeps every queued
  message as it is.
\<close>
theorem message_leaves_queue_when_done:
  assumes "lrw_reach fam s" "lrw_step fam ev s = Some s'" "slot_view (queue (handle s)) i = Some m"
  shows "slot_view (queue (handle s')) i = (case ev of
      Send env \<Rightarrow>
        if i \<noteq> pick (handle s) \<or> raises_power s then Some m
        else if DutyCycleWaitTime s' = 0 \<and> last_attempt s then None
        else Some (m\<lparr>msg_buf := with_tx_power (ChannelsTxPower (nvm s)) (msg_buf m)\<rparr>)
    | Confirm cf \<Rightarrow> if cf_AckReceived cf \<and> i = unat (retrans_index (handle s)) then None else Some m
    | _ \<Rightarrow> Some m)"
proof -
  note wf = lrw_reach_wf [OF assms(1)]
  show ?thesis
  proof (cases ev)
    case (Enqueue r ty trig)
    with assms enqueue_view [OF _ wf assms(3)] show ?thesis by auto
  next
    case (Send env)
    with assms(2) have "s' = LRW_Send env s" by simp
    with LRW_Send_view [OF wf assms(3)] show ?thesis by (simp only: Send lrw_event.case)
  next
    case (Confirm cf)
    with assms confirm_view [OF wf] show ?thesis by auto
  next
    case (Indication ind status)
    with assms MlmeIndication_handle show ?thesis by auto
  qed (use assms in auto)
qed

theorem message_leaves_queue_when_done_witness:
  "(\<exists>m. slot_view (queue (handle queued_example)) 0 = Some m \<and>
     slot_view (queue (handle (McpsConfirm ack_example queued_example))) 0 = None \<and>
     slot_view (queue (handle (LRW_Send air_example queued_example))) 0 = Some (m\<lparr>msg_buf := with_tx_power 0 (msg_buf m)\<rparr>))"
proof -
  obtain m where m: "slot_view (queue (handle queued_example)) 0 = Some m" using queued_example_view by auto
  have p: "pick (handle queued_example) = 0" "retrans_index (handle queued_example) = 0"
    unfolding queued_example_def by (code_simp, code_simp)
  have f: "\<not> raises_power queued_example" "\<not> last_attempt queued_example" "ChannelsTxPower (nvm queued_example) = 0"
    using queued_example_facts by (simp_all add: raises_power_def last_attempt_def joined_example_def)
  from message_leaves_queue_when_done [OF queued_example_reach _ m, of "Confirm ack_example"]
    message_leaves_queue_when_done [OF queued_example_reach _ m, of "Send air_example"] m p f
  show ?thesis by (simp add: ack_example_def)
qed

text \<open>
  C3. When no retransmission is under way, no acknowledgement comes, and the
  stack, idle and in one of the two regions of the firmware, has room for the payload and never asks for a wait, a confirmed message is handed to the stack exactly three times. After three
  calls of \<open>LRW_Send\<close>, or four when the transmit power has to be raised in between, three requests were
  made: each is confirmed, on the configured port and at the configured data rate, and carries the
  message; the first has the current transmit power written into it, the two others the maximal one.
  Then no attempt is left and the slot is free.
\<close>
theorem confirmed_message_attempts:
  assumes "lrw_reach fam s" "answers_at_once env" "confirmedMsgs (dev_config s)" "\<not> tx_running (nvm s)"
    and "served (mac_region (nvm s))" "retrans_left (handle s) = 0"
    and "slot_view (queue (handle s)) (pick (handle s)) = Some m"
  shows "\<exists>n \<in> {3, 4}. requests ((LRW_Send env ^^ n) s) = requests s @
      [confirmed_request s m (ChannelsTxPower (nvm s)), confirmed_request s m EU868_MAX_TX_POWER,
       confirmed_request s m EU868_MAX_TX_POWER] \<and>
    retrans_left (handle ((LRW_Send env ^^ n) s)) = 0 \<and>
    slot_view (queue (handle ((LRW_Send env ^^ n) s))) (pick (handle s)) = None"
  by (rule confirmed_attempts_run [OF assms])

theorem confirmed_message_attempts_witness:
  "\<exists>m. slot_view (queue (handle queued_example)) 0 = Some m \<and> (\<exists>n \<in> {3, 4}.
    requests ((LRW_Send air_example ^^ n) queued_example) = requests queued_example @
      [confirmed_request queued_example m 0, confirmed_request queued_example m 0, confirmed_request queued_example m 0] \<and>
    retrans_left (handle ((LRW_Send air_example ^^ n) queued_example)) = 0 \<and>
    slot_view (queue (handle ((LRW_Send air_example ^^ n) queued_example))) 0 = None)"
proof -
  obtain m where m: "slot_view (queue (handle queued_example)) 0 = Some m" using queued_example_view by auto
  have p: "pick (handle queued_example) = 0" unfolding queued_example_def by code_simp
  have "\<exists>n \<in> {3, 4}. requests ((LRW_Send air_example ^^ n) queued_example) = requests queued_example @
      [confirmed_request queued_example m (ChannelsTxPower (nvm queued_example)),
       confirmed_request queued_example m EU868_MAX_TX_POWER, confirmed_request queued_example m EU868_MAX_TX_POWER] \<and>
    retrans_left (handle ((LRW_Send air_example ^^ n) queued_example)) = 0 \<and>
    slot_view (queue (handle ((LRW_Send air_example ^^ n) queued_example))) (pick (handle queued_example)) = None"
    by (rule confirmed_message_attempts [OF queued_example_reach])
      (simp_all add: m p queued_example_facts answers_at_once_def served_def uplink_examples)
  with m show ?thesis by (simp add: p queued_example_facts EU868_MAX_TX_POWER_def joined_example_def)
qed

text \<open>
  C4. On a joined button device with an empty queue, a detected gesture
  becomes one data request on the configured port whose payload, read with the documented format,
  says: version 1, the transmit power of the stack, an event, the gesture, the battery voltage
  between 2.01 and 3.27 V in steps of 10 mV, the temperature byte and the count of the gesture.
\<close>
theorem button_event_delivered:
  assumes "lrw_reach STA s" "LRW_IsJoined (nvm s)" "\<And>i. slot_view (queue (handle s)) i = None"
    and "detectedGesture r = 1 \<or> detectedGesture r = 2 \<or> detectedGesture r = 3" "query_tx_possible env 4 (nvm s)"
  shows "\<exists>s1 req. enqueueToSend STA r EVENT trig s = Some s1 \<and> requests (LRW_Send env s1) = requests s @ [req] \<and>
    req_port req = Some (txPort (dev_config s)) \<and> req_confirmed req = confirmedMsgs (dev_config s) \<and>
    read_report (req_payload req) = \<lparr>rep_version = 1, rep_power = unat (ChannelsTxPower (nvm s) AND 7), rep_event = True,
      rep_gesture = unat (detectedGesture r) - 1, rep_centivolts = max 201 (min 327 (unat (voltage_100 r))),
      rep_temperature = unat (temperature_byte (temperature_10 r)),
      rep_count = unat (gesture_count (detectedGesture r) (dev_config s))\<rparr>"
  by (rule button_event_sent [OF assms])

theorem button_event_delivered_witness:
  "\<exists>s1 req. enqueueToSend STA (press_example 3) EVENT 0 (lrw_start DevCfg_default joined_example) = Some s1 \<and>
    requests (LRW_Send air_example s1) = [req] \<and>
    read_report (req_payload req) = \<lparr>rep_version = 1, rep_power = 0, rep_event = True, rep_gesture = 2,
      rep_centivolts = 300, rep_temperature = 95, rep_count = 0\<rparr>"
proof -
  let ?s = "lrw_start DevCfg_default joined_example"
  have j: "LRW_IsJoined (nvm ?s)" by code_simp
  have e: "slot_view (queue (handle ?s)) i = None" for i
    by (simp add: slot_view_def lrw_start_def lrw_zero_def empty_msg_def)
  have g: "detectedGesture (press_example 3) = 1 \<or> detectedGesture (press_example 3) = 2 \<or> detectedGesture (press_example 3) = 3"
    by (simp add: press_example_def)
  have t: "query_tx_possible air_example 4 (nvm ?s)" by (simp add: air_example_def)
  have v: "ChannelsTxPower (nvm ?s) AND 7 = 0" "requests ?s = []" "max 201 (min 327 (unat (voltage_100 (press_example 3)))) = 300"
    "unat (temperature_byte (temperature_10 (press_example 3))) = 95" "gesture_count (detectedGesture (press_example 3)) (dev_config ?s) = 0"
    "unat (detectedGesture (press_example 3)) - 1 = 2"
    by (simp add: lrw_start_def joined_example_def, simp add: lrw_start_def, simp add: press_example_def, code_simp, code_simp, simp add: press_example_def)
  from button_event_delivered [OF lrw_reach.start j e g t, of 0] show ?thesis
    unfolding v by auto
qed

text \<open>
  The voltage byte never has its top bit set and stands for the
  voltage limited to 2.01 to 3.27 V; the temperature byte stands for the temperature limited to -40 to 125
  degrees, rounded down by less than one step of 165/255 degrees.
\<close>
theorem measurement_bytes_accuracy:
  "voltage_byte v < 0x80 \<and> 200 + unat (voltage_byte v) = max 201 (min 327 (unat v)) \<and>
   int (unat (temperature_byte t)) * 1650 \<le> (max (-400) (min 1250 (sint t)) + 400) * 255 \<and>
   (max (-400) (min 1250 (sint t)) + 400) * 255 < int (unat (temperature_byte t) + 1) * 1650"
proof (intro conjI)
  have div_mult_le: "x div 1650 * 1650 \<le> x" and below_next: "x < (x div 1650 + 1) * 1650" for x :: int
    by presburger+
  show "voltage_byte v < 0x80" by (simp add: word_less_nat_alt voltage_byte_value)
  show "200 + unat (voltage_byte v) = max 201 (min 327 (unat v))" by (simp add: voltage_byte_value)
  show "int (unat (temperature_byte t)) * 1650 \<le> (max (-400) (min 1250 (sint t)) + 400) * 255"
    unfolding temperature_byte_value by (rule div_mult_le)
  show "(max (-400) (min 1250 (sint t)) + 400) * 255 < int (unat (temperature_byte t) + 1) * 1650"
    unfolding of_nat_add temperature_byte_value of_nat_1 by (rule below_next)
qed

text \<open>
  On the multi sensor the bytes that \<open>enqueueToSend\<close> queues do not depend
  on the trigger it is given: the message is composed with the trigger of the slot's previous message.
\<close>
theorem stx_event_forgets_trigger:
  "map_option (\<lambda>s'. map msg_buf (queue (handle s'))) (enqueueToSend STX r ty trig1 s) =
   map_option (\<lambda>s'. map msg_buf (queue (handle s'))) (enqueueToSend STX r ty trig2 s)"
  by (auto simp: enqueueToSend_def compose_def Let_def map_update)

lemma late_ack_run:
  assumes reach: "lrw_reach fam s" and env: "answers_at_once env" and c: "confirmedMsgs (dev_config s)"
    and joined: "LRW_IsJoined (nvm s)" and last: "retrans_left (handle s) = 1"
    and p: "ChannelsTxPower (nvm s) = EU868_MAX_TX_POWER" and j: "j = unat (retrans_index (handle s))"
    and before: "\<And>k. k < j \<Longrightarrow> slot_view (queue (handle s)) k \<noteq> None"
    and ty: "ty = SCHEDULED \<or> ty = EVENT" and s2: "enqueueToSend fam r ty trig (LRW_Send env s) = Some s2"
    and ack: "cf_AckReceived cf"
  shows "\<exists>m. msg_type m = ty \<and> slot_view (queue (handle s2)) = (slot_view (queue (handle (LRW_Send env s))))(j \<mapsto> m)"
    "slot_view (queue (handle (McpsConfirm cf s2))) = slot_view (queue (handle (LRW_Send env s)))"
    "requests (McpsConfirm cf s2) = requests (LRW_Send env s)"
proof -
  let ?s1 = "LRW_Send env s"
  note wf = lrw_reach_wf [OF reach] and wf1 = lrw_wf_send [OF lrw_reach_wf [OF reach], of env]
  have pick: "pick (handle s) = j" using last by (simp add: pick_def j)
  obtain m0 where m0: "slot_view (queue (handle s)) j = Some m0"
    using wf last by (auto simp: lrw_wf_def j)
  have "\<not> raises_power s" using p by (simp add: raises_power_def)
  note sent = send_request [OF wf env c _ this, unfolded pick, OF m0, simplified last, simplified]
  have j3: "j < LRW_QUEUE_LEN" using wf by (simp add: lrw_wf_def j)
  have q1: "queue_wf (queue (handle ?s1))" using wf1 by (simp add: lrw_wf_def)
  have "slot_view (queue (handle ?s1)) k \<noteq> None" if "k < j" for k
    using before [OF that] LRW_Send_view [OF wf, of k] that pick by auto
  then have "\<not> free_slot (queue (handle ?s1)) < j"
    using uplink.free_is_free [OF q1] j3 by (meson order_less_trans)
  moreover have "\<not> j < free_slot (queue (handle ?s1))"
    using sent(6) j3 q1 first_slot_before [of j "\<lambda>m. msg_type m = 0" "queue (handle ?s1)"]
    by (auto simp: free_slot_def slot_view_def split: if_splits)
  ultimately have free: "free_slot (queue (handle ?s1)) = j" by simp
  from s2 q1 obtain m c' where m: "msg_wf m" "msg_type m \<noteq> 0" "s2 = set_queue (uplink.push m) (?s1\<lparr>dev_config := c'\<rparr>)" "msg_type m = ty"
    by (cases rule: enqueue_cases) (use joined ty j3 free sent in auto)
  have view: "slot_view (queue (handle s2)) = (slot_view (queue (handle ?s1)))(j \<mapsto> m)"
    using m(1,2) j3 q1 by (simp add: m(3) uplink.push_def free uplink.view_put)
  with m(4) show "\<exists>m. msg_type m = ty \<and> slot_view (queue (handle s2)) = (slot_view (queue (handle ?s1)))(j \<mapsto> m)" by blast
  have "slot_view (queue (handle (McpsConfirm cf s2))) k = slot_view (queue (handle ?s1)) k" for k
    using confirm_view [OF lrw_wf_enqueue [OF s2 wf1], of cf k] ack sent(5,6) view by (simp add: m(3))
  then show "slot_view (queue (handle (McpsConfirm cf s2))) = slot_view (queue (handle ?s1))" ..
  show "requests (McpsConfirm cf s2) = requests ?s1" by (simp add: McpsConfirm_def Let_def m(3))
qed

text \<open>
  C37. After the last attempt at a confirmed message (at maximal power, with a
  stack that accepts it at once) has freed its slot, the next message is put into this slot, when no slot before it is free. If the acknowledgement of the
  last attempt arrives then, \<open>McpsConfirm\<close> frees the slot again: the queue is what it was before the next
  message was queued, and no request was made for it. This holds for every message, event or scheduled.
\<close>
theorem late_ack_discards_next_message:
  assumes "lrw_reach fam s" "answers_at_once env" "confirmedMsgs (dev_config s)" "LRW_IsJoined (nvm s)"
    and "retrans_left (handle s) = 1" "ChannelsTxPower (nvm s) = EU868_MAX_TX_POWER" "j = unat (retrans_index (handle s))"
    and "\<And>k. k < j \<Longrightarrow> slot_view (queue (handle s)) k \<noteq> None"
    and "ty = SCHEDULED \<or> ty = EVENT" "enqueueToSend fam r ty trig (LRW_Send env s) = Some s2" "cf_AckReceived cf"
  shows "(\<exists>m. msg_type m = ty \<and> slot_view (queue (handle s2)) = (slot_view (queue (handle (LRW_Send env s))))(j \<mapsto> m)) \<and>
    slot_view (queue (handle (McpsConfirm cf s2))) = slot_view (queue (handle (LRW_Send env s))) \<and>
    requests (McpsConfirm cf s2) = requests (LRW_Send env s)"
  using late_ack_run [OF assms] by blast

theorem late_ack_discards_next_message_witness:
  "\<exists>s s2 m. run_example [Enqueue (press_example 1) EVENT 0, Send air_example, Send air_example] = Some s \<and>
    enqueueToSend STA (press_example 3) EVENT 0 (LRW_Send air_example s) = Some s2 \<and>
    slot_view (queue (handle s2)) 0 = Some m \<and> slot_view (queue (handle (McpsConfirm ack_example s2))) 0 = None"
proof -
  let ?step = "LRW_Send air_example"
  let ?s = "?step (?step queued_example)"
  have run: "run_example [Enqueue (press_example 1) EVENT 0, Send air_example, Send air_example] = Some ?s"
    using queued_example_step by (simp add: run_example_def)
  have reach: "lrw_reach STA ?s"
    by (rule lrw_reach.step [OF lrw_reach.step [OF queued_example_reach, of "Send air_example"], of _ "Send air_example"])
      simp_all
  have env: "answers_at_once air_example" by (simp add: answers_at_once_def air_example_def)
  have facts: "confirmedMsgs (dev_config ?s)" "LRW_IsJoined (nvm ?s)" "retrans_left (handle ?s) = 1"
    "ChannelsTxPower (nvm ?s) = EU868_MAX_TX_POWER" "0 = unat (retrans_index (handle ?s))"
    "slot_view (queue (handle (?step ?s))) 0 = None"
    unfolding queued_example_def by (code_simp, code_simp, code_simp, code_simp, code_simp, code_simp)
  have "enqueueToSend STA (press_example 3) EVENT 0 (?step ?s) \<noteq> None"
    unfolding queued_example_def by code_simp
  then obtain s2 where s2: "enqueueToSend STA (press_example 3) EVENT 0 (?step ?s) = Some s2" by blast
  from late_ack_discards_next_message [OF reach env facts(1-5) _ _ s2, of ack_example] facts(6) run s2
  show ?thesis by (auto simp: ack_example_def)
qed

lemma bme_pressure_not_clamped:
  \<comment> \<open>one pascal below the range is not sent as 0\<close>
  "bme_pressure_bits 30000 = 0" "(ucast (bme_pressure_bits 29999) :: uint16) \<noteq> 0"
  by (code_simp, code_simp)

lemma unsent_message_is_dropped:
  \<comment> \<open>an unconfirmed message is dropped even when the stack refuses the request\<close>
  "LRW_HasQueue (queue (handle (LRW_Send (air_example\<lparr>mcps_request := \<lambda>req m. (m, LORAMAC_STATUS_BUSY, 0)\<rparr>)
     (queued_example\<lparr>dev_config := DevCfg_default\<lparr>confirmedMsgs := False\<rparr>\<rparr>)))) = 0"
  unfolding queued_example_def by code_simp

end
