(* ===== verification/Sensor_Reports.thy ===== *)
theory Sensor_Reports
  imports Uplink_Delivery
begin

text \<open>
  What the sensor devices report: the messages of STX and STE devices, read back with the tables of
  \<^verbatim>\<open>MESSAGE_FORMAT_LORA_01.md\<close>, agree with the readings of the sensors they were composed from.
\<close>

section \<open>The formats\<close>

record base_report =
  \<comment> \<open>what every message begins with\<close>
  base_version :: uint8
  base_power :: uint8
  base_centivolts :: nat

definition read_base :: "bytes \<Rightarrow> base_report" where
  "read_base b = \<lparr>base_version = drop_bit 6 (b ! 0), base_power = drop_bit 2 (b ! 0) AND 7,
     base_centivolts = 200 + unat (b ! 1 AND 0x7F)\<rparr>"



record ste_report =
  ste_accuracy :: uint8
  ste_temperature :: uint16
  ste_humidity :: uint8
  ste_pressure :: uint16
  ste_iaq :: uint16
  ste_voc :: uint16
  ste_co2 :: uint16

definition read_ste :: "bytes \<Rightarrow> ste_report" where
  "read_ste b = \<lparr>
     ste_accuracy = b ! 10 AND 3,
     ste_temperature = ucast (b ! 2) OR push_bit 8 (ucast (drop_bit 7 (b ! 3))),
     ste_humidity = b ! 3 AND 0x7F,
     ste_pressure = ucast (b ! 4) OR push_bit 8 (ucast (b ! 5)),
     ste_iaq = ucast (b ! 6) OR push_bit 8 (ucast (drop_bit 7 (b ! 10))),
     ste_voc = ucast (b ! 7) OR push_bit 8 (ucast (b ! 9 AND 0xF)) OR push_bit 12 (ucast (drop_bit 5 (b ! 10) AND 1)),
     ste_co2 = ucast (b ! 8) OR push_bit 8 (ucast (drop_bit 4 (b ! 9))) OR push_bit 12 (ucast (drop_bit 2 (b ! 10) AND 7))\<rparr>"

section \<open>The fields\<close>

text \<open>Words are equal when their bits are, one by one.\<close>

lemma upto_bits:
  "[0..<16] = [0, 1, 2, 3, 4, 5, 6, 7, 8, 9, 10, 11, 12, 13, 14, 15]" "[0..<8] = [0, 1, 2, 3, 4, 5, 6, 7]"
  by (simp_all add: upt_rec)

lemma all_bits16:
  assumes "list_all (\<lambda>n. bit v n = bit w n) [0, 1, 2, 3, 4, 5, 6, 7, 8, 9, 10, 11, 12, 13, 14, 15]"
  shows "v = (w :: uint16)"
  using assms unfolding upto_bits(1) [symmetric] by (intro bit_word_eqI) (simp add: list_all_iff)

lemma all_bits8:
  assumes "list_all (\<lambda>n. bit v n = bit w n) [0, 1, 2, 3, 4, 5, 6, 7]"
  shows "v = (w :: uint8)"
  using assms unfolding upto_bits(2) [symmetric] by (intro bit_word_eqI) (simp add: list_all_iff)

lemma masks16:
  "(0x80 :: uint16) = push_bit 7 1" "(0x1FF :: uint16) = mask 9" "(0x1FFF :: uint16) = mask 13"
  "(0x7FFF :: uint16) = mask 15" "(0x0F :: uint16) = mask 4" "(0xF0 :: uint16) = push_bit 4 (mask 4)"
  "(0x20 :: uint16) = push_bit 5 1" "(0x1C :: uint16) = push_bit 2 (mask 3)" "(0x3F :: uint16) = mask 6" "(0xFF :: uint16) = mask 8"
  by (simp_all add: mask_eq_exp_minus_1)

lemma masks8:
  "(0x7F :: uint8) = mask 7" "(0xF :: uint8) = mask 4" "(3 :: uint8) = mask 2" "(7 :: uint8) = mask 3" "(0x3F :: uint8) = mask 6"
  "(4 :: uint8) = push_bit 2 1" "(0x18 :: uint8) = push_bit 3 (mask 2)" "(0x40 :: uint8) = push_bit 6 1"
  "(0xC3 :: uint8) = mask 2 OR push_bit 6 (mask 2)" "(1 :: uint8) = mask 1"
  by (simp_all add: mask_eq_exp_minus_1)

lemma nine_bits:
  "ucast (ucast t :: uint8) OR push_bit 8 (ucast (drop_bit 7 (ucast (push_bit 7 (drop_bit 8 t) AND 0x80) OR (h AND 0x7F) :: uint8))) =
    (t AND 0x1FF :: uint16)"
  unfolding masks16 masks8 by (rule all_bits16) (simp add: bit_simps)

lemma low_seven:
  "(ucast (push_bit 7 (drop_bit 8 (t :: uint16)) AND 0x80) OR (h AND 0x7F)) AND 0x7F = (h AND 0x7F :: uint8)"
  unfolding masks16 masks8 by (rule all_bits8) (simp add: bit_simps)

lemma two_bytes: "ucast (ucast p :: uint8) OR push_bit 8 (ucast (ucast (drop_bit 8 p) :: uint8)) = (ucast (p :: uint32) :: uint16)"
  by (rule all_bits16) (simp add: bit_simps)

lemma byte_ten:
  fixes q voc co2 :: uint16 and a :: uint32
  assumes b_def: "b = (ucast (a AND 3) OR ucast (push_bit 7 (drop_bit 8 q) AND 0x80) OR
          ucast (push_bit 5 (drop_bit 12 voc) AND 0x20) OR ucast (push_bit 2 (drop_bit 12 co2) AND 0x1C) :: uint8)"
  shows "b AND 3 = ucast a AND 3"
    "ucast (ucast q :: uint8) OR push_bit 8 (ucast (drop_bit 7 b)) = (q AND 0x1FF)"
    "drop_bit 5 b AND 1 = ucast (drop_bit 12 voc) AND 1"
    "drop_bit 2 b AND 7 = ucast (drop_bit 12 co2) AND 7"
proof -
  have a: "(3 :: uint32) = mask 2" by (simp add: mask_eq_exp_minus_1)
  show "ucast (ucast q :: uint8) OR push_bit 8 (ucast (drop_bit 7 b)) = (q AND 0x1FF)"
    unfolding b_def masks16 masks8 a by (rule all_bits16) (simp add: bit_simps)
  show "b AND 3 = ucast a AND 3" "drop_bit 5 b AND 1 = ucast (drop_bit 12 voc) AND 1"
    "drop_bit 2 b AND 7 = ucast (drop_bit 12 co2) AND 7"
    unfolding b_def masks16 masks8 a by (rule all_bits8, simp add: bit_simps)+
qed

lemma thirteen_bits:
  fixes voc co2 :: uint16
  assumes b_def: "b = (ucast (drop_bit 8 voc AND 0x0F) OR ucast (push_bit 4 (drop_bit 8 co2) AND 0xF0) :: uint8)"
  shows "ucast (ucast voc :: uint8) OR push_bit 8 (ucast (b AND 0xF)) OR push_bit 12 (ucast (ucast (drop_bit 12 voc) AND 1 :: uint8)) =
      (voc AND 0x1FFF)"
    "ucast (ucast co2 :: uint8) OR push_bit 8 (ucast (drop_bit 4 b)) OR push_bit 12 (ucast (ucast (drop_bit 12 co2) AND 7 :: uint8)) =
      (co2 AND 0x7FFF)"
  unfolding b_def masks16 masks8 by (rule all_bits16, simp add: bit_simps)+


section \<open>Reading a message\<close>

lemma read_base_message:
  assumes "drop_bit 6 b0 = 1" "b1 AND 0x7F = voltage_byte v"
  shows "read_base (embed_power p b0 # b1 # bs) =
    \<lparr>base_version = 1, base_power = p AND 7, base_centivolts = max 201 (min 327 (unat v))\<rparr>"
proof -
  have "200 + (max 201 (min 327 (unat v)) - 200) = max 201 (min 327 (unat v))" by simp
  then show ?thesis using assms by (simp add: read_base_def embed_power_fields voltage_byte_value)
qed

lemma below_mask: "unat (w :: 'a::len word) < 2 ^ k \<Longrightarrow> w AND mask k = w"
  by (simp flip: take_bit_eq_mask) (metis take_bit_nat_eq_self unsigned_take_bit_eq unsigned_word_eqI)


lemma read_ste_message:
  assumes "length (msg_buf m) = 12" "BSEC_float (bsec_voc r) = Some vb" "ste_scheduled r m = Some m'"
  shows "read_ste (take (unat (msg_len m')) (with_tx_power p (msg_buf m'))) =
    \<lparr>ste_accuracy = ucast (bsec_acc r) AND 3, ste_temperature = bme_temperature_bits (bme_temperature r) AND 0x1FF,
     ste_humidity = bme_humidity_bits (bme_humidity r) AND 0x7F, ste_pressure = ucast (bme_pressure_bits (bme_pressure r)),
     ste_iaq = bsec_iaq_bits (bsec_iaq r) AND 0x1FF, ste_voc = vb AND 0x1FFF,
     ste_co2 = bsec_co2_bits (bsec_co2 r) AND 0x7FFF\<rparr>" (is ?thesis1)
    and "read_base (take (unat (msg_len m')) (with_tx_power p (msg_buf m'))) =
    \<lparr>base_version = 1, base_power = p AND 7, base_centivolts = max 201 (min 327 (unat (voltage_100 r)))\<rparr>" (is ?thesis2)
proof -
  define t where "t = bme_temperature_bits (bme_temperature r)"
  define q where "q = bsec_iaq_bits (bsec_iaq r)"
  define c where "c = bsec_co2_bits (bsec_co2 r)"
  define pr where "pr = bme_pressure_bits (bme_pressure r)"
  define b3 where "b3 = ucast (push_bit 7 (drop_bit 8 t) AND 0x80) OR (bme_humidity_bits (bme_humidity r) AND 0x7F)"
  define b9 :: uint8 where "b9 = ucast (drop_bit 8 vb AND 0x0F) OR ucast (push_bit 4 (drop_bit 8 c) AND 0xF0)"
  define b10 :: uint8 where "b10 = ucast (bsec_acc r AND 3) OR ucast (push_bit 7 (drop_bit 8 q) AND 0x80) OR
          ucast (push_bit 5 (drop_bit 12 vb) AND 0x20) OR ucast (push_bit 2 (drop_bit 12 c) AND 0x1C)"
  have b: "take (unat (msg_len m')) (with_tx_power p (msg_buf m')) = [embed_power p 0x40, voltage_byte (voltage_100 r),
      ucast t, b3, ucast pr, ucast (drop_bit 8 pr), ucast q, ucast vb, ucast c, b9, b10]"
    using assms by (auto simp: ste_scheduled_def Let_def with_tx_power_def t_def q_def c_def pr_def b3_def b9_def b10_def)
  show ?thesis2 unfolding b using voltage_low_bits by (intro read_base_message) simp_all
  from b show ?thesis1
    using nine_bits [of t "bme_humidity_bits (bme_humidity r)", folded b3_def]
      low_seven [of t "bme_humidity_bits (bme_humidity r)", folded b3_def] two_bytes [of pr]
      byte_ten [OF b10_def] thirteen_bits [OF b9_def]
    by (simp add: read_ste_def t_def q_def c_def pr_def)
qed

lemma BSEC_float_bits:
  assumes "BSEC_float f = Some v"
  shows "v AND 0x1FFF = v"
proof -
  have m: "(7 :: uint16) = mask 3" "(0x3FF :: uint16) = mask 10" "(0x1FFF :: uint16) = mask 13"
    by (simp_all add: mask_eq_exp_minus_1)
  from assms obtain a b where "v = 0 \<or> v = mask 13 \<or> v = push_bit 10 (a AND mask 3) OR (b AND mask 10)"
    by (auto simp: BSEC_float_def Let_def m split: if_splits)
  then show ?thesis unfolding m by (elim disjE) (simp, simp, simp, rule all_bits16, simp add: bit_simps)
qed

lemma masked_int:
  assumes "0 \<le> i" "i < 2 ^ k" "k \<le> LENGTH('a::len)"
  shows "int (unat (word_of_int i AND mask k :: 'a word)) = i"
proof -
  have "uint (take_bit k (word_of_int i :: 'a word)) = take_bit k (take_bit LENGTH('a) i)"
    by (simp only: unsigned_take_bit_eq uint_word_of_int_eq)
  also have "\<dots> = i" using assms by (simp add: take_bit_int_eq_self)
  finally show ?thesis by (simp only: take_bit_eq_mask uint_nat)
qed

lemma bme_temperature_nine:
  assumes "- 4000 \<le> sint t" "sint t \<le> 8500"
  shows "int (unat (bme_temperature_bits t AND 0x1FF)) = (sint t + 4000) * 511 div 12500"
proof -
  let ?x = "(sint t + 4000) * 511 div 12500"
  have x: "0 \<le> ?x" "?x < 2 ^ 9" using assms by (simp_all add: pos_imp_zdiv_nonneg_iff div_less_iff)
  have b: "bme_temperature_bits t = word_of_int ?x" using assms by (simp add: bme_temperature_bits_def)
  show ?thesis unfolding b masks16 using x by (intro masked_int) simp_all
qed

lemma rounded_small:
  fixes x :: real
  assumes "0 \<le> x" "x \<le> 500"
  shows "int (unat (bsec_iaq_bits x AND 0x1FF)) = \<lfloor>x + 1 / 2\<rfloor>"
proof -
  have b: "bsec_iaq_bits x = word_of_int \<lfloor>x + 1 / 2\<rfloor>" using assms by (simp add: bsec_iaq_bits_def)
  have "0 \<le> \<lfloor>x + 1 / 2\<rfloor>" "\<lfloor>x + 1 / 2\<rfloor> < 2 ^ 9" using assms by (simp_all add: floor_less_iff)
  then show ?thesis unfolding b masks16 by (intro masked_int) simp_all
qed

lemma truncated_co2:
  fixes x :: real
  assumes "0 \<le> x" "x \<le> 32767"
  shows "int (unat (bsec_co2_bits x AND 0x7FFF)) = \<lfloor>x\<rfloor>"
proof -
  have b: "bsec_co2_bits x = word_of_int \<lfloor>x\<rfloor>" using assms by (simp add: bsec_co2_bits_def)
  have "0 \<le> \<lfloor>x\<rfloor>" "\<lfloor>x\<rfloor> < 2 ^ 15" using assms by (simp_all add: floor_less_iff)
  then show ?thesis unfolding b masks16 by (intro masked_int) simp_all
qed

lemma bme_humidity_value:
  assumes "unat h \<le> 100000"
  shows "unat (bme_humidity_bits h AND 0x7F) = unat h div 1000"
proof -
  have le: "unat h div 1000 \<le> 100" using div_le_mono [OF assms, of 1000] by simp
  have "unat (bme_humidity_bits h) = unat (h div 1000)"
    using assms le by (simp add: bme_humidity_bits_def word_less_nat_alt unsigned_ucast_eq unat_div take_bit_nat_eq_self)
  then have u: "unat (bme_humidity_bits h) = unat h div 1000" by (simp add: unat_div)
  with le have "unat (bme_humidity_bits h) < 2 ^ 7" by simp
  from below_mask [OF this] u show ?thesis by (simp add: masks8)
qed

lemma bme_pressure_value:
  assumes "30000 \<le> unat p" "unat p \<le> 110000"
  shows "int (unat (ucast (bme_pressure_bits p) :: uint16)) = (int (unat p) - 30000) * 65535 div 80000"
proof -
  have n: "unat (p - 30000) = unat p - 30000" using assms(1) by (simp add: unat_sub word_le_nat_alt)
  have w: "unat (ucast (p - 30000) :: uint64) = unat p - 30000"
    using unsigned_less [of "p - 30000", where 'a = nat]
    unfolding n [symmetric] by (simp add: unsigned_ucast_eq take_bit_nat_eq_self)
  have m: "unat (ucast (p - 30000) * 65535 :: uint64) = (unat p - 30000) * 65535"
    using assms(2) by (simp add: unat_word_ariths w)
  have d: "unat (ucast (p - 30000) * 65535 div 80000 :: uint64) = (unat p - 30000) * 65535 div 80000"
    by (simp add: unat_div m)
  have g: "unat (ucast (ucast y :: uint32) :: uint16) = unat y" if "unat y < 65536" for y :: uint64
    using that by (simp add: unsigned_ucast_eq unsigned_take_bit_eq take_bit_nat_eq_self)
  have lt: "(unat p - 30000) * 65535 div 80000 < 65536" using assms(2) by (simp add: div_less_iff_less_mult)
  have "unat (ucast (bme_pressure_bits p) :: uint16) = (unat p - 30000) * 65535 div 80000"
    unfolding bme_pressure_bits_def using g [of "ucast (p - 30000) * 65535 div 80000"] lt unfolding d by blast
  then show ?thesis using assms(1) by (simp add: of_nat_div of_nat_diff)
qed

section \<open>Properties\<close>

lemma floor_step:
  fixes x :: real
  assumes "0 < b" "n = a div b"
  shows "real_of_int n \<le> real_of_int a / real_of_int b" "real_of_int a / real_of_int b < real_of_int n + 1"
  using floor_divide_of_int_eq [of a b, where 'a = real] assms floor_eq_iff [of "real_of_int a / real_of_int b" n] by simp_all

lemma ste_message_sent:
  assumes "lrw_reach STE s" "LRW_IsJoined (nvm s)" "\<And>i. slot_view (queue (handle s)) i = None"
    and "query_tx_possible env 11 (nvm s)" "BSEC_float (bsec_voc r) = Some vb"
  shows "\<exists>s1 req. enqueueToSend STE r SCHEDULED trig s = Some s1 \<and> requests (LRW_Send env s1) = requests s @ [req] \<and>
    req_port req = Some (txPort (dev_config s)) \<and> req_confirmed req = confirmedMsgs (dev_config s) \<and>
    read_base (req_payload req) = \<lparr>base_version = 1, base_power = ChannelsTxPower (nvm s) AND 7,
      base_centivolts = max 201 (min 327 (unat (voltage_100 r)))\<rparr> \<and>
    read_ste (req_payload req) =
      \<lparr>ste_accuracy = ucast (bsec_acc r) AND 3, ste_temperature = bme_temperature_bits (bme_temperature r) AND 0x1FF,
       ste_humidity = bme_humidity_bits (bme_humidity r) AND 0x7F, ste_pressure = ucast (bme_pressure_bits (bme_pressure r)),
       ste_iaq = bsec_iaq_bits (bsec_iaq r) AND 0x1FF, ste_voc = vb AND 0x1FFF,
       ste_co2 = bsec_co2_bits (bsec_co2 r) AND 0x7FFF\<rparr>"
proof -
  let ?m = "queue (handle s) ! 0"
  have len: "length (msg_buf ?m) = 12"
    using lrw_reach_wf [OF assms(1)] queue_wf_nth [of "queue (handle s)" 0] by (simp add: lrw_wf_def LRW_QUEUE_LEN_def msg_wf_def)
  obtain m' where m': "ste_scheduled r ?m = Some m'" using assms(5) by (simp add: ste_scheduled_def Let_def)
  then have "compose STE SCHEDULED r ?m (dev_config s) = Some (m', dev_config s)" by (simp add: compose_def)
  moreover have "unat (msg_len m') = 11" using m' by (auto simp: ste_scheduled_def Let_def)
  ultimately show ?thesis
    using message_sent [OF assms(1-3), of SCHEDULED r m' "dev_config s" env trig] assms(4)
      read_ste_message [OF len assms(5) m', of "ChannelsTxPower (nvm s)"] by fastforce
qed

text \<open>
  C6. On a joined environment sensor (STE) with an empty queue, a scheduled message
  becomes one data request on the configured port whose payload, read back with the documented table, gives the
  readings: version 1, the transmit power of the stack and the battery voltage limited to 2.01 to 3.27 V; temperature and pressure
  rounded down to one step, humidity rounded down to a percent, the air quality index rounded, the carbon dioxide
  equivalent cut to an integer and the organic compounds within half a step of their floating point format. The
  readings are assumed within the documented ranges, and three ranges of the organic compounds are
  excluded: values that round to 1 from below, and 1, are sent as 0 (lemma \<open>BSEC_float_one\<close>); between 7 and 7.97 and between
  63 and 63.78 the conversion is undefined (lemma \<open>BSEC_float_undefined\<close>). The readings of the library and the
  computation of \<open>BSEC_float\<close> are real numbers here, not single precision.
\<close>
theorem environment_readings_delivered:
  assumes "lrw_reach STE s" "LRW_IsJoined (nvm s)" "\<And>i. slot_view (queue (handle s)) i = None"
    and "query_tx_possible env 11 (nvm s)"
    and "- 4000 \<le> sint (bme_temperature r)" "sint (bme_temperature r) \<le> 8500"
    and "30000 \<le> unat (bme_pressure r)" "unat (bme_pressure r) \<le> 110000" "unat (bme_humidity r) \<le> 100000"
    and "0 \<le> bsec_iaq r" "bsec_iaq r \<le> 500" "0 \<le> bsec_co2 r" "bsec_co2 r \<le> 32767"
    and "0 \<le> bsec_voc r" "bsec_voc r \<le> 2095360" "bsec_voc r < 1023.5 / 1024 \<or> 1 < bsec_voc r"
    and "bsec_voc r \<le> 7 \<or> 8 - 28 / 1024 < bsec_voc r" "bsec_voc r \<le> 63 \<or> 64 - 224 / 1024 < bsec_voc r"
  shows "\<exists>s1 req. enqueueToSend STE r SCHEDULED trig s = Some s1 \<and> requests (LRW_Send env s1) = requests s @ [req] \<and>
    req_port req = Some (txPort (dev_config s)) \<and> req_confirmed req = confirmedMsgs (dev_config s) \<and>
    read_base (req_payload req) = \<lparr>base_version = 1, base_power = ChannelsTxPower (nvm s) AND 7,
      base_centivolts = max 201 (min 327 (unat (voltage_100 r)))\<rparr> \<and>
    (let q = read_ste (req_payload req);
         celsius = 125 * real (unat (ste_temperature q)) / 511 - 40; pascal = 80000 * real (unat (ste_pressure q)) / 65535 + 30000
     in ste_accuracy q = ucast (bsec_acc r) AND 3 \<and>
        celsius \<le> sint (bme_temperature r) / 100 \<and> sint (bme_temperature r) / 100 < celsius + 125 / 511 \<and>
        pascal \<le> unat (bme_pressure r) \<and> unat (bme_pressure r) < pascal + 80000 / 65535 \<and>
        unat (ste_humidity q) = unat (bme_humidity r) div 1000 \<and>
        int (unat (ste_iaq q)) = \<lfloor>bsec_iaq r + 1 / 2\<rfloor> \<and> int (unat (ste_co2 q)) = \<lfloor>bsec_co2 r\<rfloor> \<and>
        \<bar>float_value (ste_voc q) - bsec_voc r\<bar> \<le> float_step (ste_voc q) / 2)"
proof -
  have "BSEC_float (bsec_voc r) \<noteq> None" using BSEC_float_undefined [OF assms(14,15)] assms(17,18) by linarith
  then obtain vb where vb: "BSEC_float (bsec_voc r) = Some vb" by blast
  have voc: "\<bar>float_value vb - bsec_voc r\<bar> \<le> float_step vb / 2"
    using BSEC_float_accuracy_facts [OF vb assms(14,15)] assms(16) by blast
  have h: "unat (bme_humidity_bits (bme_humidity r) AND 0x7F) = unat (bme_humidity r) div 1000"
    by (rule bme_humidity_value [OF assms(9)])
  have t: "int (unat (bme_temperature_bits (bme_temperature r) AND 0x1FF)) = (sint (bme_temperature r) + 4000) * 511 div 12500"
    by (rule bme_temperature_nine [OF assms(5,6)])
  note pr = bme_pressure_value [OF assms(7,8)]
  obtain s1 req where sent: "enqueueToSend STE r SCHEDULED trig s = Some s1" "requests (LRW_Send env s1) = requests s @ [req]"
      "req_port req = Some (txPort (dev_config s))" "req_confirmed req = confirmedMsgs (dev_config s)"
      "read_base (req_payload req) = \<lparr>base_version = 1, base_power = ChannelsTxPower (nvm s) AND 7,
        base_centivolts = max 201 (min 327 (unat (voltage_100 r)))\<rparr>"
      "read_ste (req_payload req) =
      \<lparr>ste_accuracy = ucast (bsec_acc r) AND 3, ste_temperature = bme_temperature_bits (bme_temperature r) AND 0x1FF,
       ste_humidity = bme_humidity_bits (bme_humidity r) AND 0x7F, ste_pressure = ucast (bme_pressure_bits (bme_pressure r)),
       ste_iaq = bsec_iaq_bits (bsec_iaq r) AND 0x1FF, ste_voc = vb AND 0x1FFF,
       ste_co2 = bsec_co2_bits (bsec_co2 r) AND 0x7FFF\<rparr>"
    using ste_message_sent [OF assms(1-4) vb] by blast
  show ?thesis
    apply (rule exI [of _ s1], rule exI [of _ req])
    unfolding sent Let_def
    using floor_step [OF _ t] floor_step [OF _ pr] voc BSEC_float_bits [OF vb] h
      rounded_small [OF assms(10,11)] truncated_co2 [OF assms(12,13)]
    by (simp add: field_simps)
qed

definition air_readings :: measurements where
  "air_readings = (press_example 0)\<lparr>bme_temperature := 2150, bme_humidity := 43210, bme_pressure := 101325,
     bsec_acc := 3, bsec_iaq := 25, bsec_co2 := 600, bsec_voc := 5\<rparr>"

lemma start_example:
  "LRW_IsJoined (nvm (lrw_start DevCfg_default joined_example))"
  "slot_view (queue (handle (lrw_start DevCfg_default joined_example))) i = None"
  "query_tx_possible air_example n (nvm (lrw_start DevCfg_default joined_example))"
  "requests (lrw_start DevCfg_default joined_example) = []"
  "trigger_type (queue (handle (lrw_start DevCfg_default joined_example)) ! 0) = 0"
  by (simp_all add: slot_view_def lrw_start_def lrw_zero_def empty_msg_def air_example_def joined_example_def
      LRW_IsJoined_def mac_example_def LRW_QUEUE_LEN_def activations)

theorem environment_readings_delivered_witness:
  "\<exists>s1 req. enqueueToSend STE air_readings SCHEDULED 0 (lrw_start DevCfg_default joined_example) = Some s1 \<and>
    requests (LRW_Send air_example s1) = [req] \<and> base_centivolts (read_base (req_payload req)) = 300 \<and>
    unat (ste_humidity (read_ste (req_payload req))) = 43 \<and> int (unat (ste_co2 (read_ste (req_payload req)))) = 600"
proof -
  have r: "sint (bme_temperature air_readings) = 2150" "unat (bme_pressure air_readings) = 101325"
    "unat (bme_humidity air_readings) = 43210" "unat (voltage_100 air_readings) = 300"
    by (simp_all add: air_readings_def press_example_def)
  have x: "bsec_iaq air_readings = 25" "bsec_co2 air_readings = 600" "bsec_voc air_readings = 5"
    by (simp_all add: air_readings_def)
  from environment_readings_delivered [OF lrw_reach.start start_example(1-3), of air_readings 0]
  show ?thesis by (auto simp: r x Let_def start_example)
qed



lemma bright_light_is_dark:
  "lux (SFH7776_Read 0 0x80 0 0 light0) = 16384" "(16384 :: uint16) mod 0x4000 = 0"
  by (simp_all add: SFH7776_Read_def Let_def T_INT_ALS_def GAIN_VIS_def)




end
