(* ===== verification/Gestures.thy ===== *)
theory Gestures
  imports Task_Manager
begin

text \<open>
  The button and the reed switch (\<^verbatim>\<open>src/Src/isr.c\<close>): debouncing of edges and classification of presses by
  the interrupt handlers \<open>ButtonISR\<close> and \<open>ReedSwitchISR\<close>, with the deferred single press
  \<open>ButtonTask_SinglePress\<close> of builds without \<open>SIMPLE_TWO_GESTURE_MODE\<close>. A handler is given the level of the
  pin and the time in milliseconds; it yields the gesture for which it calls \<open>enqueueToSend\<close>, if it does.
  \<open>LEDBlink\<close>, which the handlers call too, returns at once.
\<close>

section \<open>Edges\<close>

definition GPIO_PIN_RESET :: uint8 where "GPIO_PIN_RESET = 0"
definition GPIO_PIN_SET :: uint8 where "GPIO_PIN_SET = 1"
definition LRW_B0_TRIGGER_REED_SWITCH :: uint8 where "LRW_B0_TRIGGER_REED_SWITCH = 8"

lemmas pin_levels = GPIO_PIN_RESET_def GPIO_PIN_SET_def

record edge_state =
  \<comment> \<open>the static variables of a handler\<close>
  lastFall :: uint32
  lastRise :: uint32
  lastEdge :: uint8

definition hold_time :: "uint8 \<Rightarrow> uint32 \<Rightarrow> edge_state \<Rightarrow> uint32" where
  "hold_time currEdge now e = (if currEdge = GPIO_PIN_RESET then now - lastRise e else lastFall e - now)"

definition bounces :: "uint8 \<Rightarrow> uint32 \<Rightarrow> edge_state \<Rightarrow> bool" where
  "bounces currEdge now e \<longleftrightarrow> currEdge = lastEdge e \<or> now - lastRise e \<le> 100 \<or> now - lastFall e \<le> 100"

definition accept_edge :: "uint8 \<Rightarrow> uint32 \<Rightarrow> edge_state \<Rightarrow> edge_state" where
  "accept_edge currEdge now e = e\<lparr>
     lastRise := (if currEdge = GPIO_PIN_SET then now else lastRise e),
     lastFall := (if currEdge = GPIO_PIN_RESET then now else lastFall e)\<rparr>"

section \<open>The button\<close>

datatype button_cb = ButtonTask_SinglePress | LEDBlinkTask

record button_state =
  edges :: edge_state
  pending_press :: "nat option"     \<comment> \<open>\<open>buttonPendingSinglePress\<close>, the slot it points to\<close>
  timers :: "button_cb task_state"

definition press_gesture :: "uint8 \<Rightarrow> uint32 \<Rightarrow> uint8 option" where
  \<comment> \<open>with \<open>SIMPLE_TWO_GESTURE_MODE\<close>\<close>
  "press_gesture currEdge hold =
    (if currEdge = GPIO_PIN_RESET \<and> hold \<le> 1500 then Some 1
     else if currEdge = GPIO_PIN_RESET \<and> 2001 \<le> hold \<and> hold \<le> 8000 then Some 3
     else None)"

definition deferred_gesture :: "uint8 \<Rightarrow> uint32 \<Rightarrow> button_state \<Rightarrow> button_state \<times> uint8 option" where
  \<comment> \<open>without it\<close>
  "deferred_gesture currEdge hold b =
    (if currEdge = GPIO_PIN_RESET \<and> pending_press b = None \<and> hold \<le> 1500 then
       (case tasks_add \<lparr>task_when = tasks_ticks (timers b) + 15, task_arg = 0, task_cb = Some ButtonTask_SinglePress\<rparr> (timers b) of
          (s, i) \<Rightarrow> (b\<lparr>timers := s, pending_press := i\<rparr>, None))
     else if currEdge = GPIO_PIN_SET \<and> pending_press b \<noteq> None then
       (b\<lparr>timers := tasks_del (the (pending_press b)) (timers b)\<rparr>, None)
     else if currEdge = GPIO_PIN_RESET \<and> pending_press b \<noteq> None \<and> hold \<le> 1500 then
       (b\<lparr>pending_press := None\<rparr>, Some 2)
     else if currEdge = GPIO_PIN_RESET \<and> pending_press b = None \<and> 2001 \<le> hold \<and> hold \<le> 8000 then (b, Some 3)
     else (b\<lparr>pending_press := None\<rparr>, None))"

definition single_press_task :: "button_state \<Rightarrow> button_state \<times> uint8 option" where
  \<comment> \<open>\<open>ButtonTask_SinglePress\<close>\<close>
  "single_press_task b = (b\<lparr>pending_press := None\<rparr>, Some 1)"

definition ButtonISR :: "bool \<Rightarrow> uint8 \<Rightarrow> uint32 \<Rightarrow> button_state \<Rightarrow> button_state \<times> uint8 option" where
  "ButtonISR simple currEdge now b =
    (let hold = hold_time currEdge now (edges b)
     in if bounces currEdge now (edges b) then (b\<lparr>edges := (edges b)\<lparr>lastEdge := currEdge\<rparr>\<rparr>, None)
        else let b1 = b\<lparr>edges := accept_edge currEdge now (edges b)\<rparr>;
                 (b2, g) = (if simple then (b1, press_gesture currEdge hold) else deferred_gesture currEdge hold b1)
             in (b2\<lparr>edges := (edges b2)\<lparr>lastEdge := currEdge\<rparr>\<rparr>, g))"

definition ReedSwitchISR :: "uint8 \<Rightarrow> uint32 \<Rightarrow> edge_state \<Rightarrow> edge_state \<times> (uint8 \<times> uint8) option" where
  \<comment> \<open>STX builds; the gesture and the trigger\<close>
  "ReedSwitchISR currEdge now e =
    (let hold = hold_time currEdge now e
     in if bounces currEdge now e then (e\<lparr>lastEdge := currEdge\<rparr>, None)
        else ((accept_edge currEdge now e)\<lparr>lastEdge := currEdge\<rparr>,
              if currEdge = GPIO_PIN_RESET \<and> hold \<le> 1000 then Some (1, LRW_B0_TRIGGER_REED_SWITCH) else None))"

section \<open>Runs of edges\<close>

fun button_run :: "bool \<Rightarrow> (uint8 \<times> uint32) list \<Rightarrow> button_state \<Rightarrow> button_state \<times> uint8 option list" where
  "button_run simple [] b = (b, [])"
| "button_run simple ((e, t) # es) b =
    (let (b1, g) = ButtonISR simple e t b; (b2, gs) = button_run simple es b1 in (b2, g # gs))"

definition steady :: "uint32 \<Rightarrow> uint32 \<Rightarrow> edge_state \<Rightarrow> bool" where
  \<comment> \<open>time \<open>t\<close> is \<open>d\<close> after both recorded edges, or later\<close>
  "steady d t e \<longleftrightarrow> d < t - lastRise e \<and> d < t - lastFall e"

lemma ButtonISR_bounce:
  "bounces e t (edges b) \<Longrightarrow> ButtonISR simple e t b = (b\<lparr>edges := (edges b)\<lparr>lastEdge := e\<rparr>\<rparr>, None)"
  by (simp add: ButtonISR_def)

lemma within_bounces:
  assumes "t - lastRise (edges b) \<le> 100 \<or> t - lastFall (edges b) \<le> 100"
  shows "bounces e t (edges b)"
  using assms by (auto simp: bounces_def)

lemma bounces_ignored:
  assumes "list_all (\<lambda>(e, t). t - lastRise (edges b) \<le> 100 \<or> t - lastFall (edges b) \<le> 100) es"
  shows "snd (button_run simple es b) = replicate (length es) None \<and>
    (\<exists>l. fst (button_run simple es b) = b\<lparr>edges := (edges b)\<lparr>lastEdge := l\<rparr>\<rparr>)"
  using assms
proof (induction es arbitrary: b)
  case Nil
  have "b = b\<lparr>edges := (edges b)\<lparr>lastEdge := lastEdge (edges b)\<rparr>\<rparr>" by simp
  then show ?case by (metis button_run.simps(1) fst_conv list.size(3) replicate_0 snd_conv)
next
  case (Cons p es)
  obtain e t where p: "p = (e, t)" by (cases p)
  let ?b = "b\<lparr>edges := (edges b)\<lparr>lastEdge := e\<rparr>\<rparr>"
  have isr: "ButtonISR simple e t b = (?b, None)"
    using Cons.prems by (intro ButtonISR_bounce within_bounces) (simp add: p)
  have "snd (button_run simple es ?b) = replicate (length es) None \<and>
    (\<exists>l. fst (button_run simple es ?b) = ?b\<lparr>edges := (edges ?b)\<lparr>lastEdge := l\<rparr>\<rparr>)"
    by (rule Cons.IH) (use Cons.prems in auto)
  then show ?case by (auto simp: p isr split: prod.split)
qed

lemma ButtonISR_accept:
  "\<not> bounces e t (edges b) \<Longrightarrow> ButtonISR True e t b =
    (b\<lparr>edges := (accept_edge e t (edges b))\<lparr>lastEdge := e\<rparr>\<rparr>, press_gesture e (hold_time e t (edges b)))"
  by (simp add: ButtonISR_def)

lemma rise_then_fall:
  \<comment> \<open>a press that starts and ends outside the debounce time\<close>
  assumes "lastEdge (edges b) = GPIO_PIN_RESET" "steady 100 t (edges b)" "100 < hold" "100 < t + hold - lastFall (edges b)"
  shows "snd (button_run True [(GPIO_PIN_SET, t), (GPIO_PIN_RESET, t + hold)] b) = [None, press_gesture GPIO_PIN_RESET hold]"
proof -
  let ?e = "(accept_edge GPIO_PIN_SET t (edges b))\<lparr>lastEdge := GPIO_PIN_SET\<rparr>"
  have "\<not> bounces GPIO_PIN_SET t (edges b)" using assms(1,2) by (simp add: bounces_def steady_def not_le pin_levels)
  moreover have "\<not> bounces GPIO_PIN_RESET (t + hold) ?e"
    using assms(3,4) by (simp add: bounces_def accept_edge_def not_le pin_levels)
  moreover have "hold_time GPIO_PIN_RESET (t + hold) ?e = hold" by (simp add: hold_time_def accept_edge_def)
  moreover have "press_gesture GPIO_PIN_SET x = None" for x by (simp add: press_gesture_def pin_levels)
  ultimately show ?thesis by (simp add: ButtonISR_accept)
qed

definition rested :: "uint32 \<Rightarrow> button_state" where
  \<comment> \<open>a released button, no press pending, no timer set\<close>
  "rested t = \<lparr>edges = \<lparr>lastFall = t, lastRise = t, lastEdge = GPIO_PIN_RESET\<rparr>, pending_press = None, timers = tasks_init\<rparr>"

section \<open>Properties\<close>

text \<open>
  C38. A press of a rested button, from any time on and across the wrap-around of the
  millisecond time, is reported when the button is released: a single press up to 1.5 s, a long press from 2.001 to
  8 s, nothing otherwise.
\<close>
theorem press_classified:
  assumes "lastEdge (edges b) = GPIO_PIN_RESET" "steady 100 t (edges b)" "100 < hold" "100 < t + hold - lastFall (edges b)"
  shows "snd (button_run True [(GPIO_PIN_SET, t), (GPIO_PIN_RESET, t + hold)] b) =
    [None, if hold \<le> 1500 then Some 1 else if 2001 \<le> hold \<and> hold \<le> 8000 then Some 3 else None]"
  unfolding rise_then_fall [OF assms] by (simp add: press_gesture_def)

theorem press_classified_witness:
  "snd (button_run True [(GPIO_PIN_SET, 0xFFFFFF00), (GPIO_PIN_RESET, 0xFFFFFF00 + 0x800)] (rested 0)) = [None, Some 3]"
  using press_classified [of "rested 0" "0xFFFFFF00" "0x800"] by (simp add: rested_def steady_def)

lemma bounces_are_ignored_facts:
  assumes "list_all (\<lambda>(e, t). t - lastRise (edges b) \<le> 100 \<or> t - lastFall (edges b) \<le> 100) es"
  shows "snd (button_run simple es b) = replicate (length es) None"
    and "lastRise (edges (fst (button_run simple es b))) = lastRise (edges b)"
    and "lastFall (edges (fst (button_run simple es b))) = lastFall (edges b)"
  using bounces_ignored [OF assms, of simple] by auto

text \<open>
  Whatever edges follow within 100 ms of a recorded one, no gesture comes of them and the recorded
  times stay as they are.
\<close>
theorem bounces_are_ignored:
  assumes "list_all (\<lambda>(e, t). t - lastRise (edges b) \<le> 100 \<or> t - lastFall (edges b) \<le> 100) es"
  shows "snd (button_run simple es b) = replicate (length es) None \<and>
    lastRise (edges (fst (button_run simple es b))) = lastRise (edges b) \<and>
    lastFall (edges (fst (button_run simple es b))) = lastFall (edges b)"
  using bounces_are_ignored_facts [OF assms, of simple] by blast

theorem bounces_are_ignored_witness:
  "snd (button_run False [(GPIO_PIN_SET, 1030), (GPIO_PIN_RESET, 1050)] (rested 1000)) = [None, None]"
  using bounces_are_ignored [of "rested 1000" "[(GPIO_PIN_SET, 1030), (GPIO_PIN_RESET, 1050)]" False]
  by (simp add: rested_def)

lemma double_press_example:
  \<comment> \<open>without \<open>SIMPLE_TWO_GESTURE_MODE\<close> two short presses are one double press, and the deferred single press is cancelled\<close>
  "let (b, gs) = button_run False [(GPIO_PIN_SET, 1000), (GPIO_PIN_RESET, 1300), (GPIO_PIN_SET, 1600), (GPIO_PIN_RESET, 1900)] (rested 0)
   in gs = [None, None, None, Some 2] \<and> pending_press b = None \<and> tasks_has_pending (timers b) = 0"
  by code_simp

end
