(* ===== verification/Rtc_Wakeup.thy ===== *)
theory Rtc_Wakeup
  imports Firmware_Prelude
begin

text \<open>
  Time and wake-up of \<^verbatim>\<open>src/Src/hardware.c\<close>: the seconds and milliseconds computed from the calendar of
  the real-time clock (\<open>HW_RTCGetSTime\<close>, \<open>HW_RTCGetMsTime\<close>), the deadlines the device sleeps for
  (\<open>PrepareWakeup\<close>) and the programming of the wake-up timer (\<open>HW_RTCWUTSet\<close>). The registers of the clock
  are the record \<open>rtc_regs\<close>; \<open>mktime\<close> is that of the C library in UTC, with a 64 bit \<open>time_t\<close>.
\<close>

section \<open>Calendar time\<close>

record rtc_regs =
  rtc_hours :: uint8
  rtc_minutes :: uint8
  rtc_seconds :: uint8
  rtc_date :: uint8
  rtc_month :: uint8
  rtc_year :: uint8
  SubSeconds :: uint32
  SecondFraction :: uint32

definition leap_year :: "nat \<Rightarrow> bool" where
  "leap_year y \<longleftrightarrow> y mod 4 = 0 \<and> (y mod 100 \<noteq> 0 \<or> y mod 400 = 0)"

definition month_lengths :: "bool \<Rightarrow> nat list" where
  "month_lengths leap = [31, if leap then 29 else 28, 31, 30, 31, 30, 31, 31, 30, 31, 30, 31]"

fun days_before_year :: "nat \<Rightarrow> nat" where
  \<comment> \<open>from 1970\<close>
  "days_before_year 0 = 0"
| "days_before_year (Suc n) = days_before_year n + (if leap_year (1970 + n) then 366 else 365)"

definition mktime :: "int \<Rightarrow> int \<Rightarrow> int \<Rightarrow> int \<Rightarrow> nat \<Rightarrow> nat \<Rightarrow> int" where
  \<comment> \<open>second, minute, hour, day of the month, months since January, years since 1970; a day beyond the
     end of the month counts into the next\<close>
  "mktime s mi h d mon y =
    (((int (days_before_year y + sum_list (take mon (month_lengths (leap_year (1970 + y))))) + d - 1) * 24 + h) * 60 + mi) * 60 + s"

definition rtc_mktime :: "rtc_regs \<Rightarrow> int" where
  "rtc_mktime t = mktime (uint (rtc_seconds t)) (uint (rtc_minutes t)) (uint (rtc_hours t)) (uint (rtc_date t))
     (unat (rtc_month t) - 1) (unat (rtc_year t))"

definition HW_RTCGetSTime :: "rtc_regs \<Rightarrow> uint32" where
  "HW_RTCGetSTime t = word_of_int (rtc_mktime t)"

definition HW_RTCGetMsTime :: "rtc_regs \<Rightarrow> uint32" where
  "HW_RTCGetMsTime t = word_of_int (rtc_mktime t * 1000) +
     (SecondFraction t - SubSeconds t) * 1000 div (SecondFraction t + 1)"

definition HW_RTCGetNsTime :: "rtc_regs \<Rightarrow> uint64" where
  \<comment> \<open>an \<open>int64_t\<close>\<close>
  "HW_RTCGetNsTime t = word_of_int (rtc_mktime t * 1000 * 1000 * 1000) +
     ucast (SecondFraction t - SubSeconds t) * 1000 * 1000 * 1000 div (ucast (SecondFraction t + 1))"

section \<open>The deadlines\<close>

datatype WakeUpReason = WAKEUP_LRW_NONE | WAKEUP_LRW_SCHEDMSG | WAKEUP_LRW_DUTYCYCLE | WAKEUP_BSEC_SAMPLE

record WakeUpHandler =
  wakeup_reason :: WakeUpReason
  schedmsg_due :: uint32
  dutycycle_due :: uint32
  bsec_due :: uint32

definition due_of :: "uint32 \<Rightarrow> uint32 \<Rightarrow> uint32" where
  "due_of now duration = (if duration \<noteq> 0 then now + duration else 0)"

fun set_due :: "WakeUpReason \<Rightarrow> uint32 \<Rightarrow> WakeUpHandler \<Rightarrow> WakeUpHandler" where
  "set_due WAKEUP_LRW_NONE due w = w\<lparr>dutycycle_due := 0, schedmsg_due := 0, bsec_due := 0\<rparr>"
| "set_due WAKEUP_LRW_DUTYCYCLE due w = w\<lparr>dutycycle_due := due\<rparr>"
| "set_due WAKEUP_LRW_SCHEDMSG due w = w\<lparr>schedmsg_due := due\<rparr>"
| "set_due WAKEUP_BSEC_SAMPLE due w = w\<lparr>bsec_due := due\<rparr>"

definition fix_overdue :: "uint32 \<Rightarrow> uint32 \<Rightarrow> uint32" where
  "fix_overdue now due = (if due \<noteq> 0 \<and> due < now then now else due)"

definition sooner :: "WakeUpReason \<Rightarrow> uint32 \<Rightarrow> WakeUpReason \<times> uint32 \<Rightarrow> WakeUpReason \<times> uint32" where
  "sooner r due best = (if due \<noteq> 0 \<and> (snd best = 0 \<or> due < snd best) then (r, due) else best)"

definition PrepareWakeup :: "WakeUpReason \<Rightarrow> uint32 \<Rightarrow> uint32 \<Rightarrow> WakeUpHandler \<Rightarrow> WakeUpHandler \<times> uint32 option" where
  \<comment> \<open>\<open>Some\<close> is the argument of \<open>HW_RTCWUTSet\<close>, \<open>None\<close> deactivates the timer\<close>
  "PrepareWakeup r duration now w0 =
    (let w1 = set_due r (due_of now duration) w0;
         w2 = w1\<lparr>dutycycle_due := fix_overdue now (dutycycle_due w1), schedmsg_due := fix_overdue now (schedmsg_due w1),
                 bsec_due := fix_overdue now (bsec_due w1)\<rparr>;
         best = sooner WAKEUP_BSEC_SAMPLE (bsec_due w2) (sooner WAKEUP_LRW_SCHEDMSG (schedmsg_due w2)
                  (sooner WAKEUP_LRW_DUTYCYCLE (dutycycle_due w2) (WAKEUP_LRW_NONE, 0)))
     in (w2\<lparr>wakeup_reason := fst best\<rparr>, if snd best \<noteq> 0 then Some (snd best - now) else None))"

definition HW_RTCWUTSet :: "uint32 \<Rightarrow> uint32 \<times> bool" where
  \<comment> \<open>the counter and whether the 17 bit clock is chosen\<close>
  "HW_RTCWUTSet seconds0 = (let seconds = (if seconds0 \<noteq> 0 then seconds0 else 1) in (seconds - 1, \<not> seconds - 1 \<le> 0xFFFF))"

section \<open>What the deadlines mean\<close>

definition deadlines :: "WakeUpHandler \<Rightarrow> uint32 set" where
  "deadlines w = {schedmsg_due w, dutycycle_due w, bsec_due w} - {0}"

lemma finite_deadlines [simp]: "finite (deadlines w)"
  by (simp add: deadlines_def)

fun due_for :: "WakeUpReason \<Rightarrow> WakeUpHandler \<Rightarrow> uint32" where
  "due_for WAKEUP_LRW_NONE w = 0"
| "due_for WAKEUP_LRW_SCHEDMSG w = schedmsg_due w"
| "due_for WAKEUP_LRW_DUTYCYCLE w = dutycycle_due w"
| "due_for WAKEUP_BSEC_SAMPLE w = bsec_due w"

lemma fix_overdue_ge: "fix_overdue now d \<noteq> 0 \<Longrightarrow> now \<le> fix_overdue now d"
  by (auto simp: fix_overdue_def not_less)

lemma Min_deadlines:
  "d \<in> deadlines w \<Longrightarrow> (\<And>x. x \<in> deadlines w \<Longrightarrow> d \<le> x) \<Longrightarrow> Min (deadlines w) = d"
  by (rule Min_eqI) auto

lemma PrepareWakeup_timer:
  fixes w :: WakeUpHandler and r :: WakeUpReason and duration now d :: uint32
  defines "p \<equiv> PrepareWakeup r duration now w"
  shows "snd p = (if deadlines (fst p) = {} then None else Some (Min (deadlines (fst p)) - now))"
    "deadlines (fst p) = {} \<Longrightarrow> wakeup_reason (fst p) = WAKEUP_LRW_NONE"
    "deadlines (fst p) \<noteq> {} \<Longrightarrow> due_for (wakeup_reason (fst p)) (fst p) = Min (deadlines (fst p))"
    "d \<in> deadlines (fst p) \<Longrightarrow> now \<le> d"
proof -
  define w2 where "w2 = fst p"
  obtain a b c where abc: "dutycycle_due w2 = a" "schedmsg_due w2 = b" "bsec_due w2 = c" by blast
  have dl: "deadlines w2 = {b, a, c} - {0}" by (simp add: deadlines_def abc)
  define best where "best = sooner WAKEUP_BSEC_SAMPLE c (sooner WAKEUP_LRW_SCHEDMSG b (sooner WAKEUP_LRW_DUTYCYCLE a (WAKEUP_LRW_NONE, 0)))"
  have p: "snd p = (if snd best \<noteq> 0 then Some (snd best - now) else None)" "wakeup_reason w2 = fst best"
    using abc by (simp_all add: p_def PrepareWakeup_def Let_def w2_def best_def)
  have none: "snd best = 0 \<longleftrightarrow> a = 0 \<and> b = 0 \<and> c = 0"
    and low: "snd best \<noteq> 0 \<Longrightarrow> snd best \<in> {b, a, c} - {0} \<and> (\<forall>x \<in> {b, a, c} - {0}. snd best \<le> x)"
    and due: "due_for (fst best) w2 = snd best"
    using abc by (auto simp: best_def sooner_def not_less)
  have min: "snd best \<noteq> 0 \<Longrightarrow> Min (deadlines w2) = snd best"
    using low unfolding dl by (intro Min_deadlines [of _ w2, unfolded dl]) auto
  have empty: "deadlines w2 = {} \<longleftrightarrow> snd best = 0" using none unfolding dl by auto
  show "snd p = (if deadlines (fst p) = {} then None else Some (Min (deadlines (fst p)) - now))"
    using p(1) min empty by (simp add: w2_def)
  show "deadlines (fst p) = {} \<Longrightarrow> wakeup_reason (fst p) = WAKEUP_LRW_NONE"
    using empty none p(2) by (simp add: w2_def best_def sooner_def)
  show "deadlines (fst p) \<noteq> {} \<Longrightarrow> due_for (wakeup_reason (fst p)) (fst p) = Min (deadlines (fst p))"
    using p(2) min empty due by (simp add: w2_def)
  assume "d \<in> deadlines (fst p)"
  then show "now \<le> d" by (auto simp: p_def PrepareWakeup_def Let_def deadlines_def fix_overdue_ge)
qed

lemma PrepareWakeup_due:
  assumes "r' \<noteq> WAKEUP_LRW_NONE"
  shows "due_for r' (fst (PrepareWakeup r duration now w)) =
    fix_overdue now (if r = r' then due_of now duration else if r = WAKEUP_LRW_NONE then 0 else due_for r' w)"
  using assms by (cases r; cases r') (simp_all add: PrepareWakeup_def Let_def fix_overdue_def)

section \<open>The clock\<close>

text \<open>The calendar of the real-time clock counts a leap year whenever its two digit year is divisible by four.\<close>

definition rtc_month_days :: "rtc_regs \<Rightarrow> nat" where
  "rtc_month_days t = month_lengths (unat (rtc_year t) mod 4 = 0) ! (unat (rtc_month t) - 1)"

definition rtc_ok :: "rtc_regs \<Rightarrow> bool" where
  "rtc_ok t \<longleftrightarrow> rtc_seconds t < 60 \<and> rtc_minutes t < 60 \<and> rtc_hours t < 24 \<and> 0 < rtc_month t \<and> rtc_month t \<le> 12 \<and>
     0 < rtc_date t \<and> unat (rtc_date t) \<le> rtc_month_days t \<and> rtc_year t < 100"

definition rtc_next_day :: "rtc_regs \<Rightarrow> rtc_regs" where
  "rtc_next_day t =
    (if unat (rtc_date t) < rtc_month_days t then t\<lparr>rtc_date := rtc_date t + 1\<rparr>
     else if rtc_month t < 12 then t\<lparr>rtc_date := 1, rtc_month := rtc_month t + 1\<rparr>
     else t\<lparr>rtc_date := 1, rtc_month := 1, rtc_year := (if rtc_year t < 99 then rtc_year t + 1 else 0)\<rparr>)"

definition rtc_next :: "rtc_regs \<Rightarrow> rtc_regs" where
  \<comment> \<open>one second later\<close>
  "rtc_next t =
    (if rtc_seconds t < 59 then t\<lparr>rtc_seconds := rtc_seconds t + 1\<rparr>
     else if rtc_minutes t < 59 then t\<lparr>rtc_seconds := 0, rtc_minutes := rtc_minutes t + 1\<rparr>
     else if rtc_hours t < 23 then t\<lparr>rtc_seconds := 0, rtc_minutes := 0, rtc_hours := rtc_hours t + 1\<rparr>
     else rtc_next_day (t\<lparr>rtc_seconds := 0, rtc_minutes := 0, rtc_hours := 0\<rparr>))"

definition last_of_february :: "rtc_regs \<Rightarrow> bool" where
  "last_of_february t \<longleftrightarrow> rtc_month t = 2 \<and> unat (rtc_date t) = rtc_month_days t \<and> rtc_hours t = 23 \<and> rtc_minutes t = 59 \<and> rtc_seconds t = 59"

definition leap_skew :: "rtc_regs \<Rightarrow> int" where
  \<comment> \<open>what the two calendars disagree by\<close>
  "leap_skew t = (if last_of_february t then (if unat (rtc_year t) mod 4 = 0 then - 86400
     else if unat (rtc_year t) mod 4 = 2 then 86400 else 0) else 0)"

lemma leap_year_1970:
  assumes "y < 100"
  shows "leap_year (1970 + y) \<longleftrightarrow> y mod 4 = 2"
proof -
  have four: "(1970 + y) mod 4 = 0 \<longleftrightarrow> y mod 4 = 2" by presburger
  have "1970 + y = (70 + y) + 19 * 100" by simp
  then have "(1970 + y) mod 100 = (70 + y) mod 100" by (simp only: mod_mult_self1)
  also have "\<dots> = (if y < 30 then 70 + y else y - 30)" using assms by (simp add: le_mod_geq)
  finally have "(1970 + y) mod 100 = 0 \<longleftrightarrow> y = 30" by auto
  then show ?thesis unfolding leap_year_def four by auto
qed

lemma uint_Suc: "x < y \<Longrightarrow> uint (x + 1) = uint x + 1" for x :: uint8
  by uint_arith

lemma month_cases: "0 < m \<Longrightarrow> m \<le> 12 \<Longrightarrow> m \<in> {1, 2, 3, 4, 5, 6, 7, 8, 9, 10, 11, 12}" for m :: nat
  by (simp; arith)

lemma days_next_month:
  assumes "m < 12"
  shows "sum_list (take m (month_lengths l)) = sum_list (take (m - 1) (month_lengths l)) + (if m = 0 then 0 else month_lengths l ! (m - 1))"
proof (cases m)
  case (Suc k)
  then have "k < length (month_lengths l)" using assms by (simp add: month_lengths_def)
  then show ?thesis by (simp add: Suc take_Suc_conv_app_nth)
qed simp

definition day_number :: "rtc_regs \<Rightarrow> int" where
  "day_number t = int (days_before_year (unat (rtc_year t)) +
     sum_list (take (unat (rtc_month t) - 1) (month_lengths (leap_year (1970 + unat (rtc_year t)))))) + uint (rtc_date t)"

lemma rtc_mktime_day:
  "rtc_mktime t = (day_number t - 1) * 86400 + uint (rtc_hours t) * 3600 + uint (rtc_minutes t) * 60 + uint (rtc_seconds t)"
  by (simp add: rtc_mktime_def mktime_def day_number_def algebra_simps)

lemma unat_Suc: "x < y \<Longrightarrow> unat (x + 1) = Suc (unat x)" for x :: uint8
  by unat_arith

lemma next_day_number:
  assumes "rtc_ok t" "\<not> (rtc_year t = 99 \<and> rtc_month t = 12 \<and> rtc_date t = 31)"
  shows "day_number (rtc_next_day t) = day_number t + 1 +
    (if rtc_month t = 2 \<and> unat (rtc_date t) = rtc_month_days t then
       (if unat (rtc_year t) mod 4 = 0 then - 1 else if unat (rtc_year t) mod 4 = 2 then 1 else 0) else 0)"
proof -
  have y: "unat (rtc_year t) < 100" and m: "0 < unat (rtc_month t)" "unat (rtc_month t) \<le> 12"
    and d: "0 < unat (rtc_date t)" "unat (rtc_date t) \<le> rtc_month_days t"
    using assms(1) by (simp_all add: rtc_ok_def word_less_nat_alt word_le_nat_alt)
  let ?cal = "month_lengths (leap_year (1970 + unat (rtc_year t)))"
  have two: "rtc_month t = 2 \<longleftrightarrow> unat (rtc_month t) = 2" by (simp add: word_unat_eq_iff)
  have len: "int (rtc_month_days t) = int (?cal ! (unat (rtc_month t) - 1)) +
    (if rtc_month t = 2 then (if unat (rtc_year t) mod 4 = 0 then 1 else if unat (rtc_year t) mod 4 = 2 then - 1 else 0) else 0)"
    using month_cases [OF m] unfolding two rtc_month_days_def leap_year_1970 [OF y] by (auto simp: month_lengths_def)
  consider (same) "unat (rtc_date t) < rtc_month_days t"
    | (month) "unat (rtc_date t) = rtc_month_days t" "rtc_month t < 12"
    | (year) "unat (rtc_date t) = rtc_month_days t" "\<not> rtc_month t < 12" "rtc_year t < 99"
    | (wrap) "unat (rtc_date t) = rtc_month_days t" "\<not> rtc_month t < 12" "\<not> rtc_year t < 99"
    using d by linarith
  then show ?thesis
  proof cases
    case same
    have "unat (rtc_date t) < 31" using same month_cases [OF m] by (auto simp: rtc_month_days_def month_lengths_def split: if_splits)
    then have "rtc_date t < 31" by (simp add: word_less_nat_alt)
    from uint_Suc [OF this] same show ?thesis by (simp add: rtc_next_day_def day_number_def)
  next
    case month
    then have "unat (rtc_month t) < 12" by (simp add: word_less_nat_alt)
    from days_next_month [OF this] m month len show ?thesis
      by (simp add: rtc_next_day_def day_number_def unat_Suc [OF month(2)] uint_nat)
  next
    case year
    then have "unat (rtc_month t) = 12" using m by (simp add: word_less_nat_alt)
    moreover from this have "unat (rtc_date t) = 31" using year(1) by (simp add: rtc_month_days_def month_lengths_def)
    moreover have "\<not> rtc_month t = 2" using year(2) by auto
    ultimately show ?thesis using year
      by (simp add: rtc_next_day_def day_number_def unat_Suc [OF year(3)] uint_nat month_lengths_def)
  next
    case wrap
    then have "unat (rtc_month t) = 12" using m by (simp add: word_less_nat_alt)
    moreover from this have "unat (rtc_date t) = 31" using wrap(1) by (simp add: rtc_month_days_def month_lengths_def)
    moreover have "unat (rtc_year t) = 99" using wrap(3) y by (simp add: word_less_nat_alt)
    ultimately show ?thesis using assms(2) by (simp add: word_unat_eq_iff)
  qed
qed

lemma rtc_step:
  assumes "rtc_ok t" "\<not> (rtc_year t = 99 \<and> rtc_month t = 12 \<and> rtc_date t = 31)"
  shows "rtc_mktime (rtc_next t) = rtc_mktime t + 1 + leap_skew t"
proof -
  have s: "\<not> x < 59 \<Longrightarrow> x < 60 \<Longrightarrow> x = 59" "\<not> x < 23 \<Longrightarrow> x < 24 \<Longrightarrow> x = 23" for x :: uint8 by unat_arith+
  have day: "day_number (t\<lparr>rtc_seconds := a, rtc_minutes := b, rtc_hours := c\<rparr>) = day_number t" for a b c
    by (simp add: day_number_def)
  show ?thesis
  proof (cases "rtc_seconds t < 59 \<or> rtc_minutes t < 59 \<or> rtc_hours t < 23")
    case True
    then have "leap_skew t = 0" by (auto simp: last_of_february_def leap_skew_def)
    moreover have "\<not> rtc_seconds t < 59 \<Longrightarrow> rtc_seconds t = 59" "\<not> rtc_minutes t < 59 \<Longrightarrow> rtc_minutes t = 59"
      using s assms(1) by (auto simp: rtc_ok_def)
    ultimately show ?thesis using True
      by (auto simp: rtc_next_def rtc_mktime_day day_number_def uint_Suc)
  next
    case False
    then have e: "rtc_seconds t = 59" "rtc_minutes t = 59" "rtc_hours t = 23" using s assms(1) by (auto simp: rtc_ok_def)
    let ?t = "t\<lparr>rtc_seconds := 0, rtc_minutes := 0, rtc_hours := 0\<rparr>"
    have ok: "rtc_ok ?t" "rtc_month_days ?t = rtc_month_days t" using assms(1) by (auto simp: rtc_ok_def rtc_month_days_def)
    have z: "rtc_seconds (rtc_next_day ?t) = 0" "rtc_minutes (rtc_next_day ?t) = 0" "rtc_hours (rtc_next_day ?t) = 0"
      by (simp_all add: rtc_next_day_def)
    have "day_number (rtc_next_day ?t) = day_number t + 1 +
      (if rtc_month t = 2 \<and> unat (rtc_date t) = rtc_month_days t then
         (if unat (rtc_year t) mod 4 = 0 then - 1 else if unat (rtc_year t) mod 4 = 2 then 1 else 0) else 0)"
      using next_day_number [OF ok(1)] assms(2) by (simp add: ok(2) day_number_def)
    then show ?thesis using e by (simp add: rtc_next_def rtc_mktime_day z leap_skew_def last_of_february_def)
  qed
qed

section \<open>The wake-up timer\<close>

definition wut_period :: "uint32 \<times> bool \<Rightarrow> nat" where
  \<comment> \<open>the documented timer: a 16 bit counter, with \<open>2 ^ 16\<close> added when the 17 bit clock is chosen, and one tick more\<close>
  "wut_period p = unat (fst p) mod 65536 + (if snd p then 65536 else 0) + 1"

lemma wut_period_set: "wut_period (HW_RTCWUTSet s) = max 1 (unat s) \<longleftrightarrow> unat s \<le> 131072"
proof -
  have pred: "unat (x - 1) = unat x - 1" if "x \<noteq> 0" for x :: uint32 using that by unat_arith
  have k: "k mod 65536 + (if k \<le> 65535 then 0 else 65536) + 1 = max 1 (k + 1) \<longleftrightarrow> k + 1 \<le> 131072" for k :: nat
  proof -
    consider "k < 65536" | "65536 \<le> k" "k < 131072" | "131072 \<le> k" by linarith
    then show ?thesis
    proof cases
      case 3
      have "k mod 65536 < 65536" by simp
      then have "k mod 65536 + 65536 + 1 \<le> 131072" by linarith
      with 3 show ?thesis by simp
    qed (simp_all add: le_mod_geq)
  qed
  show ?thesis
  proof (cases "s = 0")
    case False
    then have "unat s \<noteq> 0" by (simp add: unat_eq_zero)
    with False k [of "unat s - 1"] show ?thesis
      by (cases "unat s - 1 \<le> 65535") (simp_all add: HW_RTCWUTSet_def wut_period_def word_le_nat_alt pred)
  qed (simp add: HW_RTCWUTSet_def wut_period_def)
qed

section \<open>Properties\<close>

text \<open>
  C18. \<open>PrepareWakeup\<close> implements a set of deadlines: it replaces the deadline it is called
  for (or drops all), moves those that have passed to the present, and sets the timer to the soonest,
  with its reason; without any deadline the timer is switched off.
\<close>
theorem wakeup_at_soonest_deadline:
  "let (w', timer) = PrepareWakeup r duration now w
   in timer = (if deadlines w' = {} then None else Some (Min (deadlines w') - now)) \<and>
      (deadlines w' = {} \<or> due_for (wakeup_reason w') w' = Min (deadlines w')) \<and>
      list_all (\<lambda>r'. due_for r' w' = fix_overdue now
          (if r = r' then due_of now duration else if r = WAKEUP_LRW_NONE then 0 else due_for r' w))
        [WAKEUP_LRW_SCHEDMSG, WAKEUP_LRW_DUTYCYCLE, WAKEUP_BSEC_SAMPLE]"
proof (cases "PrepareWakeup r duration now w")
  case (Pair w' timer)
  then have e: "fst (PrepareWakeup r duration now w) = w'" "snd (PrepareWakeup r duration now w) = timer" by simp_all
  note timer = PrepareWakeup_timer [where r = r and duration = duration and now = now and w = w, unfolded e] and due = PrepareWakeup_due [of _ r duration now w, unfolded e]
  have "deadlines w' = {} \<or> due_for (wakeup_reason w') w' = Min (deadlines w')" using timer(3) by blast
  moreover have "list_all (\<lambda>r'. due_for r' w' = fix_overdue now
      (if r = r' then due_of now duration else if r = WAKEUP_LRW_NONE then 0 else due_for r' w))
    [WAKEUP_LRW_SCHEDMSG, WAKEUP_LRW_DUTYCYCLE, WAKEUP_BSEC_SAMPLE]"
    unfolding list.pred_inject by (intro conjI due TrueI) simp_all
  ultimately show ?thesis unfolding Pair Let_def prod.case using timer(1) by blast
qed

text \<open>
  The timer fires after exactly the requested number of seconds (at least one) if and only
  if that is at most 131072, about 36 hours; the send interval is a 32 bit number of seconds.
\<close>
theorem wakeup_timer_range:
  "wut_period (HW_RTCWUTSet seconds) = max 1 (unat seconds) \<longleftrightarrow> unat seconds \<le> 131072"
  by (rule wut_period_set)

text \<open>
  While the clock advances by one second the time in seconds does too, except at the end of a
  February: in the years that are leap years for the clock but not for \<open>mktime\<close>, which starts
  at 1970, the time falls back by a day, and in those that are leap years for \<open>mktime\<close> only it skips a day.
\<close>
theorem rtc_seconds_follow_the_clock:
  assumes "rtc_ok t" "\<not> (rtc_year t = 99 \<and> rtc_month t = 12 \<and> rtc_date t = 31)"
  shows "HW_RTCGetSTime (rtc_next t) = HW_RTCGetSTime t + 1 + of_int (leap_skew t)"
  by (simp add: HW_RTCGetSTime_def rtc_step [OF assms])

definition leap_day :: rtc_regs where
  \<comment> \<open>the last second of the first leap day after a cold start, 29 February of year 0\<close>
  "leap_day = \<lparr>rtc_hours = 23, rtc_minutes = 59, rtc_seconds = 59, rtc_date = 29, rtc_month = 2, rtc_year = 0,
     SubSeconds = 0, SecondFraction = 255\<rparr>"

theorem rtc_seconds_follow_the_clock_witness:
  "HW_RTCGetSTime (rtc_next leap_day) = HW_RTCGetSTime leap_day - 86399"
proof -
  have "rtc_ok leap_day" "leap_skew leap_day = - 86400" by code_simp+
  with rtc_seconds_follow_the_clock [of leap_day] show ?thesis by (simp add: leap_day_def)
qed

end
