(* ===== verification/Main_Loop.thy ===== *)
theory Main_Loop
  imports Uplink_Delivery Rtc_Wakeup Eeprom_Store Sensors
begin

text \<open>
  The event loop of \<^verbatim>\<open>src/Src/main.c\<close>, which ties the components together: changes of the configuration
  are applied to the sensors and the stack and stored, the network is joined, queued messages are sent, and the device
  sleeps when nothing is left to do; the wake-up interrupt queues the scheduled message. What lies outside
  (the stack's own work, activity of NFC and of timed tasks, the clock) is the record \<open>loop_env\<close>.
\<close>

section \<open>State\<close>

record device =
  lrw_st :: lrw_state
  wuh :: WakeUpHandler
  wake_timer :: "uint32 option"        \<comment> \<open>the seconds \<open>HW_RTCWUTSet\<close> was called with\<close>
  eeprom :: memory
  joinTrials :: uint32
  sfh :: SFH7776_Handle
  sensor_ops :: "sensor_op list"       \<comment> \<open>the accesses to the sensors so far\<close>

record loop_env =
  time_now :: uint32
  mac_init :: "uint8 \<Rightarrow> mac \<Rightarrow> mac"
  unique_id :: bytes
  eeprom_works :: "nat \<Rightarrow> bool"
  save_buffer :: bytes                 \<comment> \<open>what the stack buffer of \<open>EEPROM_Save\<close> holds\<close>
  sensor_bus :: bus
  sfh_part :: uint8
  radio :: radio_env
  mlme_request :: "join_req \<Rightarrow> mac \<Rightarrow> mac \<times> uint32"
  stack_busy :: "mac \<Rightarrow> bool"
  settle :: "lrw_state \<Rightarrow> lrw_state"    \<comment> \<open>calling \<open>LRW_Process\<close> while \<open>LRW_IsBusy\<close>\<close>
  tasks_pending :: bool
  nfc_active :: bool
  bsec_seconds :: "int option"         \<comment> \<open>until the next BSEC sample, in builds with BSEC\<close>

definition cfg :: "device \<Rightarrow> DeviceConfig" where
  "cfg d = dev_config (lrw_st d)"

definition set_wakeup :: "loop_env \<Rightarrow> WakeUpReason \<Rightarrow> uint32 \<Rightarrow> device \<Rightarrow> device" where
  \<comment> \<open>a call of \<open>PrepareWakeup\<close>\<close>
  "set_wakeup env r duration d =
    (case PrepareWakeup r duration (time_now env) (wuh d) of (w, t) \<Rightarrow> d\<lparr>wuh := w, wake_timer := t\<rparr>)"

section \<open>Changes of the configuration\<close>

type_synonym sensor_state = "DeviceConfig \<times> SFH7776_Handle"

text \<open>STX builds; an unused sensor gets thresholds that never trigger.\<close>

definition set_up_bma400 :: "bus \<Rightarrow> sensor_state \<Rightarrow> (sensor_state \<times> sensor_op list) option" where
  "set_up_bma400 bus s =
    (let c = (if use_bma400 (useSensor (fst s)) then fst s else (fst s)\<lparr>bma400_config := 0xF, bma400_threshold := 3907\<rparr>)
     in if \<not> bma400 (changed (fst s)) then Some (s, [])
        else map_option (\<lambda>r. ((c, snd s), fst r)) (BMA400_Init bus (bma400_config c) (ucast (bma400_threshold c))))"

definition set_up_sfh7776 :: "bus \<Rightarrow> uint8 \<Rightarrow> sensor_state \<Rightarrow> (sensor_state \<times> sensor_op list) option" where
  "set_up_sfh7776 bus part s =
    (let c = (if use_sfh7776 (useSensor (fst s)) then fst s
              else (fst s)\<lparr>sfh7776_threshold_upper := 0xFFFF, sfh7776_threshold_lower := 0\<rparr>);
         r = SFH7776_Init bus part (sfh7776_threshold_upper c) (sfh7776_threshold_lower c) (c, snd s)
     in Some (if \<not> sfh7776 (changed (fst s)) then (s, []) else (fst r, fst (snd r))))"

definition set_up_hdc2080 :: "bus \<Rightarrow> sensor_state \<Rightarrow> (sensor_state \<times> sensor_op list) option" where
  "set_up_hdc2080 bus s =
    (let c = (if use_hdc2080 (useSensor (fst s)) then fst s
              else (fst s)\<lparr>hdc2080_mode := HDC2080_TEMPERATURE_HIGH, hdc2080_threshold := 12499\<rparr>)
     in if \<not> hdc2080 (changed (fst s)) then Some (s, [])
        else map_option (\<lambda>r. ((c, snd s), fst r)) (HDC2080_Init bus (hdc2080_mode c) (hdc2080_threshold c)))"

definition configure_sensors :: "bus \<Rightarrow> uint8 \<Rightarrow> sensor_state \<Rightarrow> (sensor_state \<times> sensor_op list) option" where
  "configure_sensors bus part s =
    Option.bind (set_up_bma400 bus s) (\<lambda>(s1, l1).
    Option.bind (set_up_sfh7776 bus part s1) (\<lambda>(s2, l2).
    map_option (\<lambda>(s3, l3). (s3, l1 @ l2 @ l3)) (set_up_hdc2080 bus s2)))"

definition sync_and_store :: "family \<Rightarrow> loop_env \<Rightarrow> device \<Rightarrow> device option" where
  \<comment> \<open>the part for all families, after the sensors\<close>
  "sync_and_store fam env d =
    (let ch = changed (cfg d);
         (c, m) = (if lrw ch then LRW_FromDevCfg (mac_init env) (unique_id env) (cfg d, nvm (lrw_st d)) else (cfg d, nvm (lrw_st d)));
         d1 = d\<lparr>lrw_st := (lrw_st d)\<lparr>dev_config := c, nvm := m\<rparr>\<rparr>;
         d2 = (if lrw ch \<or> resched ch
               then set_wakeup env WAKEUP_LRW_SCHEDMSG (if LRW_IsJoined m then sendInterval c else 0) d1 else d1)
     in map_option (\<lambda>mem. d2\<lparr>eeprom := mem, lrw_st := (lrw_st d2)\<lparr>dev_config := c\<lparr>changed := no_changes\<rparr>\<rparr>\<rparr>)
          (EEPROM_Save fam (eeprom_works env) (save_buffer env) c (eeprom d2)))"

definition set_up_sensors :: "loop_env \<Rightarrow> device \<Rightarrow> device option" where
  "set_up_sensors env d =
    map_option (\<lambda>((c, h), ops). d\<lparr>lrw_st := (lrw_st d)\<lparr>dev_config := c\<rparr>, sfh := h, sensor_ops := sensor_ops d @ ops\<rparr>)
      (configure_sensors (sensor_bus env) (sfh_part env) (cfg d, sfh d))"

definition apply_changes :: "family \<Rightarrow> loop_env \<Rightarrow> device \<Rightarrow> device option" where
  "apply_changes fam env d =
    (if \<not> any (changed (cfg d)) then Some d
     else Option.bind (if fam = STX then set_up_sensors env d else Some d) (sync_and_store fam env))"

definition LRW_SaveNvm :: "family \<Rightarrow> loop_env \<Rightarrow> device \<Rightarrow> device option" where
  \<comment> \<open>called back by the stack when it has changed its parameters; its own storage is left out\<close>
  "LRW_SaveNvm fam env d =
    (if lrw (changed (cfg d)) then Some d
     else Option.bind (LRW_ToDevCfg (cfg d, nvm (lrw_st d))) (\<lambda>(c, m).
       map_option (\<lambda>mem. d\<lparr>eeprom := mem, lrw_st := (lrw_st d)\<lparr>dev_config := c\<rparr>\<rparr>)
         (EEPROM_Save fam (eeprom_works env) (save_buffer env) c (eeprom d))))"

section \<open>Joining and sending\<close>

definition join_or_send :: "loop_env \<Rightarrow> device \<Rightarrow> device" where
  "join_or_send env d =
    (if \<not> LRW_IsJoined (nvm (lrw_st d)) \<and> appKey (cfg d) \<noteq> replicate 16 0 then
       let s = LRW_Join (mlme_request env) (lrw_st d)
       in d\<lparr>lrw_st := s, joinTrials := (if DutyCycleWaitTime s = 0 then joinTrials d + 1 else joinTrials d)\<rparr>
     else if \<not> stack_busy env (nvm (lrw_st d)) \<and> \<not> tasks_pending env then d\<lparr>lrw_st := LRW_Send (radio env) (lrw_st d)\<rparr>
     else d)"

definition check_join :: "loop_env \<Rightarrow> device \<Rightarrow> device" where
  "check_join env d =
    (if DutyCycleWaitTime (lrw_st d) \<noteq> 0 then d
     else if \<not> LRW_IsJoined (nvm (lrw_st d)) then (if joinTrials d = 1 then d\<lparr>joinTrials := 0\<rparr> else d)
     else if joinTrials d > 0 then set_wakeup env WAKEUP_LRW_SCHEDMSG (sendInterval (cfg d)) (d\<lparr>joinTrials := 0\<rparr>)
     else d)"

definition main_Sleep :: "loop_env \<Rightarrow> device \<Rightarrow> device \<times> bool" where
  \<comment> \<open>\<open>Sleep\<close>; the flag says that stop mode is entered\<close>
  "main_Sleep env d =
    (let s = lrw_st d; wait = DutyCycleWaitTime s
     in if tasks_pending env then (d, False)
        else if nfc_active env then (d, False)
        else if stack_busy env (nvm s) then (d, False)
        else if wait < 1000 \<and> joinTrials d \<noteq> 0 then (d, False)
        else if wait < 1000 \<and> LRW_IsJoined (nvm s) \<and> LRW_HasQueue (queue (handle s)) \<noteq> 0 then (d, False)
        else let d1 = (case bsec_seconds env of
                   Some n \<Rightarrow> if n > 0 then set_wakeup env WAKEUP_BSEC_SAMPLE (word_of_int n) d else d
                 | None \<Rightarrow> d)
             in if bsec_seconds env \<noteq> None \<and> bsec_due (wuh d1) = 0 then (d1, False)
                else (if wait > 1000 then set_wakeup env WAKEUP_LRW_DUTYCYCLE (wait div 1000) d1 else d1, True))"

definition main_iteration :: "family \<Rightarrow> loop_env \<Rightarrow> device \<Rightarrow> (device \<times> bool) option" where
  \<comment> \<open>one turn of the loop; the flag says whether the device went to sleep\<close>
  "main_iteration fam env d =
    map_option (\<lambda>d1. let d2 = join_or_send env d1;
                         d3 = (if stack_busy env (nvm (lrw_st d2)) then d2\<lparr>lrw_st := settle env (lrw_st d2)\<rparr> else d2)
                     in main_Sleep env (check_join env d3))
      (apply_changes fam env d)"

section \<open>The wake-up interrupt\<close>

definition end_bsec :: "loop_env \<Rightarrow> device \<Rightarrow> device" where
  "end_bsec env d = (if bsec_due (wuh d) \<noteq> 0 \<and> bsec_due (wuh d) \<le> time_now env
     then set_wakeup env WAKEUP_BSEC_SAMPLE 0 d else d)"

definition wakeup_callback :: "family \<Rightarrow> loop_env \<Rightarrow> measurements \<Rightarrow> device \<Rightarrow> device option" where
  \<comment> \<open>\<open>HAL_RTCEx_WakeUpTimerEventCallback\<close>\<close>
  "wakeup_callback fam env r d0 =
    (let now = time_now env;
         is_due = (\<lambda>due. due \<noteq> 0 \<and> due \<le> now);
         d1 = (if is_due (dutycycle_due (wuh d0)) then set_wakeup env WAKEUP_LRW_DUTYCYCLE 0 d0 else d0)
     in if is_due (schedmsg_due (wuh d1)) then
          map_option (\<lambda>s. end_bsec env ((set_wakeup env WAKEUP_LRW_SCHEDMSG (sendInterval (cfg d1)) d1)\<lparr>lrw_st := s\<rparr>))
            (enqueueToSend fam r SCHEDULED 0 (lrw_st d1))
        else Some (end_bsec env d1))"

section \<open>Lemmas\<close>

lemma set_wakeup_simps [simp]:
  "lrw_st (set_wakeup env r t d) = lrw_st d" "eeprom (set_wakeup env r t d) = eeprom d"
  "joinTrials (set_wakeup env r t d) = joinTrials d" "sensor_ops (set_wakeup env r t d) = sensor_ops d"
  "cfg (set_wakeup env r t d) = cfg d"
  by (simp_all add: set_wakeup_def cfg_def split: prod.split)

lemma wuh_set_wakeup: "wuh (set_wakeup env r t d) = fst (PrepareWakeup r t (time_now env) (wuh d))"
  by (simp add: set_wakeup_def split: prod.split)

lemma timer_set_wakeup: "wake_timer (set_wakeup env r t d) = snd (PrepareWakeup r t (time_now env) (wuh d))"
  by (simp add: set_wakeup_def split: prod.split)

lemma changed_not_stored [simp]:
  "config_storable fam (c\<lparr>changed := x\<rparr>) = config_storable fam c" "humidity_mode (c\<lparr>changed := x\<rparr>) = humidity_mode c"
  "config_image fam (c\<lparr>changed := x\<rparr>) = config_image fam c"
  by (cases fam; simp add: config_storable_def config_wf_def humidity_mode_def config_image_def save_fields_def
      lora_save_fields_def stx_save_fields_def sta_save_fields_def)+

text \<open>What a turn of the loop stores is what it runs with.\<close>

lemma sync_and_store_saves:
  assumes "sync_and_store fam env d = Some d'"
  obtains c mem where "EEPROM_Save fam (eeprom_works env) (save_buffer env) c (eeprom d) = Some mem"
    "eeprom d' = mem" "cfg d' = c\<lparr>changed := no_changes\<rparr>"
  using assms by (auto simp: sync_and_store_def Let_def cfg_def split: prod.splits if_splits)

lemma sync_and_store_stack:
  assumes "sync_and_store fam env d = Some d'" "lrw (changed (cfg d))"
  obtains c where "(c, nvm (lrw_st d')) = LRW_FromDevCfg (mac_init env) (unique_id env) (cfg d, nvm (lrw_st d))"
    "cfg d' = c\<lparr>changed := no_changes\<rparr>"
  using assms by (auto simp: sync_and_store_def Let_def cfg_def split: prod.splits if_splits)

definition same_lrw :: "DeviceConfig \<Rightarrow> DeviceConfig \<Rightarrow> bool" where
  "same_lrw c c' \<longleftrightarrow> lrw_part c' = lrw_part c \<and> resched_part c' = resched_part c \<and> changed c' = changed c"

lemma set_up_keeps:
  "set_up_bma400 bus s = Some (s', ops) \<Longrightarrow> same_lrw (fst s) (fst s')"
  "set_up_sfh7776 bus part s = Some (s', ops) \<Longrightarrow> same_lrw (fst s) (fst s')"
  "set_up_hdc2080 bus s = Some (s', ops) \<Longrightarrow> same_lrw (fst s) (fst s')"
  by (auto simp: set_up_bma400_def set_up_sfh7776_def set_up_hdc2080_def same_lrw_def Let_def SFH7776_Init_config
      lrw_part_def resched_part_def split: if_splits)

lemma configure_sensors_keeps:
  assumes "configure_sensors bus part s = Some (s', ops)"
  shows "lrw_part (fst s') = lrw_part (fst s)" "resched_part (fst s') = resched_part (fst s)" "changed (fst s') = changed (fst s)"
proof -
  have "same_lrw (fst s) (fst s')"
    using assms by (auto simp: configure_sensors_def bind_eq_Some_conv same_lrw_def dest!: set_up_keeps)
  then show "lrw_part (fst s') = lrw_part (fst s)" "resched_part (fst s') = resched_part (fst s)" "changed (fst s') = changed (fst s)"
    by (simp_all add: same_lrw_def)
qed

lemma set_up_sensors_keeps:
  assumes "set_up_sensors env d = Some d'"
  shows "lrw_part (cfg d') = lrw_part (cfg d)" "resched_part (cfg d') = resched_part (cfg d)"
    "changed (cfg d') = changed (cfg d)" "eeprom d' = eeprom d" "nvm (lrw_st d') = nvm (lrw_st d)"
proof -
  from assms obtain c h ops where "configure_sensors (sensor_bus env) (sfh_part env) (cfg d, sfh d) = Some ((c, h), ops)"
      "d' = d\<lparr>lrw_st := (lrw_st d)\<lparr>dev_config := c\<rparr>, sfh := h, sensor_ops := sensor_ops d @ ops\<rparr>"
    by (auto simp: set_up_sensors_def)
  with configure_sensors_keeps [OF this(1)]
  show "lrw_part (cfg d') = lrw_part (cfg d)" "resched_part (cfg d') = resched_part (cfg d)"
    "changed (cfg d') = changed (cfg d)" "eeprom d' = eeprom d" "nvm (lrw_st d') = nvm (lrw_st d)"
    by (simp_all add: cfg_def)
qed

lemma apply_changes_cases:
  assumes "apply_changes fam env d = Some d'" "any (changed (cfg d))"
  obtains d1 where "sync_and_store fam env d1 = Some d'" "lrw_part (cfg d1) = lrw_part (cfg d)"
    "changed (cfg d1) = changed (cfg d)" "eeprom d1 = eeprom d" "nvm (lrw_st d1) = nvm (lrw_st d)"
proof -
  obtain d1 where d1: "(if fam = STX then set_up_sensors env d else Some d) = Some d1" "sync_and_store fam env d1 = Some d'"
    using assms by (auto simp: apply_changes_def bind_eq_Some_conv)
  with set_up_sensors_keeps [of env d d1] show thesis by (intro that [of d1]) (auto split: if_splits)
qed

lemma apply_changes_saves:
  assumes "apply_changes fam env d = Some d'" "any (changed (cfg d))"
  obtains c mem where "EEPROM_Save fam (eeprom_works env) (save_buffer env) c (eeprom d) = Some mem"
    "eeprom d' = mem" "cfg d' = c\<lparr>changed := no_changes\<rparr>"
  by (rule apply_changes_cases [OF assms], erule sync_and_store_saves) (simp add: that)

lemma apply_changes_stack:
  assumes "apply_changes fam env d = Some d'" "any (changed (cfg d))" "lrw (changed (cfg d))"
  obtains c1 c2 where "(c2, nvm (lrw_st d')) = LRW_FromDevCfg (mac_init env) (unique_id env) (c1, nvm (lrw_st d))"
    "cfg d' = c2\<lparr>changed := no_changes\<rparr>" "lrw_part c1 = lrw_part (cfg d)"
  by (rule apply_changes_cases [OF assms(1,2)], erule sync_and_store_stack) (auto simp: assms(3) that)

lemma timer_bound:
  assumes "d \<in> deadlines (fst (PrepareWakeup r t now w))"
  obtains s where "snd (PrepareWakeup r t now w) = Some s" "s \<le> d - now"
proof -
  let ?w = "fst (PrepareWakeup r t now w)"
  have "Min (deadlines ?w) \<le> d" using assms by (intro Min_le) simp_all
  moreover have "now \<le> Min (deadlines ?w)"
    by (rule PrepareWakeup_timer(4), rule Min_in) (use assms in auto)
  ultimately have "Min (deadlines ?w) - now \<le> d - now" by unat_arith
  moreover have "snd (PrepareWakeup r t now w) = Some (Min (deadlines ?w) - now)"
    using assms PrepareWakeup_timer(1) [of r t now w] by auto
  ultimately show thesis by (rule that [rotated])
qed

section \<open>An example device\<close>

definition env_example :: loop_env where
  "env_example = \<lparr>time_now = 100, mac_init = (\<lambda>r m. m), unique_id = [], eeprom_works = sound, save_buffer = replicate 256 7,
     sensor_bus = (\<lambda>_. True), sfh_part = 9,
     radio = air_example, mlme_request = (\<lambda>req m. (m, 0)), stack_busy = (\<lambda>m. False), settle = (\<lambda>s. s),
     tasks_pending = False, nfc_active = False, bsec_seconds = None\<rparr>"

definition device_example :: "DeviceConfig \<Rightarrow> mac \<Rightarrow> device" where
  "device_example c m = \<lparr>lrw_st = lrw_start c m,
     wuh = \<lparr>wakeup_reason = WAKEUP_LRW_SCHEDMSG, schedmsg_due = 90, dutycycle_due = 0, bsec_due = 0\<rparr>, wake_timer = None,
     eeprom = (\<lambda>_. 0), joinTrials = 0,
     sfh = \<lparr>als_vis = 0, als_ir = 0, als_vis_tl = 0, lux = 0\<rparr>, sensor_ops = []\<rparr>"

definition port_example :: DeviceConfig where
  "port_example = config_example\<lparr>txPort := 9, changed := no_changes\<lparr>any := True, lrw := True\<rparr>\<rparr>"

lemma cfg_example [simp]: "cfg (device_example c m) = c" "nvm (lrw_st (device_example c m)) = m"
  by (simp_all add: cfg_def device_example_def lrw_start_def)

lemma apply_port_example:
  obtains d' where "apply_changes STA env_example (device_example port_example mac_example) = Some d'"
    "cfg d' = port_example\<lparr>changed := no_changes\<rparr>"
proof -
  obtain m2 where sync: "LRW_FromDevCfg (\<lambda>r m. m) [] (port_example, mac_example) = (port_example, m2)"
    by (simp add: LRW_FromDevCfg_idle_sync Let_def with_unique_id_def port_example_def config_example_def DevCfg_default_def)
  have st: "config_storable STA port_example" by code_simp
  have ch: "any (changed port_example)" "lrw (changed port_example)" by (simp_all add: port_example_def)
  show thesis
    by (rule that) (simp_all add: apply_changes_def sync_and_store_def Let_def ch env_example_def sync EEPROM_Save_memory [OF st], simp add: cfg_def)
qed

section \<open>Properties\<close>

lemma changes_are_stored_and_survive_facts:
  assumes "apply_changes fam env d = Some d'" "any (changed (cfg d))" "config_storable fam (cfg d')"
    and "fam = STX \<longrightarrow> \<not> humidity_mode (cfg d')" "eeprom_works env = sound" "length (save_buffer env) = 256"
  shows "changed (cfg d') = no_changes" and "apply_changes fam env' d' = Some d'"
    and "EEPROM_Load fam ok uid stack c0 (eeprom d') = Some (Stop (Loaded ((restored fam (cfg d') c0)\<lparr>changed := all_changes\<rparr>) (eeprom d')))"
proof -
  from apply_changes_saves [OF assms(1,2)] obtain c mem where
    c: "EEPROM_Save fam sound (save_buffer env) c (eeprom d) = Some mem" "eeprom d' = mem" "cfg d' = c\<lparr>changed := no_changes\<rparr>"
    unfolding assms(5) by metis
  then show "changed (cfg d') = no_changes" "apply_changes fam env' d' = Some d'"
    by (simp_all add: apply_changes_def no_changes_def)
  have st: "config_storable fam c" "fam = STX \<longrightarrow> \<not> humidity_mode c" using assms(3,4) c(3) by simp_all
  have "mem = saved_memory (config_image fam c) (eeprom d)"
    using c(1) EEPROM_Save_memory [OF st(1) assms(6)] by simp
  moreover have "restored fam (cfg d') c0 = restored fam c c0" unfolding c(3) by (cases fam) (simp_all add: restored_def Let_def)
  ultimately show "EEPROM_Load fam ok uid stack c0 (eeprom d') =
      Some (Stop (Loaded ((restored fam (cfg d') c0)\<lparr>changed := all_changes\<rparr>) (eeprom d')))"
    using EEPROM_Load_saved [OF st assms(6), of "eeprom d" ok uid stack c0] c(1,2) by simp
qed

text \<open>
  C7. When the configuration has changed, one turn of the loop stores it and clears the change
  flags, so that the next turn has nothing to do; whatever happens to the memory of the processor, the next boot
  loads exactly the configuration the device ran with. (The humidity thresholds are excluded, which the store gets wrong.)
\<close>
theorem changes_are_stored_and_survive:
  assumes "apply_changes fam env d = Some d'" "any (changed (cfg d))" "config_storable fam (cfg d')"
    and "fam = STX \<longrightarrow> \<not> humidity_mode (cfg d')" "eeprom_works env = sound" "length (save_buffer env) = 256"
  shows "changed (cfg d') = no_changes \<and> apply_changes fam env' d' = Some d' \<and>
    EEPROM_Load fam ok uid stack c0 (eeprom d') = Some (Stop (Loaded ((restored fam (cfg d') c0)\<lparr>changed := all_changes\<rparr>) (eeprom d')))"
  using changes_are_stored_and_survive_facts [OF assms] by blast

theorem changes_are_stored_and_survive_witness:
  "\<exists>d' c'. apply_changes STA env_example (device_example port_example mac_example) = Some d' \<and>
    EEPROM_Load STA sound (0, 0, 0) [] DevCfg_default (eeprom d') = Some (Stop (Loaded c' (eeprom d'))) \<and> txPort c' = 9"
proof (rule apply_port_example)
  fix d' assume d: "apply_changes STA env_example (device_example port_example mac_example) = Some d'"
    and c: "cfg d' = port_example\<lparr>changed := no_changes\<rparr>"
  have st: "config_storable STA (cfg d')" unfolding c by code_simp
  have ch: "any (changed (cfg (device_example port_example mac_example)))" by (simp add: port_example_def)
  have t: "txPort ((restored STA (cfg d') DevCfg_default)\<lparr>changed := all_changes\<rparr>) = 9"
    unfolding c by (simp add: restored_def Let_def port_example_def)
  from changes_are_stored_and_survive [OF d ch st, of env_example sound "(0, 0, 0)" "[]" DevCfg_default] d t show ?thesis
    by (auto simp: env_example_def)
qed

text \<open>
  When LoRaWAN settings have changed, one turn of the loop leaves an idle stack of the same
  region with the identity, keys, data rate, power and policies of the configuration.
\<close>
theorem changes_reach_the_stack:
  assumes "apply_changes fam env d = Some d'" "any (changed (cfg d))" "lrw (changed (cfg d))"
    and "\<not> tx_running (nvm (lrw_st d))" "served (mac_region (nvm (lrw_st d)))" "region (cfg d) = mac_region (nvm (lrw_st d))"
  shows "applied (cfg d') (region (cfg d)) (nvm (lrw_st d'))"
proof -
  from apply_changes_stack [OF assms(1-3)] obtain c1 c2 where
    c: "(c2, nvm (lrw_st d')) = LRW_FromDevCfg (mac_init env) (unique_id env) (c1, nvm (lrw_st d))"
      "cfg d' = c2\<lparr>changed := no_changes\<rparr>" "lrw_part c1 = lrw_part (cfg d)" by metis
  then have "region c1 = region (cfg d)" by (simp add: lrw_part_def)
  then show ?thesis using LRW_FromDevCfg_idle [OF assms(4,5) _ c(1)] assms(6) c(2) by (simp add: applied_def)
qed

theorem changes_reach_the_stack_witness:
  "\<exists>d'. apply_changes STA env_example (device_example port_example mac_example) = Some d' \<and>
    applied (cfg d') LORAMAC_REGION_EU868 (nvm (lrw_st d'))"
proof (rule apply_port_example)
  fix d' assume d: "apply_changes STA env_example (device_example port_example mac_example) = Some d'"
  have "applied (cfg d') (region (cfg (device_example port_example mac_example))) (nvm (lrw_st d'))"
    by (rule changes_reach_the_stack [OF d])
      (simp_all add: port_example_def mac_example_def served_def config_example_def DevCfg_default_def)
  with d show ?thesis by (auto simp: port_example_def config_example_def DevCfg_default_def)
qed

lemma sleeps_only_when_idle_facts:
  assumes "main_Sleep env d = (d', True)"
  shows "\<not> tasks_pending env \<and> \<not> nfc_active env \<and> \<not> stack_busy env (nvm (lrw_st d))"
    and "1000 \<le> DutyCycleWaitTime (lrw_st d) \<or> joinTrials d = 0 \<and>
      (\<not> LRW_IsJoined (nvm (lrw_st d)) \<or> LRW_HasQueue (queue (handle (lrw_st d))) = 0)"
    and "1000 < DutyCycleWaitTime (lrw_st d) \<Longrightarrow> time_now env < time_now env + DutyCycleWaitTime (lrw_st d) div 1000 \<Longrightarrow>
      \<exists>s. wake_timer d' = Some s \<and> s \<le> DutyCycleWaitTime (lrw_st d) div 1000"
    and "lrw_st d' = lrw_st d"
proof -
  show "\<not> tasks_pending env \<and> \<not> nfc_active env \<and> \<not> stack_busy env (nvm (lrw_st d))"
    "1000 \<le> DutyCycleWaitTime (lrw_st d) \<or> joinTrials d = 0 \<and>
      (\<not> LRW_IsJoined (nvm (lrw_st d)) \<or> LRW_HasQueue (queue (handle (lrw_st d))) = 0)"
    using assms by (auto simp: main_Sleep_def Let_def not_less split: if_splits)
  show "lrw_st d' = lrw_st d" using assms by (auto simp: main_Sleep_def Let_def split: if_splits option.splits)
  let ?t = "DutyCycleWaitTime (lrw_st d) div 1000"
  assume wait: "1000 < DutyCycleWaitTime (lrw_st d)" and now: "time_now env < time_now env + ?t"
  obtain d1 where d1: "d' = set_wakeup env WAKEUP_LRW_DUTYCYCLE ?t d1"
    using assms wait by (auto simp: main_Sleep_def Let_def split: if_splits)
  have t: "?t \<noteq> 0" using wait by (auto simp: word_unat_eq_iff unat_div word_less_nat_alt)
  let ?w = "fst (PrepareWakeup WAKEUP_LRW_DUTYCYCLE ?t (time_now env) (wuh d1))"
  have "dutycycle_due ?w = time_now env + ?t" "time_now env + ?t \<noteq> 0"
    using t now by (auto simp: PrepareWakeup_def Let_def due_of_def fix_overdue_def)
  then have "time_now env + ?t \<in> deadlines ?w" by (simp add: deadlines_def)
  from timer_bound [OF this] show "\<exists>s. wake_timer d' = Some s \<and> s \<le> ?t" by (auto simp: d1 timer_set_wakeup)
qed

text \<open>
  C8. The device enters stop mode only without pending tasks, without recent NFC activity, with an
  idle stack and, unless the stack has to wait a second or longer, without a running join or a queued message of a joined
  device. When the wait is longer than a second, the wake-up timer is set to end it.
\<close>
theorem sleeps_only_when_idle:
  assumes "main_Sleep env d = (d', True)"
  shows "\<not> tasks_pending env \<and> \<not> nfc_active env \<and> \<not> stack_busy env (nvm (lrw_st d)) \<and>
    (1000 \<le> DutyCycleWaitTime (lrw_st d) \<or> joinTrials d = 0 \<and>
      (\<not> LRW_IsJoined (nvm (lrw_st d)) \<or> LRW_HasQueue (queue (handle (lrw_st d))) = 0)) \<and>
    (1000 < DutyCycleWaitTime (lrw_st d) \<and> time_now env < time_now env + DutyCycleWaitTime (lrw_st d) div 1000 \<longrightarrow>
      (\<exists>s. wake_timer d' = Some s \<and> s \<le> DutyCycleWaitTime (lrw_st d) div 1000)) \<and>
    lrw_st d' = lrw_st d"
  using sleeps_only_when_idle_facts [OF assms] by blast

theorem sleeps_only_when_idle_witness:
  "\<exists>d'. main_Sleep env_example ((device_example DevCfg_default mac_example)
      \<lparr>lrw_st := (lrw_start DevCfg_default mac_example)\<lparr>DutyCycleWaitTime := 5000\<rparr>\<rparr>) = (d', True) \<and>
    (\<exists>s. wake_timer d' = Some s \<and> s \<le> 5)"
proof -
  let ?d = "(device_example DevCfg_default mac_example)\<lparr>lrw_st := (lrw_start DevCfg_default mac_example)\<lparr>DutyCycleWaitTime := 5000\<rparr>\<rparr>"
  obtain d' where d': "main_Sleep env_example ?d = (d', True)" by (simp add: main_Sleep_def env_example_def Let_def)
  from sleeps_only_when_idle [OF d'] d' show ?thesis by (auto simp: env_example_def)
qed

lemma scheduled_message_is_queued_facts:
  assumes "wakeup_callback fam env r d = Some d'" "lrw_wf (lrw_st d)"
    and "schedmsg_due (wuh d) \<noteq> 0" "schedmsg_due (wuh d) \<le> time_now env" "time_now env \<le> time_now env + sendInterval (cfg d)"
    and "LRW_IsJoined (nvm (lrw_st d))" "j < LRW_QUEUE_LEN" "slot_view (queue (handle (lrw_st d))) j = None"
  shows "schedmsg_due (wuh d') = (if sendInterval (cfg d) = 0 then 0 else time_now env + sendInterval (cfg d))"
    and "\<exists>i m. slot_view (queue (handle (lrw_st d))) i = None \<and> msg_type m = SCHEDULED \<and>
      slot_view (queue (handle (lrw_st d'))) = (slot_view (queue (handle (lrw_st d))))(i \<mapsto> m)"
proof -
  define d1 where "d1 = (if dutycycle_due (wuh d) \<noteq> 0 \<and> dutycycle_due (wuh d) \<le> time_now env
    then set_wakeup env WAKEUP_LRW_DUTYCYCLE 0 d else d)"
  have due: "schedmsg_due (wuh d1) \<noteq> 0 \<and> schedmsg_due (wuh d1) \<le> time_now env"
    using assms(3,4) by (auto simp: d1_def wuh_set_wakeup PrepareWakeup_def Let_def fix_overdue_def)
  have st: "lrw_st d1 = lrw_st d" "cfg d1 = cfg d" by (simp_all add: d1_def)
  let ?d2 = "set_wakeup env WAKEUP_LRW_SCHEDMSG (sendInterval (cfg d)) d1"
  have "wakeup_callback fam env r d = map_option (\<lambda>s. end_bsec env (?d2\<lparr>lrw_st := s\<rparr>)) (enqueueToSend fam r SCHEDULED 0 (lrw_st d))"
    using due st unfolding wakeup_callback_def Let_def d1_def [symmetric] by simp
  with assms(1) obtain s where s: "enqueueToSend fam r SCHEDULED 0 (lrw_st d) = Some s"
    and "d' = end_bsec env (?d2\<lparr>lrw_st := s\<rparr>)" by auto
  then have d': "lrw_st d' = s" "schedmsg_due (wuh d') = schedmsg_due (wuh ?d2) \<or>
      schedmsg_due (wuh d') = fix_overdue (time_now env) (schedmsg_due (wuh ?d2))"
    by (simp_all add: end_bsec_def wuh_set_wakeup PrepareWakeup_def Let_def)
  moreover have "schedmsg_due (wuh ?d2) = (if sendInterval (cfg d) = 0 then 0 else time_now env + sendInterval (cfg d))"
    using leD [OF assms(5)] by (simp add: wuh_set_wakeup PrepareWakeup_def Let_def due_of_def fix_overdue_def)
  ultimately show "schedmsg_due (wuh d') = (if sendInterval (cfg d) = 0 then 0 else time_now env + sendInterval (cfg d))"
    using assms(5) by (auto simp: fix_overdue_def)
  from enqueue_adds [OF s assms(2,6) _ assms(7,8)] show "\<exists>i m. slot_view (queue (handle (lrw_st d))) i = None \<and>
      msg_type m = SCHEDULED \<and> slot_view (queue (handle (lrw_st d'))) = (slot_view (queue (handle (lrw_st d))))(i \<mapsto> m)"
    unfolding d'(1) by metis
qed

text \<open>
  C9. When the deadline of the scheduled message has passed, the wake-up interrupt sets the next one a
  send interval later and, on a joined device with a free slot, queues one message; the messages that were queued
  stay.
\<close>
theorem scheduled_message_is_queued:
  assumes "wakeup_callback fam env r d = Some d'" "lrw_wf (lrw_st d)"
    and "schedmsg_due (wuh d) \<noteq> 0" "schedmsg_due (wuh d) \<le> time_now env" "time_now env \<le> time_now env + sendInterval (cfg d)"
    and "LRW_IsJoined (nvm (lrw_st d))" "j < LRW_QUEUE_LEN" "slot_view (queue (handle (lrw_st d))) j = None"
  shows "schedmsg_due (wuh d') = (if sendInterval (cfg d) = 0 then 0 else time_now env + sendInterval (cfg d)) \<and>
    (\<exists>i m. slot_view (queue (handle (lrw_st d))) i = None \<and> msg_type m = SCHEDULED \<and>
      slot_view (queue (handle (lrw_st d'))) = (slot_view (queue (handle (lrw_st d))))(i \<mapsto> m))"
  using scheduled_message_is_queued_facts [OF assms] by blast

theorem scheduled_message_is_queued_witness:
  "\<exists>d'. wakeup_callback STA env_example (press_example 1) (device_example DevCfg_default joined_example) = Some d' \<and>
    schedmsg_due (wuh d') = 86500"
proof -
  let ?d = "device_example DevCfg_default joined_example"
  define d' where "d' = the (wakeup_callback STA env_example (press_example 1) ?d)"
  have "wakeup_callback STA env_example (press_example 1) ?d \<noteq> None" by code_simp
  then have d': "wakeup_callback STA env_example (press_example 1) ?d = Some d'" by (simp add: d'_def)
  have j: "LRW_IsJoined (nvm (lrw_st ?d))" by code_simp
  have v: "slot_view (queue (handle (lrw_st ?d))) 0 = None"
    by (simp add: slot_view_def device_example_def lrw_start_def lrw_zero_def empty_msg_def LRW_QUEUE_LEN_def)
  have wf: "lrw_wf (lrw_st ?d)" by (simp add: device_example_def lrw_wf_start)
  from scheduled_message_is_queued [OF d' wf _ _ _ j _ v] d' show ?thesis
    by (simp add: device_example_def env_example_def cfg_def lrw_start_def DevCfg_default_def LRW_QUEUE_LEN_def)
qed

end
