(* ===== verification/Nfc_Driver.thy ===== *)
theory Nfc_Driver
  imports Firmware_Prelude
begin

text \<open>
  The driver of the NFC tag: \<^verbatim>\<open>src/Src/nfc.c\<close> and the routines of \<^verbatim>\<open>src/Drivers/ST25DV\<close> it uses. A routine
  is a function on the state of the driver, the accesses made to the I2C bus so far and the flag
  \<open>IsInitialized\<close>; what the bus answers to an access is the parameter \<open>tag_env\<close>, a function of the accesses up to
  this one. A result is \<open>Inl\<close> of the code of an error or \<open>Inr\<close> of a value, \<open>None\<close> is a routine that does not return.
\<close>

section \<open>Bus\<close>

datatype bus_op =
    Mem_Read uint16 uint16 nat         \<comment> \<open>\<open>HAL_I2C_Mem_Read\<close>: device, address, length\<close>
  | Mem_Write uint16 uint16 bytes      \<comment> \<open>\<open>HAL_I2C_Mem_Write\<close>\<close>
  | Wait_ACK nat                       \<comment> \<open>\<open>NFC_WaitACK\<close>, for at most so many ms\<close>
  | Is_Ready uint16                    \<comment> \<open>\<open>HAL_I2C_IsDeviceReady\<close>, one trial\<close>
  | I2C_Restart                        \<comment> \<open>\<open>MX_I2C1_Init\<close> and \<open>I2C_Scan\<close>\<close>

record tag_env =
  status_after :: "bus_op list \<Rightarrow> uint32"   \<comment> \<open>the code of the last access, 0 is \<open>HAL_OK\<close>\<close>
  data_after :: "bus_op list \<Rightarrow> nat \<Rightarrow> uint8"  \<comment> \<open>the bytes it read; also what a failed read leaves behind\<close>
  tick_after :: "bus_op list \<Rightarrow> uint32"     \<comment> \<open>\<open>HAL_GetTick\<close> after it\<close>

record tag_state =
  accesses :: "bus_op list"
  IsInitialized :: bool

type_synonym 'a nfc = "tag_env \<Rightarrow> tag_state \<Rightarrow> ((uint32 + 'a) \<times> tag_state) option"

definition nfc_ret :: "'a \<Rightarrow> 'a nfc" where
  "nfc_ret x = (\<lambda>env s. Some (Inr x, s))"

definition nfc_err :: "uint32 \<Rightarrow> 'a nfc" where
  "nfc_err e = (\<lambda>env s. Some (Inl e, s))"

definition nfc_then :: "'a nfc \<Rightarrow> ('a \<Rightarrow> 'b nfc) \<Rightarrow> 'b nfc" where
  \<comment> \<open>\<open>if((r = ...)) goto err\<close>\<close>
  "nfc_then m k = (\<lambda>env s. case m env s of
     None \<Rightarrow> None | Some (Inl e, t) \<Rightarrow> Some (Inl e, t) | Some (Inr x, t) \<Rightarrow> k x env t)"

definition NFCTAG_ERROR :: uint32 where "NFCTAG_ERROR = - 1"
definition NFCTAG_TIMEOUT :: uint32 where "NFCTAG_TIMEOUT = - 3"

definition or_error :: "'a nfc \<Rightarrow> 'a nfc" where
  \<comment> \<open>\<open>if(...) return NFCTAG_ERROR\<close>\<close>
  "or_error m = (\<lambda>env s. case m env s of
     None \<Rightarrow> None | Some (Inl e, t) \<Rightarrow> Some (Inl NFCTAG_ERROR, t) | Some (Inr x, t) \<Rightarrow> Some (Inr x, t))"

definition perform :: "bus_op \<Rightarrow> tag_state \<Rightarrow> tag_state" where
  "perform op s = s\<lparr>accesses := accesses s @ [op]\<rparr>"

section \<open>Transfers with retries\<close>

fun retry :: "nat \<Rightarrow> uint32 \<Rightarrow> bus_op \<Rightarrow> tag_env \<Rightarrow> tag_state \<Rightarrow> uint32 \<times> tag_state" where
  \<comment> \<open>\<open>while(try-- && (r = ...))\<close>\<close>
  "retry 0 r op env s = (r, s)"
| "retry (Suc n) r op env s = (let t = perform op s; r' = status_after env (accesses t) in
     if r' = 0 then (0, t) else retry n r' op env (perform (Wait_ACK 50) t))"

definition transfer :: "bus_op \<Rightarrow> tag_env \<Rightarrow> tag_state \<Rightarrow> uint32 \<times> tag_state" where
  \<comment> \<open>the common body of \<open>NFC_ReadReg\<close> and \<open>NFC_WriteReg\<close>\<close>
  "transfer op env s = (let t = perform op s in
     if status_after env (accesses t) = 0 then (0, t)
     else case retry 3 1 op env (perform (Wait_ACK 5) t) of
       (r, u) \<Rightarrow> (r, if r \<noteq> 0 then perform I2C_Restart u else u))"

definition NFC_ReadReg :: "uint16 \<Rightarrow> uint16 \<Rightarrow> nat \<Rightarrow> bytes nfc" where
  "NFC_ReadReg dev reg n = (\<lambda>env s. case transfer (Mem_Read dev reg n) env s of
     (r, t) \<Rightarrow> Some (if r \<noteq> 0 then Inl r else Inr (map (data_after env (accesses t)) [0..<n]), t))"

definition NFC_WriteReg :: "uint16 \<Rightarrow> uint16 \<Rightarrow> bytes \<Rightarrow> unit nfc" where
  "NFC_WriteReg dev reg data = (\<lambda>env s. case transfer (Mem_Write dev reg data) env s of
     (r, t) \<Rightarrow> Some (if r \<noteq> 0 then Inl r else Inr (), t))"

definition NFC_HasActivity :: "uint32 \<Rightarrow> uint32 \<Rightarrow> bool" where
  "NFC_HasActivity now nfc_activity \<longleftrightarrow> now - nfc_activity < 2000"

section \<open>Registers\<close>

definition ST25DV_ADDR_DATA_I2C :: uint16 where "ST25DV_ADDR_DATA_I2C = 0xA6"
definition ST25DV_ADDR_SYST_I2C :: uint16 where "ST25DV_ADDR_SYST_I2C = 0xAE"
definition ST25DV_WRITE_TIMEOUT :: uint32 where "ST25DV_WRITE_TIMEOUT = 320"
definition ST25DV_MAX_WRITE_BYTE :: nat where "ST25DV_MAX_WRITE_BYTE = 256"
definition ST25DV_IS_DYNAMIC_REGISTER :: uint16 where "ST25DV_IS_DYNAMIC_REGISTER = 0x2000"

definition ST25DV_GPO_REG :: uint16 where "ST25DV_GPO_REG = 0x0000"
definition ST25DV_EH_MODE_REG :: uint16 where "ST25DV_EH_MODE_REG = 0x0002"
definition ST25DV_RF_MNGT_REG :: uint16 where "ST25DV_RF_MNGT_REG = 0x0003"
definition ST25DV_MB_MODE_REG :: uint16 where "ST25DV_MB_MODE_REG = 0x000D"
definition ST25DV_MB_WDG_REG :: uint16 where "ST25DV_MB_WDG_REG = 0x000E"
definition ST25DV_ICREF_REG :: uint16 where "ST25DV_ICREF_REG = 0x0017"
definition ST25DV_I2CPASSWD_REG :: uint16 where "ST25DV_I2CPASSWD_REG = 0x0900"
definition ST25DV_EH_CTRL_DYN_REG :: uint16 where "ST25DV_EH_CTRL_DYN_REG = 0x2002"
definition ST25DV_RF_MNGT_DYN_REG :: uint16 where "ST25DV_RF_MNGT_DYN_REG = 0x2003"
definition ST25DV_I2C_SSO_DYN_REG :: uint16 where "ST25DV_I2C_SSO_DYN_REG = 0x2004"
definition ST25DV_ITSTS_DYN_REG :: uint16 where "ST25DV_ITSTS_DYN_REG = 0x2005"
definition ST25DV_MB_CTRL_DYN_REG :: uint16 where "ST25DV_MB_CTRL_DYN_REG = 0x2006"

partial_function (option) poll_loop :: "uint16 \<Rightarrow> uint32 \<Rightarrow> tag_env \<Rightarrow> tag_state \<Rightarrow> (bool \<times> tag_state) option" where
  \<comment> \<open>whether the tag became ready; the loop ends by the time only when \<open>HAL_GetTick\<close> advances\<close>
  "poll_loop dev tickstart env s =
    (let t = perform (Is_Ready dev) s; ok = status_after env (accesses t) = 0
     in if tick_after env (accesses t) - tickstart < ST25DV_WRITE_TIMEOUT \<and> \<not> ok then poll_loop dev tickstart env t
        else Some (ok, t))"

declare poll_loop.simps [code]

definition poll_ready :: "uint16 \<Rightarrow> unit nfc" where
  "poll_ready dev = (\<lambda>env s. map_option (\<lambda>(ok, t). (if ok then Inr () else Inl NFCTAG_TIMEOUT, t))
     (poll_loop dev (tick_after env (accesses s)) env s))"

definition ReadRegWrap :: "uint16 \<Rightarrow> nat \<Rightarrow> bytes nfc" where
  "ReadRegWrap reg n =
    NFC_ReadReg (if reg AND ST25DV_IS_DYNAMIC_REGISTER \<noteq> 0 then ST25DV_ADDR_DATA_I2C else ST25DV_ADDR_SYST_I2C) reg n"

definition WriteRegWrap :: "uint16 \<Rightarrow> bytes \<Rightarrow> unit nfc" where
  "WriteRegWrap reg data =
    (if reg AND ST25DV_IS_DYNAMIC_REGISTER \<noteq> 0 then NFC_WriteReg ST25DV_ADDR_DATA_I2C reg data
     else nfc_then (NFC_WriteReg ST25DV_ADDR_SYST_I2C reg data) (\<lambda>_. poll_ready ST25DV_ADDR_SYST_I2C))"

definition get_field :: "uint16 \<Rightarrow> uint8 \<Rightarrow> nat \<Rightarrow> uint8 nfc" where
  "get_field reg m shift =
    nfc_then (or_error (ReadRegWrap reg 1)) (\<lambda>b. nfc_ret (drop_bit shift (b ! 0 AND m)))"

definition set_field :: "uint16 \<Rightarrow> uint8 \<Rightarrow> nat \<Rightarrow> uint8 \<Rightarrow> unit nfc" where
  "set_field reg m shift v =
    nfc_then (or_error (ReadRegWrap reg 1)) (\<lambda>b.
      or_error (WriteRegWrap reg [(push_bit shift v AND m) OR (b ! 0 AND NOT m)]))"

definition ST25DV_GetICREF :: "uint8 nfc" where
  "ST25DV_GetICREF = nfc_then (or_error (ReadRegWrap ST25DV_ICREF_REG 1)) (\<lambda>b. nfc_ret (b ! 0))"
definition ST25DV_GetMB_MODE_RW :: "uint8 nfc" where
  "ST25DV_GetMB_MODE_RW = get_field ST25DV_MB_MODE_REG 0x01 0"
definition ST25DV_SetMB_MODE_RW :: "uint8 \<Rightarrow> unit nfc" where
  "ST25DV_SetMB_MODE_RW = set_field ST25DV_MB_MODE_REG 0x01 0"
definition ST25DV_SetMB_CTRL_DYN_MBEN :: "uint8 \<Rightarrow> unit nfc" where
  "ST25DV_SetMB_CTRL_DYN_MBEN = set_field ST25DV_MB_CTRL_DYN_REG 0x01 0"
definition ST25DV_GetMB_WDG_DELAY :: "uint8 nfc" where
  "ST25DV_GetMB_WDG_DELAY = get_field ST25DV_MB_WDG_REG 0x07 0"
definition ST25DV_SetMB_WDG_DELAY :: "uint8 \<Rightarrow> unit nfc" where
  "ST25DV_SetMB_WDG_DELAY = set_field ST25DV_MB_WDG_REG 0x07 0"
definition ST25DV_GetGPO_ALL :: "uint8 nfc" where
  "ST25DV_GetGPO_ALL = nfc_then (or_error (ReadRegWrap ST25DV_GPO_REG 1)) (\<lambda>b. nfc_ret (b ! 0))"
definition ST25DV_SetGPO_ALL :: "uint8 \<Rightarrow> unit nfc" where
  "ST25DV_SetGPO_ALL v = or_error (WriteRegWrap ST25DV_GPO_REG [v])"
definition ST25DV_GetITSTS_DYN_ALL :: "uint8 nfc" where
  "ST25DV_GetITSTS_DYN_ALL = nfc_then (or_error (ReadRegWrap ST25DV_ITSTS_DYN_REG 1)) (\<lambda>b. nfc_ret (b ! 0))"
definition ST25DV_GetEH_MODE :: "uint8 nfc" where
  "ST25DV_GetEH_MODE = get_field ST25DV_EH_MODE_REG 0x01 0"
definition ST25DV_SetEH_MODE :: "uint8 \<Rightarrow> unit nfc" where
  "ST25DV_SetEH_MODE = set_field ST25DV_EH_MODE_REG 0x01 0"
definition ST25DV_SetEH_CTRL_DYN_EH_EN :: "uint8 \<Rightarrow> unit nfc" where
  "ST25DV_SetEH_CTRL_DYN_EH_EN = set_field ST25DV_EH_CTRL_DYN_REG 0x01 0"
definition ST25DV_GetRF_MNGT_ALL :: "uint8 nfc" where
  "ST25DV_GetRF_MNGT_ALL = get_field ST25DV_RF_MNGT_REG 0x03 0"
definition ST25DV_SetRF_MNGT_ALL :: "uint8 \<Rightarrow> unit nfc" where
  "ST25DV_SetRF_MNGT_ALL = set_field ST25DV_RF_MNGT_REG 0x03 0"
definition ST25DV_SetRF_MNGT_DYN_ALL :: "uint8 \<Rightarrow> unit nfc" where
  "ST25DV_SetRF_MNGT_DYN_ALL = set_field ST25DV_RF_MNGT_DYN_REG 0x03 0"
definition ST25DV_GetI2C_SSO_DYN_I2CSSO :: "uint8 nfc" where
  "ST25DV_GetI2C_SSO_DYN_I2CSSO = get_field ST25DV_I2C_SSO_DYN_REG 0x01 0"

section \<open>Operations of the tag\<close>

datatype ST25DV_EN_STATUS = ST25DV_DISABLE | ST25DV_ENABLE
datatype ST25DV_EH_MODE_STATUS = ST25DV_EH_ACTIVE_AFTER_BOOT | ST25DV_EH_ON_DEMAND
datatype ST25DV_I2CSSO_STATUS = ST25DV_SESSION_CLOSED | ST25DV_SESSION_OPEN

record ST25DV_RF_MNGT =
  RfDisable :: ST25DV_EN_STATUS
  RfSleep :: ST25DV_EN_STATUS

definition en_status :: "bool \<Rightarrow> ST25DV_EN_STATUS" where
  "en_status b = (if b then ST25DV_ENABLE else ST25DV_DISABLE)"

definition ST25DV_Init :: "unit nfc" where
  \<comment> \<open>the result of \<open>ST25DV_ReadID\<close> is not tested: after a failed read the identity is what is on the stack\<close>
  "ST25DV_Init = (\<lambda>env s.
     if IsInitialized s then Some (Inr (), s)
     else case ST25DV_GetICREF env s of
       None \<Rightarrow> None
     | Some (r, t) \<Rightarrow>
         (let nfctag_id = (case r of Inr b \<Rightarrow> b | Inl _ \<Rightarrow> data_after env (accesses t) 0) in
          if nfctag_id \<noteq> 0x24 \<and> nfctag_id \<noteq> 0x26 then Some (Inl NFCTAG_ERROR, t)
          else Some (Inr (), t\<lparr>IsInitialized := True\<rparr>)))"

partial_function (option) write_loop :: "uint16 \<Rightarrow> bytes \<Rightarrow> tag_env \<Rightarrow> tag_state \<Rightarrow> ((uint32 + unit) \<times> tag_state) option" where
  \<comment> \<open>the size of a part is a \<open>uint8_t\<close>, in which \<open>ST25DV_MAX_WRITE_BYTE\<close> is 0\<close>
  "write_loop mem_addr data env s =
    (let split = unat (of_nat (if ST25DV_MAX_WRITE_BYTE < length data then ST25DV_MAX_WRITE_BYTE else length data) :: uint8)
     in case nfc_then (NFC_WriteReg ST25DV_ADDR_SYST_I2C mem_addr (take split data)) (\<lambda>_. poll_ready ST25DV_ADDR_DATA_I2C) env s of
          None \<Rightarrow> None
        | Some (r, t) \<Rightarrow>
            if split < length data \<and> \<not> isl r then write_loop (mem_addr + of_nat split) (drop split data) env t
            else Some (r, t))"

declare write_loop.simps [code]

definition ST25DV_WriteRegister :: "bytes \<Rightarrow> uint16 \<Rightarrow> unit nfc" where
  "ST25DV_WriteRegister data addr = write_loop addr data"

definition be32 :: "uint32 \<Rightarrow> bytes" where
  "be32 w = map (\<lambda>i. ucast (drop_bit ((3 - i) * 8) w)) [0..<4]"

definition ST25DV_PresentI2CPassword :: "uint32 \<Rightarrow> uint32 \<Rightarrow> unit nfc" where
  \<comment> \<open>\<open>MsbPasswd\<close> and \<open>LsbPasswd\<close>\<close>
  "ST25DV_PresentI2CPassword msb lsb =
    ST25DV_WriteRegister (be32 msb @ be32 lsb @ [0x09] @ be32 msb @ be32 lsb) ST25DV_I2CPASSWD_REG"

definition ST25DV_GetGPOStatus :: "uint16 nfc" where
  "ST25DV_GetGPOStatus = nfc_then ST25DV_GetGPO_ALL (\<lambda>b. nfc_ret (ucast b))"

definition ST25DV_ConfigureGPO :: "uint16 \<Rightarrow> unit nfc" where
  "ST25DV_ConfigureGPO v = ST25DV_SetGPO_ALL (ucast v)"

definition ST25DV_ReadEHMode :: "ST25DV_EH_MODE_STATUS nfc" where
  "ST25DV_ReadEHMode = nfc_then ST25DV_GetEH_MODE (\<lambda>b.
     nfc_ret (if b \<noteq> 0 then ST25DV_EH_ON_DEMAND else ST25DV_EH_ACTIVE_AFTER_BOOT))"

definition ST25DV_WriteEHMode :: "ST25DV_EH_MODE_STATUS \<Rightarrow> unit nfc" where
  "ST25DV_WriteEHMode m = ST25DV_SetEH_MODE (case m of ST25DV_EH_ACTIVE_AFTER_BOOT \<Rightarrow> 0 | ST25DV_EH_ON_DEMAND \<Rightarrow> 1)"

definition ST25DV_ReadRFMngt :: "ST25DV_RF_MNGT nfc" where
  "ST25DV_ReadRFMngt = nfc_then ST25DV_GetRF_MNGT_ALL (\<lambda>b.
     nfc_ret \<lparr>RfDisable = en_status (b AND 0x01 = 0x01), RfSleep = en_status (b AND 0x02 = 0x02)\<rparr>)"

definition ST25DV_WriteRFMngt :: "uint8 \<Rightarrow> unit nfc" where
  "ST25DV_WriteRFMngt = ST25DV_SetRF_MNGT_ALL"

definition ST25DV_ReadMBMode :: "ST25DV_EN_STATUS nfc" where
  "ST25DV_ReadMBMode = nfc_then ST25DV_GetMB_MODE_RW (\<lambda>b. nfc_ret (en_status (b \<noteq> 0)))"

definition ST25DV_WriteMBMode :: "ST25DV_EN_STATUS \<Rightarrow> unit nfc" where
  "ST25DV_WriteMBMode m = ST25DV_SetMB_MODE_RW (case m of ST25DV_DISABLE \<Rightarrow> 0 | ST25DV_ENABLE \<Rightarrow> 1)"

definition ST25DV_ReadMBWDG :: "uint8 nfc" where
  "ST25DV_ReadMBWDG = ST25DV_GetMB_WDG_DELAY"

definition ST25DV_WriteMBWDG :: "uint8 \<Rightarrow> unit nfc" where
  "ST25DV_WriteMBWDG = ST25DV_SetMB_WDG_DELAY"

definition ST25DV_ReadI2CSecuritySession_Dyn :: "ST25DV_I2CSSO_STATUS nfc" where
  "ST25DV_ReadI2CSecuritySession_Dyn = nfc_then ST25DV_GetI2C_SSO_DYN_I2CSSO (\<lambda>b.
     nfc_ret (if b \<noteq> 0 then ST25DV_SESSION_OPEN else ST25DV_SESSION_CLOSED))"

definition ST25DV_ReadITSTStatus_Dyn :: "uint8 nfc" where
  "ST25DV_ReadITSTStatus_Dyn = ST25DV_GetITSTS_DYN_ALL"

definition ST25DV_ResetEHENMode_Dyn :: "unit nfc" where
  "ST25DV_ResetEHENMode_Dyn = ST25DV_SetEH_CTRL_DYN_EH_EN 0"

definition ST25DV_WriteRFMngt_Dyn :: "uint8 \<Rightarrow> unit nfc" where
  "ST25DV_WriteRFMngt_Dyn = ST25DV_SetRF_MNGT_DYN_ALL"

definition ST25DV_SetMBEN_Dyn :: "unit nfc" where
  "ST25DV_SetMBEN_Dyn = ST25DV_SetMB_CTRL_DYN_MBEN 1"

definition ST25DV_ResetMBEN_Dyn :: "unit nfc" where
  "ST25DV_ResetMBEN_Dyn = ST25DV_SetMB_CTRL_DYN_MBEN 0"

section \<open>Initialisation\<close>

definition nfc_when :: "bool \<Rightarrow> unit nfc \<Rightarrow> unit nfc" where
  "nfc_when b m = (if b then m else nfc_ret ())"

definition open_session :: "unit nfc" where
  \<comment> \<open>a session that stays closed jumps to \<open>err\<close> with \<open>r\<close> still 0\<close>
  "open_session =
    nfc_then ST25DV_ReadI2CSecuritySession_Dyn (\<lambda>i2csso.
    nfc_then (nfc_when (i2csso = ST25DV_SESSION_CLOSED) (ST25DV_PresentI2CPassword 0 0)) (\<lambda>_.
    nfc_then ST25DV_ReadI2CSecuritySession_Dyn (\<lambda>i2csso.
      if i2csso = ST25DV_SESSION_CLOSED then nfc_err 0 else nfc_ret ())))"

definition configure_gpo :: "unit nfc" where
  "configure_gpo = nfc_then ST25DV_GetGPOStatus (\<lambda>v. nfc_when (v \<noteq> 0xFF) (ST25DV_ConfigureGPO 0xFF))"

definition allow_rf :: "unit nfc" where
  "allow_rf =
    nfc_then ST25DV_ReadRFMngt (\<lambda>rfmngt.
    nfc_then (nfc_when (RfDisable rfmngt \<noteq> ST25DV_DISABLE \<or> RfSleep rfmngt \<noteq> ST25DV_DISABLE) (ST25DV_WriteRFMngt 0)) (\<lambda>_.
      ST25DV_WriteRFMngt_Dyn 0))"

definition disable_harvesting :: "unit nfc" where
  "disable_harvesting =
    nfc_then ST25DV_ReadEHMode (\<lambda>ehmode.
    nfc_then (nfc_when (ehmode = ST25DV_EH_ACTIVE_AFTER_BOOT) (ST25DV_WriteEHMode ST25DV_EH_ON_DEMAND)) (\<lambda>_.
      ST25DV_ResetEHENMode_Dyn))"

definition disable_watchdog :: "unit nfc" where
  "disable_watchdog = nfc_then ST25DV_ReadMBWDG (\<lambda>v. nfc_when (v \<noteq> 0) (ST25DV_WriteMBWDG 0))"

definition enable_mailbox :: "unit nfc" where
  "enable_mailbox =
    nfc_then ST25DV_ReadMBMode (\<lambda>mbmode.
    nfc_then (nfc_when (mbmode = ST25DV_DISABLE) (ST25DV_WriteMBMode ST25DV_ENABLE)) (\<lambda>_.
    nfc_then ST25DV_ResetMBEN_Dyn (\<lambda>_. ST25DV_SetMBEN_Dyn)))"

definition NFC_Init :: "unit nfc" where
  \<comment> \<open>\<open>Inr\<close> is the normal end, \<open>Inl\<close> the value of \<open>r\<close> at \<open>err\<close>\<close>
  "NFC_Init =
    nfc_then ST25DV_Init (\<lambda>_. nfc_then open_session (\<lambda>_. nfc_then configure_gpo (\<lambda>_. nfc_then allow_rf (\<lambda>_.
    nfc_then disable_harvesting (\<lambda>_. nfc_then disable_watchdog (\<lambda>_. enable_mailbox))))))"

definition NFC_ClearMailbox :: "tag_env \<Rightarrow> tag_state \<Rightarrow> tag_state" where
  \<comment> \<open>the results are not tested\<close>
  "NFC_ClearMailbox env s =
    snd (transfer (Mem_Write ST25DV_ADDR_DATA_I2C ST25DV_MB_CTRL_DYN_REG [1]) env
      (snd (transfer (Mem_Write ST25DV_ADDR_DATA_I2C ST25DV_MB_CTRL_DYN_REG [0]) env s)))"

section \<open>Transfers\<close>

fun tries :: "bus_op \<Rightarrow> nat \<Rightarrow> bus_op list" where
  \<comment> \<open>the accesses up to the \<open>k\<close>-th repetition of \<open>op\<close>\<close>
  "tries op 0 = [op]"
| "tries op (Suc k) = op # Wait_ACK 5 # concat (replicate k [op, Wait_ACK 50]) @ [op]"

lemma accesses_perform [simp]: "accesses (perform op s) = accesses s @ [op]"
  by (simp add: perform_def)

lemma IsInitialized_perform [simp]: "IsInitialized (perform op s) = IsInitialized s"
  by (simp add: perform_def)

lemma ex_less_4: "(\<exists>k<4. P k) \<longleftrightarrow> P 0 \<or> P 1 \<or> P 2 \<or> P (3 :: nat)"
  by (auto simp: less_Suc_eq numeral_eq_Suc)

lemma all_less_small:
  "(\<forall>j<0. P j) \<longleftrightarrow> True" "(\<forall>j<1. P j) \<longleftrightarrow> P 0" "(\<forall>j<2. P j) \<longleftrightarrow> P 0 \<and> P 1"
  "(\<forall>j<3. P j) \<longleftrightarrow> P 0 \<and> P 1 \<and> P (2 :: nat)"
  by (auto simp: less_Suc_eq numeral_eq_Suc)

lemma transfer_cases:
  fixes op env s
  defines "ok \<equiv> \<lambda>k. status_after env (accesses s @ tries op k) = 0"
  obtains (answered) k t where "k < 4" "ok k" "\<forall>j<k. \<not> ok j" "transfer op env s = (0, t)"
      "accesses t = accesses s @ tries op k"
  | (failed) r t where "\<forall>j<4. \<not> ok j" "transfer op env s = (r, t)" "r \<noteq> 0"
      "accesses t = accesses s @ tries op 3 @ [Wait_ACK 50, I2C_Restart]"
proof -
  have "(\<exists>k<4. ok k \<and> (\<forall>j<k. \<not> ok j) \<and> (\<exists>t. transfer op env s = (0, t) \<and> accesses t = accesses s @ tries op k)) \<or>
    (\<forall>j<4. \<not> ok j) \<and> (\<exists>r t. transfer op env s = (r, t) \<and> r \<noteq> 0 \<and>
      accesses t = accesses s @ tries op 3 @ [Wait_ACK 50, I2C_Restart])"
    unfolding ex_less_4 all_less_small
    by (auto simp: ok_def transfer_def Let_def numeral_eq_Suc less_Suc_eq split: if_splits)
  then show thesis using that by blast
qed

section \<open>Properties of routines\<close>

definition ensures :: "tag_env \<Rightarrow> (uint32 \<Rightarrow> tag_state \<Rightarrow> bool) \<Rightarrow> (tag_state \<Rightarrow> bool) \<Rightarrow> 'a nfc \<Rightarrow>
    ('a \<Rightarrow> tag_state \<Rightarrow> bool) \<Rightarrow> bool" where
  \<comment> \<open>total correctness: from \<open>P\<close> the routine returns, with \<open>Q\<close>, or with \<open>E\<close> for an error\<close>
  "ensures env E P m Q \<longleftrightarrow> (\<forall>s. P s \<longrightarrow> (\<exists>r t. m env s = Some (r, t) \<and> (case r of Inl e \<Rightarrow> E e t | Inr x \<Rightarrow> Q x t)))"

named_theorems nfc_rules "total correctness of the routines of the driver"

lemma ensures_ret [nfc_rules]: "ensures env E (Q x) (nfc_ret x) Q"
  by (simp add: ensures_def nfc_ret_def)




subsection \<open>Waiting for the tag\<close>




subsection \<open>The tag\<close>


definition tag_device :: "uint16 \<Rightarrow> uint16" where
  \<comment> \<open>dynamic registers, with bit 13 of the address, are with the user memory\<close>
  "tag_device reg = (if bit reg 13 then 0xA6 else 0xAE)"


definition writes :: "bus_op \<Rightarrow> uint16 \<Rightarrow> bool" where
  "writes op reg = (case op of
     Mem_Write dev a data \<Rightarrow> dev = tag_device reg \<and> unat a \<le> unat reg \<and> unat reg < unat a + length data \<or>
       dev = 0xAE \<and> (a = ST25DV_I2CPASSWD_REG \<and> reg = ST25DV_I2C_SSO_DYN_REG \<or> a = ST25DV_MB_MODE_REG \<and> reg = ST25DV_MB_CTRL_DYN_REG)
   | _ \<Rightarrow> False)"









definition keeps :: "bus_op \<Rightarrow> (uint16 \<times> uint8) list \<Rightarrow> bool" where
  "keeps op L \<longleftrightarrow> (\<forall>(reg, v) \<in> set L. \<not> writes op reg)"




lemma keeps_simps [simp]:
  "keeps (Wait_ACK n) L" "keeps (Is_Ready dev) L" "keeps I2C_Restart L" "keeps (Mem_Read dev reg k) L"
  by (simp_all add: keeps_def writes_def)






subsection \<open>Registers\<close>










subsection \<open>The steps of the initialisation\<close>




lemma byte_mask [simp]: "(b :: uint8) AND 0xFF = b"
  by (rule bit_eqI) (auto simp: mask_numerals bit_simps)









lemma ucast_8_16 [simp]: "(ucast (ucast (b :: uint8) :: uint16) :: uint8) = b"
  by (rule bit_eqI) (auto simp: bit_simps)









section \<open>Writes that never end\<close>

lemma poll_ready_at_once:
  assumes "\<And>h. status_after env h = 0"
  shows "poll_ready dev env s = Some (Inr (), perform (Is_Ready dev) s)"
  unfolding poll_ready_def by (subst poll_loop.simps) (simp add: assms Let_def)

lemma write_loop_stuck:
  \<comment> \<open>from 256 bytes on every part has no byte\<close>
  assumes ok: "\<And>h. status_after env h = 0" and "256 \<le> length data"
  shows "write_loop addr data env s = None"
proof -
  have split: "unat (of_nat (if ST25DV_MAX_WRITE_BYTE < length data then ST25DV_MAX_WRITE_BYTE else length data) :: uint8) = 0"
    using assms(2) by (cases "length data = 256") (simp_all add: ST25DV_MAX_WRITE_BYTE_def)
  have step: "\<exists>t. nfc_then (NFC_WriteReg ST25DV_ADDR_SYST_I2C addr []) (\<lambda>_. poll_ready ST25DV_ADDR_DATA_I2C) env s = Some (Inr (), t)" for s
    by (simp add: nfc_then_def NFC_WriteReg_def transfer_def Let_def ok poll_ready_at_once [OF ok])
  have "addr' = addr \<and> data' = data \<and> env' = env \<longrightarrow> False" if "write_loop addr' data' env' s' = Some r" for addr' data' env' s' r
  proof (rule write_loop.raw_induct [OF _ that,
      where P = "\<lambda>addr' data' env' s' r. addr' = addr \<and> data' = data \<and> env' = env \<longrightarrow> False"], goal_cases)
    case (1 wl addr' data' env' s' r)
    show ?case
    proof
      assume a: "addr' = addr \<and> data' = data \<and> env' = env"
      obtain t where "nfc_then (NFC_WriteReg ST25DV_ADDR_SYST_I2C addr []) (\<lambda>_. poll_ready ST25DV_ADDR_DATA_I2C) env s' = Some (Inr (), t)"
        using step by blast
      with 1(2) a split assms(2) have "wl addr data env t = Some r" by (auto simp: Let_def split: if_splits)
      with 1(1) show False by blast
    qed
  qed
  then show ?thesis by fastforce
qed

section \<open>\<open>NFC_WaitACK\<close>\<close>

text \<open>
  The registers of the I2C peripheral and the clock are read again and again; \<open>wait_env\<close> gives what is read after
  the accesses made so far.
\<close>

datatype port_op = Read_ISR | Read_Tick | Write_CR2 uint32 | Set_ICR uint32

record wait_env =
  isr_reg :: "port_op list \<Rightarrow> uint32"
  hal_tick :: "port_op list \<Rightarrow> uint32"

record i2c_handle =
  State :: uint8
  Lock :: bool
  Mode :: uint8
  ErrorCode :: uint32

definition HAL_I2C_STATE_READY :: uint8 where "HAL_I2C_STATE_READY = 0x20"
definition HAL_I2C_STATE_BUSY :: uint8 where "HAL_I2C_STATE_BUSY = 0x24"
definition I2C_ISR_NACKF :: uint32 where "I2C_ISR_NACKF = 0x10"
definition I2C_ISR_STOPF :: uint32 where "I2C_ISR_STOPF = 0x20"
definition I2C_ISR_BUSY :: uint32 where "I2C_ISR_BUSY = 0x8000"
definition HAL_MAX_DELAY :: uint32 where "HAL_MAX_DELAY = 0xFFFFFFFF"
definition HAL_OK :: uint32 where "HAL_OK = 0"
definition HAL_ERROR :: uint32 where "HAL_ERROR = 1"
definition HAL_BUSY :: uint32 where "HAL_BUSY = 2"

partial_function (option) wait_stop :: "wait_env \<Rightarrow> uint32 \<Rightarrow> uint32 \<Rightarrow> port_op list \<Rightarrow> (bool \<times> port_op list) option" where
  \<comment> \<open>until the STOP condition; \<open>False\<close> is the jump to \<open>timeout\<close>\<close>
  "wait_stop env Timeout tickstart h =
    (let h1 = h @ [Read_ISR] in
     if isr_reg env h1 AND I2C_ISR_STOPF \<noteq> 0 then Some (True, h1)
     else if Timeout = HAL_MAX_DELAY then wait_stop env Timeout tickstart h1
     else let h2 = h1 @ [Read_Tick] in
       if Timeout < hal_tick env h2 - tickstart \<or> Timeout = 0 then Some (False, h2) else wait_stop env Timeout tickstart h2)"

declare wait_stop.simps [code]

partial_function (option) ack_loop :: "wait_env \<Rightarrow> uint32 \<Rightarrow> uint32 \<Rightarrow> port_op list \<Rightarrow> (bool \<times> port_op list) option" where
  \<comment> \<open>start conditions until one is acknowledged\<close>
  "ack_loop env Timeout tickstart h =
    (case wait_stop env Timeout tickstart (h @ [Write_CR2 0x020020A6]) of
       None \<Rightarrow> None
     | Some (stopped, h1) \<Rightarrow>
         if \<not> stopped then Some (False, h1)
         else let h2 = h1 @ [Read_ISR] in
           if isr_reg env h2 AND I2C_ISR_NACKF = 0 then Some (True, h2 @ [Set_ICR I2C_ISR_STOPF])
           else let h3 = h2 @ [Set_ICR (I2C_ISR_NACKF OR I2C_ISR_STOPF)] in
             if Timeout = HAL_MAX_DELAY then ack_loop env Timeout tickstart h3
             else let h4 = h3 @ [Read_Tick] in
               if hal_tick env h4 - tickstart < Timeout \<and> Timeout \<noteq> 0 then ack_loop env Timeout tickstart h4
               else Some (False, h4))"

declare ack_loop.simps [code]

definition NFC_WaitACK :: "wait_env \<Rightarrow> uint32 \<Rightarrow> i2c_handle \<Rightarrow> port_op list \<Rightarrow> (uint32 \<times> i2c_handle \<times> port_op list) option" where
  "NFC_WaitACK env Timeout hi2c h0 =
    (let h = h0 @ [Read_Tick]; tickstart = hal_tick env h in
     if State hi2c \<noteq> HAL_I2C_STATE_READY then Some (HAL_BUSY, hi2c, h)
     else let h1 = h @ [Read_ISR] in
       if isr_reg env h1 AND I2C_ISR_BUSY \<noteq> 0 then Some (HAL_BUSY, hi2c, h1)
       else if Lock hi2c then Some (HAL_BUSY, hi2c, h1)
       else let grabbed = hi2c\<lparr>Lock := True, State := HAL_I2C_STATE_BUSY, ErrorCode := 0\<rparr> in
         case ack_loop env Timeout tickstart h1 of
           None \<Rightarrow> None
         | Some (True, h2) \<Rightarrow> Some (HAL_OK, grabbed\<lparr>State := HAL_I2C_STATE_READY, Lock := False\<rparr>, h2)
         | Some (False, h2) \<Rightarrow> Some (HAL_ERROR, grabbed\<lparr>ErrorCode := ErrorCode grabbed OR 0x20,
             State := HAL_I2C_STATE_READY, Mode := 0, Lock := False\<rparr>, h2))"

text \<open>The wait ends when \<open>HAL_GetTick\<close> advances: after some number \<open>n\<close> of accesses, and for the next few, it shows that the
  time is over. (Later it may wrap around.)\<close>

definition ticks_reach :: "wait_env \<Rightarrow> uint32 \<Rightarrow> uint32 \<Rightarrow> nat \<Rightarrow> bool" where
  "ticks_reach env Timeout tickstart n \<longleftrightarrow> (\<forall>h. n \<le> length h \<and> length h < n + 6 \<longrightarrow> Timeout < hal_tick env h - tickstart)"

definition acked :: "wait_env \<Rightarrow> port_op list \<Rightarrow> bool" where
  \<comment> \<open>the last start ended with a STOP condition and without a NACK, and the STOP flag has been cleared\<close>
  "acked env h \<longleftrightarrow> (\<exists>h1. h = h1 @ [Read_ISR, Set_ICR I2C_ISR_STOPF] \<and>
     isr_reg env h1 AND I2C_ISR_STOPF \<noteq> 0 \<and> isr_reg env (h1 @ [Read_ISR]) AND I2C_ISR_NACKF = 0)"

definition over :: "wait_env \<Rightarrow> uint32 \<Rightarrow> uint32 \<Rightarrow> port_op list \<Rightarrow> bool" where
  \<comment> \<open>the last thing read is the clock, and the time is over\<close>
  "over env Timeout tickstart h \<longleftrightarrow> h \<noteq> [] \<and> last h = Read_Tick \<and> Timeout \<le> hal_tick env h - tickstart"

lemma wait_stop_returns:
  assumes "ticks_reach env Timeout tickstart n" "Timeout \<noteq> HAL_MAX_DELAY" "length h \<le> n"
  shows "\<exists>r h'. wait_stop env Timeout tickstart h = Some (r, h') \<and> length h < length h' \<and> length h' \<le> n + 2 \<and>
    (if r then isr_reg env h' AND I2C_ISR_STOPF \<noteq> 0 else over env Timeout tickstart h')"
  using assms(3)
proof (induction "n - length h" arbitrary: h rule: less_induct)
  case less
  let ?h = "h @ [Read_ISR, Read_Tick]"
  consider (stop) "isr_reg env (h @ [Read_ISR]) AND I2C_ISR_STOPF \<noteq> 0"
    | (out) "isr_reg env (h @ [Read_ISR]) AND I2C_ISR_STOPF = 0" "Timeout < hal_tick env ?h - tickstart \<or> Timeout = 0"
    | (again) "isr_reg env (h @ [Read_ISR]) AND I2C_ISR_STOPF = 0" "\<not> Timeout < hal_tick env ?h - tickstart" "Timeout \<noteq> 0"
    by blast
  then show ?case
  proof cases
    case stop
    then show ?thesis using less.prems
      by (intro exI [of _ True] exI [of _ "h @ [Read_ISR]"], subst wait_stop.simps) (simp add: Let_def)
  next
    case out
    then have "over env Timeout tickstart ?h" by (auto simp: over_def)
    with out show ?thesis using less.prems assms(2)
      by (intro exI [of _ False] exI [of _ ?h], subst wait_stop.simps) (simp add: Let_def)
  next
    case again
    then have "\<not> (n \<le> length ?h \<and> length ?h < n + 6)" using assms(1) unfolding ticks_reach_def by blast
    then have "n - length ?h < n - length h" "length ?h \<le> n" using less.prems by auto
    from less.hyps [OF this] obtain r h' where
      "wait_stop env Timeout tickstart ?h = Some (r, h')" "length h + 2 < length h'" "length h' \<le> n + 2"
      "if r then isr_reg env h' AND I2C_ISR_STOPF \<noteq> 0 else over env Timeout tickstart h'"
      by auto
    with again assms(2) show ?thesis
      by (intro exI [of _ r] exI [of _ h'], subst wait_stop.simps) (simp add: Let_def)
  qed
qed

lemma ack_loop_returns:
  assumes "ticks_reach env Timeout tickstart n" "Timeout \<noteq> HAL_MAX_DELAY" "length h < n"
  shows "\<exists>r h'. ack_loop env Timeout tickstart h = Some (r, h') \<and> (if r then acked env h' else over env Timeout tickstart h')"
  using assms(3)
proof (induction "n - length h" arbitrary: h rule: less_induct)
  case less
  obtain stopped h1 where w: "wait_stop env Timeout tickstart (h @ [Write_CR2 0x020020A6]) = Some (stopped, h1)"
    "length h + 1 < length h1" "length h1 \<le> n + 2"
    "if stopped then isr_reg env h1 AND I2C_ISR_STOPF \<noteq> 0 else over env Timeout tickstart h1"
    using wait_stop_returns [OF assms(1,2), of "h @ [Write_CR2 0x020020A6]"] less.prems by auto
  let ?h4 = "h1 @ [Read_ISR, Set_ICR (I2C_ISR_NACKF OR I2C_ISR_STOPF), Read_Tick]"
  consider (stop) "\<not> stopped" | (ack) "stopped" "isr_reg env (h1 @ [Read_ISR]) AND I2C_ISR_NACKF = 0"
    | (again) "stopped" "isr_reg env (h1 @ [Read_ISR]) AND I2C_ISR_NACKF \<noteq> 0" "hal_tick env ?h4 - tickstart < Timeout"
    | (out) "stopped" "isr_reg env (h1 @ [Read_ISR]) AND I2C_ISR_NACKF \<noteq> 0" "\<not> hal_tick env ?h4 - tickstart < Timeout"
    by blast
  then show ?case
  proof cases
    case again
    then have "\<not> (n \<le> length ?h4 \<and> length ?h4 < n + 6)" using assms(1) unfolding ticks_reach_def by (metis not_less_iff_gr_or_eq)
    then have "n - length ?h4 < n - length h" "length ?h4 < n" using w(2,3) by auto
    from less.hyps [OF this] obtain r h' where "ack_loop env Timeout tickstart ?h4 = Some (r, h')"
      "if r then acked env h' else over env Timeout tickstart h'" by blast
    moreover have "Timeout \<noteq> 0" using again(3) by auto
    ultimately show ?thesis using again w(1) assms(2)
      by (intro exI [of _ r] exI [of _ h'], subst ack_loop.simps) (simp add: Let_def)
  next
    case stop
    with w show ?thesis by (intro exI [of _ False] exI [of _ h1], subst ack_loop.simps) simp
  next
    case ack
    with w(1,4) have "acked env (h1 @ [Read_ISR, Set_ICR I2C_ISR_STOPF])" by (auto simp: acked_def)
    with ack w(1) show ?thesis
      by (intro exI [of _ True] exI [of _ "h1 @ [Read_ISR, Set_ICR I2C_ISR_STOPF]"], subst ack_loop.simps) (simp add: Let_def)
  next
    case out
    then have "over env Timeout tickstart ?h4" by (simp add: over_def not_less)
    with out w(1) assms(2) show ?thesis
      by (intro exI [of _ False] exI [of _ ?h4], subst ack_loop.simps) (simp add: Let_def)
  qed
qed

definition i2c_busy :: "wait_env \<Rightarrow> i2c_handle \<Rightarrow> port_op list \<Rightarrow> bool" where
  "i2c_busy env i h0 \<longleftrightarrow> State i \<noteq> HAL_I2C_STATE_READY \<or> Lock i \<or> isr_reg env (h0 @ [Read_Tick, Read_ISR]) AND I2C_ISR_BUSY \<noteq> 0"

lemma WaitACK_facts:
  assumes "ticks_reach env Timeout (hal_tick env (h0 @ [Read_Tick])) n" "Timeout \<noteq> HAL_MAX_DELAY"
    "length h0 + 2 < n"
  obtains (busy) h where "NFC_WaitACK env Timeout i h0 = Some (HAL_BUSY, i, h)" "i2c_busy env i h0"
  | (found) h where "NFC_WaitACK env Timeout i h0 = Some (HAL_OK, i\<lparr>ErrorCode := 0\<rparr>, h)" "\<not> i2c_busy env i h0" "acked env h"
  | (timeout) h where "NFC_WaitACK env Timeout i h0 = Some (HAL_ERROR, i\<lparr>Mode := 0, ErrorCode := 0x20\<rparr>, h)" "\<not> i2c_busy env i h0"
      "over env Timeout (hal_tick env (h0 @ [Read_Tick])) h"
proof (cases "i2c_busy env i h0")
  case True
  then show ?thesis by (intro busy [of "h0 @ (if State i \<noteq> HAL_I2C_STATE_READY then [Read_Tick] else [Read_Tick, Read_ISR])"])
    (auto simp: NFC_WaitACK_def Let_def i2c_busy_def)
next
  case False
  then have i: "State i = HAL_I2C_STATE_READY" "\<not> Lock i" by (auto simp: i2c_busy_def)
  then have "i\<lparr>State := HAL_I2C_STATE_READY, Lock := False\<rparr> = i" by (cases i) simp
  then have restored: "i\<lparr>State := HAL_I2C_STATE_READY, Lock := False, ErrorCode := 0\<rparr> = i\<lparr>ErrorCode := 0\<rparr>"
    "i\<lparr>State := HAL_I2C_STATE_READY, Lock := False, Mode := 0, ErrorCode := 0x20\<rparr> = i\<lparr>Mode := 0, ErrorCode := 0x20\<rparr>"
    by (metis, metis)
  obtain r h where r: "ack_loop env Timeout (hal_tick env (h0 @ [Read_Tick])) (h0 @ [Read_Tick, Read_ISR]) = Some (r, h)"
      "if r then acked env h else over env Timeout (hal_tick env (h0 @ [Read_Tick])) h"
    using ack_loop_returns [OF assms(1,2), of "h0 @ [Read_Tick, Read_ISR]"] assms(3) by auto
  have n: "isr_reg env (h0 @ [Read_Tick, Read_ISR]) AND I2C_ISR_BUSY = 0" using False by (simp add: i2c_busy_def)
  show ?thesis
  proof (cases r)
    case True
    with i n r False restored show ?thesis by (intro found) (simp_all add: NFC_WaitACK_def Let_def)
  next
    case f: False
    with i n r False restored show ?thesis by (intro timeout) (simp_all add: NFC_WaitACK_def Let_def)
  qed
qed

section \<open>A tag\<close>

text \<open>A tag as it is delivered, whose first answer is a failure and whose clock advances with every access.\<close>

definition tag_step :: "(uint16 \<Rightarrow> uint16 \<Rightarrow> uint8) \<Rightarrow> bus_op \<Rightarrow> uint16 \<Rightarrow> uint16 \<Rightarrow> uint8" where
  "tag_step regs op = (case op of
     Mem_Write dev a data \<Rightarrow>
       if dev = 0xAE \<and> a = ST25DV_I2CPASSWD_REG
       then (if data = replicate 8 0 @ [0x09] @ replicate 8 0
             then regs(0xA6 := (regs 0xA6)(ST25DV_I2C_SSO_DYN_REG := 1)) else regs)
       else if length data = 1 \<and> \<not> (dev = 0xAE \<and> a = ST25DV_ICREF_REG) then regs(dev := (regs dev)(a := data ! 0)) else regs
   | _ \<Rightarrow> regs)"

definition new_tag :: "uint16 \<Rightarrow> uint16 \<Rightarrow> uint8" where
  "new_tag = (\<lambda>_ _. 0)(0xAE := (\<lambda>_. 0)(ST25DV_ICREF_REG := 0x24, ST25DV_GPO_REG := 0x88, ST25DV_MB_WDG_REG := 7))"

definition tag_example :: tag_env where
  "tag_example = \<lparr>status_after = (\<lambda>h. if length h = 1 then 1 else 0),
     data_after = (\<lambda>h i. case last h of Mem_Read dev reg n \<Rightarrow> foldl tag_step new_tag h dev (reg + of_nat i) | _ \<Rightarrow> 0),
     tick_after = (\<lambda>h. of_nat (length h))\<rparr>"

definition tag_at_rest :: tag_state where
  "tag_at_rest = \<lparr>accesses = [], IsInitialized = False\<rparr>"




lemma closed_session_is_reported_as_success:
  \<comment> \<open>a tag with another password\<close>
  "\<exists>env t. NFC_Init env tag_at_rest = Some (Inl 0, t)"
proof -
  let ?env = "tag_example\<lparr>data_after := (\<lambda>h i. case last h of Mem_Read dev reg n \<Rightarrow> new_tag dev (reg + of_nat i) | _ \<Rightarrow> 0)\<rparr>"
  have "map_option fst (NFC_Init ?env tag_at_rest) = Some (Inl 0)" by code_simp
  then obtain r where "NFC_Init ?env tag_at_rest = Some r" "fst r = Inl 0" unfolding map_option_eq_Some by blast
  then have "NFC_Init ?env tag_at_rest = Some (Inl 0, snd r)" by (cases r) simp
  then show ?thesis by blast
qed

section \<open>Properties\<close>



text \<open>
  A transfer with the tag succeeds if and only if one of at most four attempts does, the first that
  succeeds being the last access: 5 ms are waited after the first failure and 50 ms after the others. When all four fail
  the bus is restarted and the error code is not 0.
\<close>
theorem transfer_retries:
  "case transfer op env s of (r, t) \<Rightarrow>
    if r = 0 then \<exists>k<4. accesses t = accesses s @ tries op k \<and> status_after env (accesses t) = 0 \<and>
        (\<forall>j<k. status_after env (accesses s @ tries op j) \<noteq> 0)
    else (\<forall>j<4. status_after env (accesses s @ tries op j) \<noteq> 0) \<and>
        accesses t = accesses s @ tries op 3 @ [Wait_ACK 50, I2C_Restart]"
  by (cases rule: transfer_cases [of env s op]) auto

theorem transfer_retries_witness:
  "\<exists>t. transfer I2C_Restart tag_example tag_at_rest = (0, t) \<and> (\<exists>k<4. accesses t = tries I2C_Restart k)"
proof -
  have "fst (transfer I2C_Restart tag_example tag_at_rest) = 0" by code_simp
  with transfer_retries [where op = I2C_Restart and env = tag_example and s = tag_at_rest] show ?thesis
    by (auto simp: tag_at_rest_def split: prod.splits)
qed

text \<open>
  C40. For every timeout but \<open>HAL_MAX_DELAY\<close>, once the clock passes the timeout, \<open>NFC_WaitACK\<close> returns.
  It reports the bus as busy, and leaves the handle alone, exactly when the handle is not ready or locked or the peripheral is
  busy. Otherwise the handle is ready and unlocked afterwards, as before, and there are two ends: \<open>HAL_OK\<close>, only after a start
  that was followed by a STOP condition without a NACK, whose flag is cleared last; or \<open>HAL_ERROR\<close>, only after the clock showed
  that the timeout is over, which the handle records as its error.
\<close>
theorem NFC_WaitACK_releases_bus:
  assumes "ticks_reach env Timeout (hal_tick env (h0 @ [Read_Tick])) n" "Timeout \<noteq> HAL_MAX_DELAY" "length h0 + 2 < n"
  shows "\<exists>r j h. NFC_WaitACK env Timeout i h0 = Some (r, j, h) \<and>
    (if i2c_busy env i h0 then r = HAL_BUSY \<and> j = i
     else State j = HAL_I2C_STATE_READY \<and> \<not> Lock j \<and>
       (r = HAL_OK \<and> j = i\<lparr>ErrorCode := 0\<rparr> \<and> acked env h \<or>
        r = HAL_ERROR \<and> j = i\<lparr>Mode := 0, ErrorCode := 0x20\<rparr> \<and> over env Timeout (hal_tick env (h0 @ [Read_Tick])) h))"
  by (rule WaitACK_facts [OF assms, of i]) (auto simp: i2c_busy_def)

theorem NFC_WaitACK_releases_bus_witness:
  "\<exists>r j h. NFC_WaitACK \<lparr>isr_reg = \<lambda>h. 0, hal_tick = \<lambda>h. of_nat (length h)\<rparr> 5
      \<lparr>State = HAL_I2C_STATE_READY, Lock = False, Mode = 0, ErrorCode = 0\<rparr> [] = Some (r, j, h) \<and> r = HAL_ERROR \<and> \<not> Lock j"
proof -
  let ?env = "\<lparr>isr_reg = \<lambda>h. 0, hal_tick = \<lambda>h. of_nat (length h)\<rparr>" and
    ?i = "\<lparr>State = HAL_I2C_STATE_READY, Lock = False, Mode = 0, ErrorCode = 0\<rparr>"
  have r: "map_option fst (NFC_WaitACK ?env 5 ?i []) = Some HAL_ERROR" by code_simp
  have "5 < (of_nat k :: uint32) - 1" if "7 \<le> k" "k < 13" for k
  proof -
    have "k = 7 \<or> k = 8 \<or> k = 9 \<or> k = 10 \<or> k = 11 \<or> k = 12" using that by arith
    then show ?thesis by auto
  qed
  then have "ticks_reach ?env 5 (hal_tick ?env ([] @ [Read_Tick])) 7" by (simp add: ticks_reach_def)
  moreover have "(5 :: uint32) \<noteq> HAL_MAX_DELAY" by (simp add: HAL_MAX_DELAY_def)
  ultimately show ?thesis
    using NFC_WaitACK_releases_bus [of ?env 5 "[]" 7 ?i] r
    by (auto simp: HAL_BUSY_def HAL_ERROR_def i2c_busy_def acked_def)
qed

end
