(* ===== verification/Session_Store.thy ===== *)
theory Session_Store
  imports Eeprom_Memory Board_Utilities
begin

unbundle bit_operations_syntax

text \<open>
  How the LoRaWAN session survives a reset: the stack marks what has changed (\<open>LoRaMacHandleNvm\<close> of
  \<^verbatim>\<open>src/Drivers/LoRaMac-node/mac/LoRaMac.c\<close>), \<^verbatim>\<open>common/NvmDataMgmt.c\<close> stores and restores it through
  \<^verbatim>\<open>system/nvmm.c\<close> and \<^verbatim>\<open>boards/eeprom-board.c\<close>. The context \<open>LoRaMacNvmData_t\<close> is the list of the bytes of its
  seven groups, each of which ends with its checksum; the groups follow each other without padding, as the offsets of
  \<open>NvmDataMgmtStore\<close> presuppose. As in \<open>Eeprom_Memory\<close>, the parameter \<open>ok\<close> says at which addresses programming works, and
  unlocking always succeeds.
\<close>

section \<open>EEPROM\<close>

definition EEPROM_LORA :: nat where "EEPROM_LORA = 0x10"
definition EEPROM_LORA_END :: nat where "EEPROM_LORA_END = 0x1000"

fun program_bytes :: "(nat \<Rightarrow> bool) \<Rightarrow> nat \<Rightarrow> bytes \<Rightarrow> memory \<Rightarrow> memory" where
  \<comment> \<open>stops at the first failure\<close>
  "program_bytes ok a [] mem = mem"
| "program_bytes ok a (b # bs) mem = (if ok a then program_bytes ok (a + 1) bs (mem(a := b)) else mem)"

definition EepromMcuWriteBuffer :: "(nat \<Rightarrow> bool) \<Rightarrow> nat \<Rightarrow> bytes \<Rightarrow> memory \<Rightarrow> bool \<times> memory" where
  \<comment> \<open>reports success whether or not the bytes were programmed\<close>
  "EepromMcuWriteBuffer ok addr buffer mem = (True, program_bytes ok (EEPROM_LORA + addr) buffer mem)"

definition EepromMcuReadBuffer :: "nat \<Rightarrow> nat \<Rightarrow> memory \<Rightarrow> bool \<times> bytes" where
  "EepromMcuReadBuffer addr len mem = (True, read_bytes mem (EEPROM_LORA + addr) len)"

definition NvmmWrite :: "(nat \<Rightarrow> bool) \<Rightarrow> bytes \<Rightarrow> nat \<Rightarrow> memory \<Rightarrow> nat \<times> memory" where
  "NvmmWrite ok src offset mem = (case EepromMcuWriteBuffer ok offset src mem of
     (r, mem') \<Rightarrow> (if r then length src else 0, mem'))"

definition NvmmRead :: "nat \<Rightarrow> nat \<Rightarrow> memory \<Rightarrow> nat \<times> bytes" where
  "NvmmRead len offset mem = (case EepromMcuReadBuffer offset len mem of (r, bs) \<Rightarrow> (if r then len else 0, bs))"

fun crc_loop :: "nat \<Rightarrow> nat \<Rightarrow> memory \<Rightarrow> uint32 \<Rightarrow> uint32 option" where
  \<comment> \<open>byte by byte; \<open>None\<close> is \<open>return false\<close>\<close>
  "crc_loop 0 a mem crc = Some crc"
| "crc_loop (Suc n) a mem crc = (case NvmmRead 1 a mem of
     (k, data) \<Rightarrow> if k \<noteq> 1 then None else crc_loop n (a + 1) mem (Crc32Update crc (Some data) 1))"

definition NvmmCrc32Check :: "nat \<Rightarrow> nat \<Rightarrow> memory \<Rightarrow> bool" where
  "NvmmCrc32Check len offset mem =
    (case NvmmRead 4 (offset + (len - 4)) mem of (k, stored) \<Rightarrow>
       if k = 4 then case crc_loop (len - 4) offset mem Crc32Init of
           None \<Rightarrow> False | Some crc \<Rightarrow> Crc32Finalize crc = of_le32 stored
       else True)"

definition NvmmReset :: "(nat \<Rightarrow> bool) \<Rightarrow> nat \<Rightarrow> nat \<Rightarrow> memory \<Rightarrow> bool \<times> memory" where
  "NvmmReset ok len offset mem = EepromMcuWriteBuffer ok (offset + len - 4) (le32 0) mem"

section \<open>The stack\<close>

record session =
  Nvm :: "bytes list"
  MacState :: uint32
  AllowRequests :: bool
  RxProcessPending :: bool
  NvmNotifyFlags :: uint16

definition LORAMAC_IDLE :: uint32 where "LORAMAC_IDLE = 0"
definition LORAMAC_STOPPED :: uint32 where "LORAMAC_STOPPED = 1"

definition LoRaMacIsBusy :: "session \<Rightarrow> bool" where
  "LoRaMacIsBusy s = (RxProcessPending s \<or> \<not> (MacState s = LORAMAC_IDLE \<and> AllowRequests s))"

definition LoRaMacStart :: "session \<Rightarrow> session" where
  "LoRaMacStart s = s\<lparr>MacState := LORAMAC_IDLE\<rparr>"

definition LoRaMacStop :: "session \<Rightarrow> session \<times> bool" where
  \<comment> \<open>whether the status is \<open>LORAMAC_STATUS_OK\<close>\<close>
  "LoRaMacStop s = (if \<not> LoRaMacIsBusy s then (s\<lparr>MacState := LORAMAC_STOPPED\<rparr>, True) else (s, MacState s = LORAMAC_STOPPED))"

definition group_body :: "bytes \<Rightarrow> bytes" where "group_body g = take (length g - 4) g"
definition group_crc :: "bytes \<Rightarrow> uint32" where "group_crc g = of_le32 (drop (length g - 4) g)"

definition update_group :: "bytes \<Rightarrow> bytes \<times> bool" where
  "update_group g = (let crc = Crc32 (Some g) (of_nat (length g - 4)) in
     if crc \<noteq> group_crc g then (group_body g @ le32 crc, True) else (g, False))"

fun update_groups :: "nat \<Rightarrow> bytes list \<Rightarrow> bytes list \<times> uint16" where
  \<comment> \<open>\<open>LORAMAC_NVM_NOTIFY_FLAG_CRYPTO\<close> to \<open>_CLASS_B\<close> are the bits 0 to 6\<close>
  "update_groups i [] = ([], 0)"
| "update_groups i (g # gs) = (case (update_group g, update_groups (Suc i) gs) of
     ((g', changed), (gs', flags)) \<Rightarrow> (g' # gs', (if changed then push_bit i 1 else 0) OR flags))"

definition NvmDataMgmtEvent :: "uint16 \<Rightarrow> session \<Rightarrow> session" where
  "NvmDataMgmtEvent notifyFlags s = s\<lparr>NvmNotifyFlags := notifyFlags\<rparr>"

definition LoRaMacHandleNvm :: "session \<Rightarrow> session" where
  \<comment> \<open>the callback is \<open>LRW_SaveNvm\<close>, of which this is the first statement\<close>
  "LoRaMacHandleNvm s =
    (if MacState s \<noteq> LORAMAC_IDLE then s
     else case update_groups 0 (Nvm s) of (gs, flags) \<Rightarrow> NvmDataMgmtEvent flags (s\<lparr>Nvm := gs\<rparr>))"

section \<open>Storing and restoring\<close>

fun store_groups :: "(nat \<Rightarrow> bool) \<Rightarrow> uint16 \<Rightarrow> nat \<Rightarrow> nat \<Rightarrow> bytes list \<Rightarrow> memory \<Rightarrow> nat \<times> memory" where
  "store_groups ok flags i offset [] mem = (0, mem)"
| "store_groups ok flags i offset (g # gs) mem =
    (case if flags AND push_bit i 1 = push_bit i 1 then NvmmWrite ok g offset mem else (0, mem) of
       (n, mem') \<Rightarrow> case store_groups ok flags (Suc i) (offset + length g) gs mem' of
         (m, mem'') \<Rightarrow> (n + m, mem''))"

definition NvmDataMgmtStore :: "(nat \<Rightarrow> bool) \<Rightarrow> session \<Rightarrow> memory \<Rightarrow> uint16 \<times> session \<times> memory" where
  "NvmDataMgmtStore ok s mem =
    (if NvmNotifyFlags s = 0 then (0, s, mem)
     else case LoRaMacStop s of (s1, stopped) \<Rightarrow>
       if \<not> stopped then (0, s1, mem)
       else case store_groups ok (NvmNotifyFlags s1) 0 0 (Nvm s1) mem of
         (n, mem') \<Rightarrow> (of_nat n, LoRaMacStart (s1\<lparr>NvmNotifyFlags := 0\<rparr>), mem'))"

fun check_groups :: "nat \<Rightarrow> nat list \<Rightarrow> memory \<Rightarrow> bool" where
  "check_groups offset [] mem = True"
| "check_groups offset (n # ns) mem = (NvmmCrc32Check n offset mem \<and> check_groups (offset + n) ns mem)"

fun split_groups :: "nat list \<Rightarrow> bytes \<Rightarrow> bytes list" where
  "split_groups [] bs = []"
| "split_groups (n # ns) bs = take n bs # split_groups ns (drop n bs)"

definition NvmDataMgmtRestore :: "memory \<Rightarrow> session \<Rightarrow> uint16 \<times> session" where
  "NvmDataMgmtRestore mem s =
    (let sizes = map length (Nvm s) in
     if \<not> check_groups 0 sizes mem then (0, s)
     else case NvmmRead (sum_list sizes) 0 mem of (k, bs) \<Rightarrow>
       if k = sum_list sizes then (of_nat (sum_list sizes), s\<lparr>Nvm := split_groups sizes bs\<rparr>)
       else (0, s\<lparr>Nvm := split_groups sizes bs\<rparr>))"

fun reset_groups :: "(nat \<Rightarrow> bool) \<Rightarrow> nat \<Rightarrow> nat list \<Rightarrow> memory \<Rightarrow> bool \<times> memory" where
  "reset_groups ok offset [] mem = (True, mem)"
| "reset_groups ok offset (n # ns) mem = (case NvmmReset ok n offset mem of
     (r, mem') \<Rightarrow> if \<not> r then (False, mem') else reset_groups ok (offset + n) ns mem')"

definition NvmDataMgmtFactoryReset :: "(nat \<Rightarrow> bool) \<Rightarrow> nat list \<Rightarrow> memory \<Rightarrow> bool \<times> memory" where
  "NvmDataMgmtFactoryReset ok sizes mem = reset_groups ok 0 sizes mem"

section \<open>What is in the memory\<close>

definition nvm_wf :: "bytes list \<Rightarrow> bool" where
  \<comment> \<open>the sizes of the groups; the sum by the \<open>static_assert\<close> of \<^verbatim>\<open>src/Inc/hardware.h\<close>\<close>
  "nvm_wf gs \<longleftrightarrow> length gs = 7 \<and> (\<forall>g \<in> set gs. 4 \<le> length g) \<and> sum_list (map length gs) < EEPROM_LORA_END - EEPROM_LORA"

definition group_ok :: "bytes \<Rightarrow> bool" where
  "group_ok g \<longleftrightarrow> 4 \<le> length g \<and> Crc32 (Some g) (of_nat (length g - 4)) = group_crc g"

fun image_at :: "nat \<Rightarrow> bytes list \<Rightarrow> memory \<Rightarrow> bool" where
  "image_at offset [] mem = True"
| "image_at offset (g # gs) mem = (read_bytes mem (EEPROM_LORA + offset) (length g) = g \<and> image_at (offset + length g) gs mem)"

lemma program_bytes_sound: "program_bytes (\<lambda>_. True) a bs mem = set_bytes a bs mem"
proof (induction bs arbitrary: a mem)
  case (Cons b bs)
  show ?case unfolding program_bytes.simps if_True Cons by (auto simp: set_bytes_def fun_eq_iff nth_Cons' less_diff_conv2)
qed (auto simp: set_bytes_def fun_eq_iff)

lemma program_bytes_frame: "x < a \<or> a + length bs \<le> x \<Longrightarrow> program_bytes ok a bs mem x = mem x"
  by (induction ok a bs mem rule: program_bytes.induct) auto

lemma read_bytes_cong: "(\<And>x. a \<le> x \<Longrightarrow> x < a + n \<Longrightarrow> mem x = mem' x) \<Longrightarrow> read_bytes mem a n = read_bytes mem' a n"
  by (auto simp: read_bytes_def)

lemma image_at_cong:
  "(\<And>x. EEPROM_LORA + offset \<le> x \<Longrightarrow> mem x = mem' x) \<Longrightarrow> image_at offset gs mem \<longleftrightarrow> image_at offset gs mem'"
proof (induction gs arbitrary: offset)
  case (Cons g gs)
  have "image_at (offset + length g) gs mem \<longleftrightarrow> image_at (offset + length g) gs mem'" by (rule Cons.IH) (simp add: Cons.prems)
  moreover have "read_bytes mem (EEPROM_LORA + offset) (length g) = read_bytes mem' (EEPROM_LORA + offset) (length g)"
    by (rule read_bytes_cong) (simp add: Cons.prems)
  ultimately show ?case by simp
qed simp

lemma crc_loop_bytes:
  "crc_loop n a mem crc = Some (crc_bytes (read_bytes mem (EEPROM_LORA + a) n) crc)"
proof (induction n arbitrary: a crc)
  case (Suc n)
  have "read_bytes mem (EEPROM_LORA + a) (Suc n) = mem (EEPROM_LORA + a) # read_bytes mem (EEPROM_LORA + (a + 1)) n"
    by (simp add: read_bytes_def upt_conv_Cons del: upt_Suc)
  with Suc show ?case by (simp add: NvmmRead_def EepromMcuReadBuffer_def Crc32Update_def read_bytes_def)
qed (simp add: read_bytes_def)

lemma NvmmCrc32Check_group:
  assumes "4 \<le> n" "n < 2 ^ 16"
  shows "NvmmCrc32Check n offset mem \<longleftrightarrow> group_ok (read_bytes mem (EEPROM_LORA + offset) n)"
proof -
  have u: "unat (of_nat (n - 4) :: uint16) = n - 4" using assms by (simp add: unsigned_of_nat take_bit_nat_eq_self del: of_nat_diff)
  show ?thesis
    using assms
    by (simp add: NvmmCrc32Check_def NvmmRead_def EepromMcuReadBuffer_def crc_loop_bytes group_ok_def group_crc_def
        drop_read_bytes take_read_bytes Crc32_def u Crc32Init_def Crc32Finalize_def add.assoc del: of_nat_diff)
qed

lemma check_groups_image:
  assumes "\<forall>n \<in> set ns. 4 \<le> n \<and> n < 2 ^ 16"
  shows "check_groups offset ns mem \<longleftrightarrow>
    (\<forall>g \<in> set (split_groups ns (read_bytes mem (EEPROM_LORA + offset) (sum_list ns))). group_ok g)"
  using assms
proof (induction ns arbitrary: offset)
  case (Cons n ns)
  then show ?case
    by (simp add: NvmmCrc32Check_group take_read_bytes drop_read_bytes add.assoc)
qed simp

lemma image_at_split: "image_at offset gs mem \<Longrightarrow> split_groups (map length gs) (read_bytes mem (EEPROM_LORA + offset) (sum_list (map length gs))) = gs"
  by (induction gs arbitrary: offset) (auto simp: take_read_bytes drop_read_bytes add.assoc)

lemma group_wf_size: "nvm_wf gs \<Longrightarrow> g \<in> set gs \<Longrightarrow> 4 \<le> length g \<and> length g < 2 ^ 16"
proof -
  assume "nvm_wf gs" "g \<in> set gs"
  moreover from this have "length g \<le> sum_list (map length gs)" by (intro member_le_sum_list) simp_all
  ultimately show ?thesis by (auto simp: nvm_wf_def EEPROM_LORA_END_def EEPROM_LORA_def)
qed

lemma restore_stored:
  assumes "nvm_wf gs" "image_at 0 gs mem" "\<forall>g \<in> set gs. group_ok g" "map length (Nvm s) = map length gs"
  shows "NvmDataMgmtRestore mem s = (of_nat (sum_list (map length gs)), s\<lparr>Nvm := gs\<rparr>)"
proof -
  have "split_groups (map length gs) (read_bytes mem EEPROM_LORA (sum_list (map length gs))) = gs"
    using image_at_split [OF assms(2)] by simp
  moreover from this have "check_groups 0 (map length gs) mem"
    using assms(3) group_wf_size [OF assms(1)] by (subst check_groups_image) auto
  ultimately show ?thesis
    using assms(4) by (simp add: NvmDataMgmtRestore_def Let_def NvmmRead_def EepromMcuReadBuffer_def)
qed

section \<open>Storing what has changed\<close>

lemma flag_bit: "((flags :: uint16) AND push_bit i 1 = push_bit i 1) \<longleftrightarrow> bit flags i \<or> 16 \<le> i"
proof
  assume "flags AND push_bit i 1 = push_bit i 1"
  then have "bit (flags AND push_bit i 1) i = bit (push_bit i 1 :: uint16) i" by simp
  then show "bit flags i \<or> 16 \<le> i" by (auto simp: bit_simps)
qed (auto intro!: bit_eqI simp: bit_simps)

lemma store_groups_frame:
  "x < EEPROM_LORA + offset \<or> EEPROM_LORA + offset + sum_list (map length gs) \<le> x \<Longrightarrow>
    snd (store_groups ok flags i offset gs mem) x = mem x"
  by (induction ok flags i offset gs mem rule: store_groups.induct)
    (auto simp: NvmmWrite_def EepromMcuWriteBuffer_def program_bytes_frame split: prod.splits if_splits)

lemmas store_groups_before = store_groups_frame [OF disjI1]

lemma store_groups_Cons:
  "snd (store_groups sound flags i offset (g # gs) mem) =
    snd (store_groups sound flags (Suc i) (offset + length g) gs
      (if bit flags i \<or> 16 \<le> i then set_bytes (EEPROM_LORA + offset) g mem else mem))"
  unfolding store_groups.simps flag_bit
  by (simp add: NvmmWrite_def EepromMcuWriteBuffer_def program_bytes_sound split: prod.split)

lemma store_groups_image:
  assumes "list_all2 (\<lambda>g0 g. length g0 = length g) gs0 gs" "image_at offset gs0 mem"
    and "\<forall>j<length gs. \<not> bit flags (i + j) \<longrightarrow> gs ! j = gs0 ! j"
  shows "image_at offset gs (snd (store_groups sound flags i offset gs mem))"
  using assms
proof (induction gs0 gs arbitrary: i offset mem rule: list_all2_induct)
  case (Cons g0 gs0 g gs)
  let ?mem = "if bit flags i \<or> 16 \<le> i then set_bytes (EEPROM_LORA + offset) g mem else mem"
  let ?final = "snd (store_groups sound flags (Suc i) (offset + length g) gs ?mem)"
  have rest: "image_at (offset + length g) gs ?final"
  proof (rule Cons.IH)
    show "image_at (offset + length g) gs0 ?mem"
      using Cons.prems(1) Cons.hyps(1) image_at_cong [of "offset + length g" mem ?mem gs0] by (auto simp: set_bytes_def)
    show "\<forall>j<length gs. \<not> bit flags (Suc i + j) \<longrightarrow> gs ! j = gs0 ! j"
      using Cons.prems(2) by (metis Suc_less_eq add_Suc_shift length_Cons nth_Cons_Suc)
  qed
  have "read_bytes ?mem (EEPROM_LORA + offset) (length g) = g"
    using Cons.prems Cons.hyps(1) by (auto dest: spec [of _ 0])
  moreover have "read_bytes ?final (EEPROM_LORA + offset) (length g) = read_bytes ?mem (EEPROM_LORA + offset) (length g)"
    by (rule read_bytes_cong) (rule store_groups_before, simp)
  ultimately have "read_bytes ?final (EEPROM_LORA + offset) (length g) = g" by simp
  with rest show ?case
    unfolding store_groups_Cons by simp
qed simp

section \<open>Marking what has changed\<close>

lemma Crc32_prefix: "n \<le> length g \<Longrightarrow> n < 2 ^ 16 \<Longrightarrow> Crc32 (Some (take n g @ h)) (of_nat n) = Crc32 (Some g) (of_nat n)"
proof -
  assume "n \<le> length g" "n < 2 ^ 16"
  moreover from this have "unat (of_nat n :: uint16) = n" by (simp add: unsigned_of_nat take_bit_nat_eq_self)
  ultimately show ?thesis by (simp add: Crc32_def min_def)
qed

lemma update_group_facts:
  assumes "4 \<le> length g" "length g < 2 ^ 16"
  shows "group_ok (fst (update_group g))" "length (fst (update_group g)) = length g"
    "group_body (fst (update_group g)) = group_body g" "\<not> snd (update_group g) \<Longrightarrow> fst (update_group g) = g"
    "snd (update_group g) \<longleftrightarrow> Crc32 (Some g) (of_nat (length g - 4)) \<noteq> group_crc g"
proof -
  have "Crc32 (Some (take (length g - 4) g @ h)) (of_nat (length g - 4)) = Crc32 (Some g) (of_nat (length g - 4))" for h
    by (rule Crc32_prefix) (use assms in auto)
  then show "group_ok (fst (update_group g))"
    using assms by (auto simp: update_group_def Let_def group_ok_def group_body_def group_crc_def simp del: of_nat_diff)
  show "length (fst (update_group g)) = length g" "group_body (fst (update_group g)) = group_body g"
    using assms by (auto simp: update_group_def Let_def group_body_def)
  show "\<not> snd (update_group g) \<Longrightarrow> fst (update_group g) = g"
    "snd (update_group g) \<longleftrightarrow> Crc32 (Some g) (of_nat (length g - 4)) \<noteq> group_crc g"
    by (auto simp: update_group_def Let_def split: if_splits)
qed

lemma update_groups_map: "fst (update_groups i gs) = map (fst \<circ> update_group) gs"
  by (induction i gs rule: update_groups.induct) (auto split: prod.split)

lemma update_groups_flags:
  "i + length gs \<le> 16 \<Longrightarrow> bit (snd (update_groups i gs)) n \<longleftrightarrow> i \<le> n \<and> n < i + length gs \<and> snd (update_group (gs ! (n - i)))"
proof (induction i gs rule: update_groups.induct)
  case (2 i g gs)
  then have "bit (snd (update_groups (Suc i) gs)) n \<longleftrightarrow> Suc i \<le> n \<and> n < Suc i + length gs \<and> snd (update_group (gs ! (n - Suc i)))"
    by simp
  with 2(2) show ?case
    by (cases "n = i") (auto simp: bit_simps nth_Cons' split: prod.splits)
qed simp

definition changed_visibly :: "bytes list \<Rightarrow> bytes list \<Rightarrow> bool" where
  \<comment> \<open>the stack has changed the contents of groups but not their checksums, and no change has the old checksum\<close>
  "changed_visibly gs0 gs \<longleftrightarrow> list_all2 (\<lambda>g0 g. length g = length g0 \<and>
     (g = g0 \<or> Crc32 (Some g) (of_nat (length g - 4)) \<noteq> group_crc g)) gs0 gs"

definition updated :: "bytes list \<Rightarrow> bytes list" where
  "updated gs = map (fst \<circ> update_group) gs"

lemma updated_facts:
  assumes "nvm_wf gs"
  shows "map length (updated gs) = map length gs" "\<forall>g \<in> set (updated gs). group_ok g"
    "map group_body (updated gs) = map group_body gs" "nvm_wf (updated gs)"
proof -
  have g: "group_ok (fst (update_group g))" "length (fst (update_group g)) = length g"
      "group_body (fst (update_group g)) = group_body g" if "g \<in> set gs" for g
    using update_group_facts group_wf_size [OF assms that] by auto
  then show 1: "map length (updated gs) = map length gs" and "\<forall>g \<in> set (updated gs). group_ok g"
    and "map group_body (updated gs) = map group_body gs" by (auto simp: updated_def)
  show "nvm_wf (updated gs)"
    using assms g(2) unfolding nvm_wf_def 1 by (auto simp: updated_def)
qed

lemma same_lengths: "map length xs = map length ys \<Longrightarrow> list_all2 (\<lambda>x y. length x = length y) xs ys"
  by (auto simp: list_all2_conv_all_nth dest: map_eq_imp_length_eq intro: nth_equalityI) (metis length_map nth_map)

lemma changed_visibly_sizes: "changed_visibly gs0 gs \<Longrightarrow> map length gs = map length gs0"
  by (auto simp: changed_visibly_def list_all2_conv_all_nth intro!: nth_equalityI)

lemma wf_sizes: "nvm_wf gs0 \<Longrightarrow> map length gs = map length gs0 \<Longrightarrow> nvm_wf gs"
  unfolding nvm_wf_def by (metis (mono_tags, lifting) length_map image_iff list.set_map)

lemma unflagged_unchanged:
  assumes "nvm_wf gs" "changed_visibly gs0 gs" "j < length gs" "\<not> bit (snd (update_groups 0 gs)) j"
  shows "updated gs ! j = gs0 ! j"
proof -
  have "\<not> snd (update_group (gs ! j))"
    using assms(1,3,4) update_groups_flags [of 0 gs j] by (simp add: nvm_wf_def)
  moreover have "gs ! j \<in> set gs" using assms(3) by simp
  ultimately have "fst (update_group (gs ! j)) = gs ! j" "Crc32 (Some (gs ! j)) (of_nat (length (gs ! j) - 4)) = group_crc (gs ! j)"
    using update_group_facts(4,5) group_wf_size [OF assms(1)] by blast+
  with assms(2,3) show ?thesis
    by (auto simp: changed_visibly_def list_all2_conv_all_nth updated_def simp del: of_nat_diff)
qed

lemma HandleNvm_idle:
  "MacState s = LORAMAC_IDLE \<Longrightarrow> LoRaMacHandleNvm s = s\<lparr>Nvm := updated (Nvm s), NvmNotifyFlags := snd (update_groups 0 (Nvm s))\<rparr>"
  using update_groups_map [of 0 "Nvm s"]
  by (auto simp: LoRaMacHandleNvm_def NvmDataMgmtEvent_def updated_def split: prod.split)

lemma handle_then_store:
  assumes wf: "nvm_wf gs0" and image: "image_at 0 gs0 mem" and changed: "changed_visibly gs0 (Nvm s)"
    and idle: "\<not> LoRaMacIsBusy s" and store: "NvmDataMgmtStore sound (LoRaMacHandleNvm s) mem = (n, s2, mem')"
  shows "s2 = s\<lparr>Nvm := updated (Nvm s), NvmNotifyFlags := 0\<rparr>" "image_at 0 (updated (Nvm s)) mem'"
proof -
  let ?gs = "updated (Nvm s)" and ?flags = "snd (update_groups 0 (Nvm s))"
  have wf': "nvm_wf (Nvm s)" using wf_sizes [OF wf changed_visibly_sizes [OF changed]] .
  have idle': "MacState s = LORAMAC_IDLE" "AllowRequests s" "\<not> RxProcessPending s" using idle by (auto simp: LoRaMacIsBusy_def)
  have sizes: "map length gs0 = map length ?gs" using updated_facts(1) [OF wf'] changed_visibly_sizes [OF changed] by simp
  have "length ?gs = length (Nvm s)" by (simp add: updated_def)
  then have "image_at 0 ?gs (snd (store_groups sound ?flags 0 0 ?gs mem))"
    using unflagged_unchanged [OF wf' changed] by (intro store_groups_image [OF same_lengths [OF sizes] image]) simp
  moreover have "?gs = gs0" if "?flags = 0"
    using unflagged_unchanged [OF wf' changed] that sizes by (intro nth_equalityI) (auto simp: updated_def dest: map_eq_imp_length_eq)
  ultimately show "s2 = s\<lparr>Nvm := updated (Nvm s), NvmNotifyFlags := 0\<rparr>" "image_at 0 ?gs mem'"
    using store image idle'
    by (auto simp: HandleNvm_idle NvmDataMgmtStore_def LoRaMacStop_def LoRaMacIsBusy_def LoRaMacStart_def split: if_splits prod.splits)
qed

lemma refused_store_is_forgotten:
  \<comment> \<open>the flags of a store that was refused are overwritten when the stack is handled again\<close>
  assumes "nvm_wf (Nvm s)" "MacState s = LORAMAC_IDLE" "RxProcessPending s"
    and "NvmDataMgmtStore ok (LoRaMacHandleNvm s) mem = (n, s2, mem')"
  shows "mem' = mem" "NvmNotifyFlags (LoRaMacHandleNvm s2) = 0"
proof -
  from assms(2-4) have s2: "mem' = mem" "Nvm s2 = updated (Nvm s)" "MacState s2 = LORAMAC_IDLE"
    by (auto simp: HandleNvm_idle NvmDataMgmtStore_def LoRaMacStop_def LoRaMacIsBusy_def LORAMAC_IDLE_def LORAMAC_STOPPED_def split: if_splits)
  then show "mem' = mem" by simp
  have "\<not> snd (update_group g)" if "g \<in> set (updated (Nvm s))" for g
    using updated_facts(2) [OF assms(1)] that by (auto simp: group_ok_def update_group_def Let_def)
  then have "\<not> bit (snd (update_groups 0 (updated (Nvm s)))) k" for k
    using updated_facts(4) [OF assms(1)] update_groups_flags [of 0 "updated (Nvm s)" k] by (auto simp: nvm_wf_def)
  then have "snd (update_groups 0 (updated (Nvm s))) = 0" by (intro bit_eqI) simp
  with s2 show "NvmNotifyFlags (LoRaMacHandleNvm s2) = 0" by (simp add: HandleNvm_idle)
qed

lemma of_nat_nonzero: "0 < n \<Longrightarrow> n < 2 ^ 16 \<Longrightarrow> (of_nat n :: uint16) \<noteq> 0"
proof
  assume n: "0 < n" "n < 2 ^ 16" and "(of_nat n :: uint16) = 0"
  then have "unat (of_nat n :: uint16) = 0" by simp
  with n show False by (simp add: unsigned_of_nat take_bit_nat_eq_self)
qed

lemma failed_write_is_success: "EepromMcuWriteBuffer (\<lambda>_. False) addr [b] mem = (True, mem)"
  by (simp add: EepromMcuWriteBuffer_def)

section \<open>An example\<close>

definition group_example :: "uint8 \<Rightarrow> bytes" where
  "group_example b = [b] @ le32 (Crc32 (Some [b]) 1)"

definition stored_example :: "bytes list" where
  "stored_example = map group_example [1, 2, 3, 4, 5, 6, 7]"

definition session_example :: session where
  \<comment> \<open>the first group has changed\<close>
  "session_example = \<lparr>Nvm = stored_example[0 := [9] @ drop 1 (group_example 1)], MacState = LORAMAC_IDLE, AllowRequests = True,
     RxProcessPending = False, NvmNotifyFlags = 0\<rparr>"

definition memory_example :: memory where
  "memory_example = set_bytes EEPROM_LORA (concat stored_example) (\<lambda>_. 0)"

lemma examples_ok:
  "nvm_wf stored_example" "image_at 0 stored_example memory_example" "changed_visibly stored_example (Nvm session_example)"
  "\<not> LoRaMacIsBusy session_example"
  by code_simp+

section \<open>Properties\<close>

text \<open>
  C11. The context of the LoRaWAN stack survives a reset: when the memory holds an earlier state and the
  stack has changed groups of it since (with other checksums), then after \<open>LoRaMacHandleNvm\<close> and \<open>NvmDataMgmtStore\<close>, which
  write the changed groups only, \<open>NvmDataMgmtRestore\<close> gives a freshly started stack all the groups back.
\<close>
theorem session_survives_reset:
  assumes "nvm_wf gs0" "image_at 0 gs0 mem" "changed_visibly gs0 (Nvm s)" "\<not> LoRaMacIsBusy s"
    and "NvmDataMgmtStore sound (LoRaMacHandleNvm s) mem = (n, s2, mem')" "map length (Nvm s0) = map length gs0"
  shows "snd (NvmDataMgmtRestore mem' s0) = s0\<lparr>Nvm := Nvm s2\<rparr> \<and> map group_body (Nvm s2) = map group_body (Nvm s) \<and>
    image_at 0 (Nvm s2) mem'"
proof -
  note s2 = handle_then_store [OF assms(1-5)]
  have wf: "nvm_wf (Nvm s)" by (rule wf_sizes [OF assms(1) changed_visibly_sizes [OF assms(3)]])
  note u = updated_facts [OF wf]
  have "map length (Nvm s0) = map length (updated (Nvm s))"
    using assms(6) changed_visibly_sizes [OF assms(3)] u(1) by simp
  from restore_stored [OF u(4) s2(2) u(2) this] show ?thesis using s2 u(3) by simp
qed

theorem session_survives_reset_witness:
  "\<exists>n s2 mem'. NvmDataMgmtStore sound (LoRaMacHandleNvm session_example) memory_example = (n, s2, mem') \<and>
    map group_body (Nvm (snd (NvmDataMgmtRestore mem' (session_example\<lparr>Nvm := replicate 7 [0, 0, 0, 0, 0]\<rparr>)))) = [[9], [2], [3], [4], [5], [6], [7]]"
proof -
  obtain n s2 mem' where st: "NvmDataMgmtStore sound (LoRaMacHandleNvm session_example) memory_example = (n, s2, mem')"
    by (metis prod_cases3)
  have l: "map length (Nvm (session_example\<lparr>Nvm := replicate 7 [0, 0, 0, 0, 0]\<rparr>)) = map length stored_example" by code_simp
  have b: "map group_body (Nvm session_example) = [[9], [2], [3], [4], [5], [6], [7]]" by code_simp
  from session_survives_reset [OF examples_ok st l] b st show ?thesis by simp
qed

text \<open>
  C17. Whatever the memory holds, \<open>NvmDataMgmtRestore\<close> reports success if and only if all seven groups
  have the checksum stored with them. Then the stack gets these groups; otherwise it is not touched.
\<close>
theorem restore_is_all_or_nothing:
  assumes "nvm_wf (Nvm s)"
  shows "let stored = split_groups (map length (Nvm s)) (read_bytes mem EEPROM_LORA (sum_list (map length (Nvm s))));
             (n, s') = NvmDataMgmtRestore mem s
    in (n \<noteq> 0 \<longleftrightarrow> (\<forall>g \<in> set stored. group_ok g)) \<and> s' = (if n \<noteq> 0 then s\<lparr>Nvm := stored\<rparr> else s)"
proof -
  let ?n = "sum_list (map length (Nvm s))"
  have "length (Nvm s) = 7" using assms by (simp add: nvm_wf_def)
  then have g: "Nvm s ! 0 \<in> set (Nvm s)" by simp
  then have "length (Nvm s ! 0) \<le> ?n" by (intro member_le_sum_list) simp_all
  moreover have "4 \<le> length (Nvm s ! 0)" "?n < 2 ^ 16" using assms g by (auto simp: nvm_wf_def EEPROM_LORA_def EEPROM_LORA_END_def)
  ultimately have "0 < ?n" "?n < 2 ^ 16" by linarith+
  then have "(of_nat ?n :: uint16) \<noteq> 0" by (rule of_nat_nonzero)
  moreover have "check_groups 0 (map length (Nvm s)) mem \<longleftrightarrow>
      (\<forall>g \<in> set (split_groups (map length (Nvm s)) (read_bytes mem EEPROM_LORA ?n)). group_ok g)"
    using group_wf_size [OF assms] by (subst check_groups_image) auto
  ultimately show ?thesis
    by (simp add: NvmDataMgmtRestore_def Let_def NvmmRead_def EepromMcuReadBuffer_def)
qed

theorem restore_is_all_or_nothing_witness:
  "snd (NvmDataMgmtRestore (\<lambda>_. 1) session_example) = session_example"
proof -
  have "nvm_wf (Nvm session_example)" by code_simp
  moreover have "fst (NvmDataMgmtRestore (\<lambda>_. 1) session_example) = 0" by code_simp
  ultimately show ?thesis using restore_is_all_or_nothing [of session_example "\<lambda>_. 1"] by (auto simp: Let_def split: prod.splits)
qed

text \<open>
  Storing the session, with whatever flash errors, only writes the area reserved for it: the boot
  mode, the password, its complement and the configuration of the device stay as they were.
\<close>
theorem session_store_is_confined:
  assumes "nvm_wf (Nvm s)" "NvmDataMgmtStore ok s mem = (n, s', mem')" "x < EEPROM_LORA \<or> EEPROM_LORA_END \<le> x"
  shows "mem' x = mem x"
proof -
  have "Nvm (fst (LoRaMacStop s)) = Nvm s" by (simp add: LoRaMacStop_def)
  moreover have "snd (store_groups ok f 0 0 (Nvm s) mem) x = mem x" for f
    by (rule store_groups_frame) (use assms(1,3) in \<open>auto simp: nvm_wf_def EEPROM_LORA_def EEPROM_LORA_END_def\<close>)
  ultimately show ?thesis
    using assms(2) by (auto simp: NvmDataMgmtStore_def split: prod.splits if_splits) (metis fst_conv snd_conv)+
qed

theorem session_store_is_confined_witness:
  "\<exists>n s' mem'. NvmDataMgmtStore sound (LoRaMacHandleNvm session_example) memory_example = (n, s', mem') \<and>
    mem' EEPROM_PW = memory_example EEPROM_PW \<and> mem' EEPROM_APP = memory_example EEPROM_APP"
proof -
  obtain n s2 mem' where st: "NvmDataMgmtStore sound (LoRaMacHandleNvm session_example) memory_example = (n, s2, mem')"
    by (metis prod_cases3)
  have wf: "nvm_wf (Nvm (LoRaMacHandleNvm session_example))" by code_simp
  from session_store_is_confined [OF wf st, of EEPROM_PW] session_store_is_confined [OF wf st, of EEPROM_APP] st
  show ?thesis by (simp add: EEPROM_LORA_def EEPROM_LORA_END_def EEPROM_PW_def EEPROM_APP_def)
qed

end
