(* ===== verification/Start_Up.thy ===== *)
theory Start_Up
  imports Main_Loop Session_Store
begin








section \<open>Properties\<close>



definition stored_session :: "bytes list \<Rightarrow> memory \<Rightarrow> bool" where
  \<comment> \<open>the groups \<open>gs\<close> of the context with their checksums, as \<open>NvmDataMgmtStore\<close> leaves them\<close>
  "stored_session gs mem \<longleftrightarrow> nvm_wf gs \<and> image_at 0 gs mem \<and> (\<forall>g \<in> set gs. group_ok g)"

lemma NvmDataMgmtStore_stores:
  assumes "nvm_wf gs0" "image_at 0 gs0 mem" "changed_visibly gs0 (Nvm s)" "\<not> LoRaMacIsBusy s"
    and "NvmDataMgmtStore sound (LoRaMacHandleNvm s) mem = (n, s2, mem')"
  shows "stored_session (Nvm s2) mem'"
  using handle_then_store [OF assms] updated_facts [OF wf_sizes [OF assms(1) changed_visibly_sizes [OF assms(3)]]]
  by (simp add: stored_session_def)








end
