(* ===== verification/Rtc_Board.thy ===== *)
theory Rtc_Board
  imports Rtc_Wakeup
begin

unbundle bit_operations_syntax

text \<open>
  The timer hardware under the LoRaWAN stack: \<^verbatim>\<open>src/Drivers/LoRaMac-node/boards/rtc-board.c\<close> counts the ticks (1/256 s) of
  the real-time clock from its calendar and programs its alarm, which is a time of a day of the month;
  \<^verbatim>\<open>boards/lpm-board.c\<close> keeps which users forbid the stop mode. The registers of the clock are \<open>rtc_regs\<close>, as in
  \<open>Rtc_Wakeup\<close>; they are taken as read without a change in between, which the loop around the read ensures, and hold a
  month from 1 to 12.
\<close>

section \<open>Ticks\<close>

definition PREDIV_S :: uint32 where "PREDIV_S = 255"
definition MIN_ALARM_DELAY :: uint32 where "MIN_ALARM_DELAY = 3"

definition DIVC :: "uint32 \<Rightarrow> uint32 \<Rightarrow> uint32" where
  "DIVC x n = (x + n - 1) div n"

definition month_correction :: "uint8 \<Rightarrow> uint32" where
  "month_correction year = (if year mod 4 = 0 then 0x445550 else 0x99AAA0)"

definition RtcGetCalendarValue :: "rtc_regs \<Rightarrow> uint64" where
  "RtcGetCalendarValue t =
    (let years = DIVC ((365 * 3 + 366) * ucast (rtc_year t)) 4;
         m = ucast (rtc_month t) - 1 :: uint32;
         months = DIVC (m * (30 + 31)) 2 - (drop_bit (unat (m * 2)) (month_correction (rtc_year t)) AND 3);
         days = years + months + (ucast (rtc_date t) - 1);
         seconds = days * 86400 + (ucast (rtc_seconds t) + ucast (rtc_minutes t) * 60 + ucast (rtc_hours t) * 3600)
     in push_bit 8 (ucast seconds) + ucast (PREDIV_S - SubSeconds t))"

definition RtcMs2Tick :: "uint32 \<Rightarrow> uint32" where
  "RtcMs2Tick milliseconds = ucast (ucast milliseconds * 32 div 125 :: uint64)"

definition RtcTick2Ms :: "uint32 \<Rightarrow> uint32" where
  "RtcTick2Ms tick = (let seconds = drop_bit 8 tick; tick = tick AND PREDIV_S in seconds * 1000 + drop_bit 8 (tick * 1000))"

definition RtcGetTimerValue :: "rtc_regs \<Rightarrow> uint32" where
  "RtcGetTimerValue t = ucast (RtcGetCalendarValue t)"

definition RtcGetCalendarTime :: "rtc_regs \<Rightarrow> uint32 \<times> uint16" where
  \<comment> \<open>seconds and milliseconds\<close>
  "RtcGetCalendarTime t = (let calendarValue = RtcGetCalendarValue t
     in (ucast (drop_bit 8 calendarValue), ucast (RtcTick2Ms (ucast calendarValue AND PREDIV_S))))"

definition RtcGetMinimumTimeout :: uint32 where
  "RtcGetMinimumTimeout = MIN_ALARM_DELAY"

section \<open>The alarm\<close>

record rtc_alarm =
  alarm_day :: uint8
  alarm_hours :: uint8
  alarm_minutes :: uint8
  alarm_seconds :: uint8
  alarm_sub :: uint32

record rtc_board =
  context_time :: uint32          \<comment> \<open>\<open>RtcTimerContext\<close>\<close>
  context_regs :: rtc_regs
  rtc_alarm_a :: "rtc_alarm option"
  StopModeDisable :: uint32

function carry :: "'a::len word \<Rightarrow> 'a word \<Rightarrow> 'b::len word \<Rightarrow> 'a word \<times> 'b word" where
  \<comment> \<open>\<open>while(x >= limit) { x -= limit; n++; }\<close>; the limits are constants, none of them 0\<close>
  "carry limit x n = (if limit \<noteq> 0 \<and> limit \<le> x then carry limit (x - limit) (n + 1) else (x, n))"
  by pat_completeness auto
termination
  by (relation "measure (\<lambda>(limit, x, n). unat x)") (auto simp: unat_sub word_le_nat_alt dest: unat_gt_0 [THEN iffD2])

declare carry.simps [simp del]

definition DaysInMonth :: bytes where "DaysInMonth = [31, 28, 31, 30, 31, 30, 31, 31, 30, 31, 30, 31]"
definition DaysInMonthLeapYear :: bytes where "DaysInMonthLeapYear = [31, 29, 31, 30, 31, 30, 31, 31, 30, 31, 30, 31]"

definition alarm_date :: "rtc_regs \<Rightarrow> uint16 \<Rightarrow> uint16" where
  "alarm_date t days =
    (let len = ucast ((if rtc_year t mod 4 = 0 then DaysInMonthLeapYear else DaysInMonth) ! (unat (rtc_month t) - 1))
     in if len < days then days mod len else days)"

definition RtcStartAlarm :: "uint32 \<Rightarrow> rtc_regs \<Rightarrow> rtc_alarm" where
  "RtcStartAlarm timeout t =
    (let sub = ucast (PREDIV_S - SubSeconds t) + ucast (timeout AND PREDIV_S) :: uint16;
         (rest1, days) = carry 86400 (drop_bit 8 timeout) (ucast (rtc_date t)) :: uint32 \<times> uint16;
         (rest2, hours) = carry 3600 rest1 (ucast (rtc_hours t)) :: uint32 \<times> uint16;
         (rest3, minutes) = carry 60 rest2 (ucast (rtc_minutes t)) :: uint32 \<times> uint16;
         seconds = ucast (rtc_seconds t) + ucast rest3 :: uint16;
         (sub, seconds) = carry 256 sub seconds;
         (seconds, minutes) = carry 60 seconds minutes;
         (minutes, hours) = carry 60 minutes hours;
         (hours, days) = carry 24 hours days
     in \<lparr>alarm_day = ucast (alarm_date t days), alarm_hours = ucast hours, alarm_minutes = ucast minutes,
         alarm_seconds = ucast seconds, alarm_sub = PREDIV_S - ucast sub\<rparr>)"

definition LPM_RTC_ID :: uint32 where "LPM_RTC_ID = 4"

definition LpmSetStopMode :: "uint32 \<Rightarrow> bool \<Rightarrow> rtc_board \<Rightarrow> rtc_board" where
  "LpmSetStopMode user enable b =
    b\<lparr>StopModeDisable := (if enable then StopModeDisable b AND NOT user else StopModeDisable b OR user)\<rparr>"

definition RtcSetTimerContext :: "rtc_regs \<Rightarrow> rtc_board \<Rightarrow> rtc_board" where
  "RtcSetTimerContext t b = b\<lparr>context_time := RtcGetTimerValue t, context_regs := t\<rparr>"

definition RtcGetTimerElapsedTime :: "rtc_regs \<Rightarrow> rtc_board \<Rightarrow> uint32" where
  "RtcGetTimerElapsedTime t b = RtcGetTimerValue t - context_time b"

definition RtcStopAlarm :: "rtc_board \<Rightarrow> rtc_board" where
  "RtcStopAlarm b = b\<lparr>rtc_alarm_a := None\<rparr>"

definition RtcSetAlarm :: "uint32 \<Rightarrow> rtc_regs \<Rightarrow> rtc_board \<Rightarrow> rtc_board" where
  "RtcSetAlarm timeout t b =
    (let b1 = LpmSetStopMode LPM_RTC_ID (MIN_ALARM_DELAY < timeout - RtcGetTimerElapsedTime t b) b
     in (RtcStopAlarm b1)\<lparr>rtc_alarm_a := Some (RtcStartAlarm timeout (context_regs b1))\<rparr>)"

definition RTC_IRQHandler :: "bool \<Rightarrow> bool \<Rightarrow> rtc_board \<times> bool \<Rightarrow> rtc_board \<times> bool" where
  \<comment> \<open>whether the interrupt of the alarm is enabled and pending; \<open>HAL_RTC_AlarmAEventCallback\<close> of \<^verbatim>\<open>main.c\<close> sets
    \<open>alarmVal\<close>. The wake-up timer, which shares the vector, is in \<open>Main_Loop\<close>\<close>
  "RTC_IRQHandler enabled pending = (\<lambda>(b, alarmVal). (LpmSetStopMode LPM_RTC_ID True b, alarmVal \<or> (enabled \<and> pending)))"

section \<open>Waiting\<close>

partial_function (option) delay_loop :: "(nat \<Rightarrow> rtc_regs) \<Rightarrow> uint64 \<Rightarrow> uint64 \<Rightarrow> nat \<Rightarrow> nat option" where
  \<comment> \<open>\<open>clk n\<close> are the registers at the \<open>n\<close>-th reading; the number of the last one is returned\<close>
  "delay_loop clk refTicks delayTicks n =
    (if ucast (RtcGetTimerValue (clk n)) - refTicks < delayTicks then delay_loop clk refTicks delayTicks (n + 1) else Some n)"

declare delay_loop.simps [code]

definition RtcDelayMs :: "(nat \<Rightarrow> rtc_regs) \<Rightarrow> uint32 \<Rightarrow> nat option" where
  "RtcDelayMs clk delay = delay_loop clk (ucast (RtcGetTimerValue (clk 0))) (ucast (RtcMs2Tick delay)) 1"

section \<open>What the clock does\<close>

definition rtc_tick :: "rtc_regs \<Rightarrow> rtc_regs" where
  \<comment> \<open>one tick later: the sub-second register counts down\<close>
  "rtc_tick t = (if SubSeconds t = 0 then (rtc_next t)\<lparr>SubSeconds := PREDIV_S\<rparr> else t\<lparr>SubSeconds := SubSeconds t - 1\<rparr>)"

definition rtc_running :: "rtc_regs \<Rightarrow> bool" where
  "rtc_running t \<longleftrightarrow> rtc_ok t \<and> SubSeconds t \<le> PREDIV_S"

definition shown :: "rtc_regs \<Rightarrow> rtc_alarm" where
  \<comment> \<open>what the alarm is compared with\<close>
  "shown t = \<lparr>alarm_day = rtc_date t, alarm_hours = rtc_hours t, alarm_minutes = rtc_minutes t,
     alarm_seconds = rtc_seconds t, alarm_sub = SubSeconds t\<rparr>"

section \<open>Counting days\<close>

definition rtc_days :: "rtc_regs \<Rightarrow> nat" where
  \<comment> \<open>since 1 January of year 0\<close>
  "rtc_days t = (let y = unat (rtc_year t) in 365 * y + (y + 3) div 4 +
     sum_list (take (unat (rtc_month t) - 1) (month_lengths (y mod 4 = 0))) + unat (rtc_date t) - 1)"

definition day_ticks :: "rtc_regs \<Rightarrow> nat" where
  "day_ticks t = (((unat (rtc_hours t) * 60 + unat (rtc_minutes t)) * 60 + unat (rtc_seconds t)) * 256 + 255) - unat (SubSeconds t)"

lemma carry_nat:
  assumes "limit \<noteq> 0"
  shows "carry limit x n = (of_nat (unat x mod unat limit), n + of_nat (unat x div unat limit))"
  using assms
proof (induction limit x n rule: carry.induct)
  case (1 limit x n)
  have l: "0 < unat limit" using 1(2) by (simp add: unat_gt_0)
  show ?case
  proof (cases "limit \<le> x")
    case True
    then have le: "unat limit \<le> unat x" and sub: "unat (x - limit) = unat x - unat limit"
      by (simp_all add: word_le_nat_alt unat_sub)
    with 1 True show ?thesis by (subst carry.simps) (simp add: sub le_div_geq [OF l le] le_mod_geq [OF le])
  next
    case False
    then show ?thesis by (subst carry.simps) (simp add: word_le_nat_alt not_le)
  qed
qed

lemma cast_nat: "(ucast w :: 'b::len word) = of_nat (unat w)" for w :: "'a::len word"
  by (simp add: of_nat_unat)

lemma unat_of_nat_small: "n < 2 ^ LENGTH('a) \<Longrightarrow> unat (of_nat n :: 'a::len word) = n"
  by (simp add: unat_of_nat)

lemma month_table:
  "list_all (\<lambda>k. DIVC (of_nat k * 61) 2 - (drop_bit (2 * k) (if l then 0x445550 else 0x99AAA0) AND 3) =
     of_nat (sum_list (take k (month_lengths l)))) [0..<12]"
  by (cases l) (simp only: if_True if_False, code_simp)+

lemma months_word:
  assumes "rtc_ok t"
  shows "DIVC ((ucast (rtc_month t) - 1) * (30 + 31)) 2 -
    (drop_bit (unat ((ucast (rtc_month t) - 1 :: uint32) * 2)) (month_correction (rtc_year t)) AND 3) =
    of_nat (sum_list (take (unat (rtc_month t) - 1) (month_lengths (unat (rtc_year t) mod 4 = 0))))"
proof -
  obtain k where k: "unat (rtc_month t) = Suc k" "k < 12"
    using assms by (cases "unat (rtc_month t)") (auto simp: rtc_ok_def word_less_nat_alt word_le_nat_alt)
  then have m: "(ucast (rtc_month t) - 1 :: uint32) = of_nat k" by (simp add: cast_nat del: of_nat_unat)
  have sh: "unat (of_nat k * 2 :: uint32) = 2 * k" using k(2) unat_of_nat_small [of "2 * k", where 'a = 32] by (simp add: mult.commute)
  have y: "rtc_year t mod 4 = 0 \<longleftrightarrow> unat (rtc_year t) mod 4 = 0" by (simp add: word_unat_eq_iff unat_mod)
  have t: "P k" if "list_all P [0..<12]" for P using that k(2) by (simp add: list_all_iff)
  show ?thesis unfolding m sh month_correction_def y using t [OF month_table] k(1) by simp
qed

lemma years_word:
  assumes "rtc_ok t"
  shows "DIVC ((365 * 3 + 366) * ucast (rtc_year t)) 4 = of_nat (365 * unat (rtc_year t) + (unat (rtc_year t) + 3) div 4)"
proof -
  let ?y = "unat (rtc_year t)"
  have y: "?y < 100" using assms by (simp add: rtc_ok_def word_less_nat_alt)
  have "((365 * 3 + 366) * ucast (rtc_year t) + 4 - 1 :: uint32) = of_nat (1461 * ?y + 3)" by (simp add: cast_nat del: of_nat_unat)
  moreover have "unat (of_nat (1461 * ?y + 3) :: uint32) = 1461 * ?y + 3" using y by (intro unat_of_nat_small) simp
  moreover have "(1461 * ?y + 3) div 4 = 365 * ?y + (?y + 3) div 4" by presburger
  ultimately show ?thesis by (simp only: DIVC_def word_arith_nat_div) simp
qed

lemma sum_month_bound: "k < 12 \<Longrightarrow> sum_list (take k (month_lengths l)) \<le> 366"
proof -
  assume "k < 12"
  moreover have "list_all (\<lambda>k. sum_list (take k (month_lengths l)) \<le> 366) [0..<12]"
    by (cases l) (simp only:, code_simp)+
  ultimately show ?thesis by (simp add: list_all_iff)
qed

lemma rtc_days_bound:
  assumes "rtc_ok t"
  shows "rtc_days t < 40000" "0 < unat (rtc_date t)"
proof -
  have "unat (rtc_year t) < 100" "unat (rtc_month t) - 1 < 12" "unat (rtc_date t) < 256"
    using assms unsigned_less [of "rtc_date t"] by (auto simp: rtc_ok_def word_less_nat_alt word_le_nat_alt)
  with sum_month_bound [OF this(2), of "unat (rtc_year t) mod 4 = 0"] show "rtc_days t < 40000"
    unfolding rtc_days_def Let_def by linarith
  show "0 < unat (rtc_date t)" using assms by (simp add: rtc_ok_def word_less_nat_alt)
qed

lemma clock_bound: "((h * 60 + m) * 60 + s) * 256 + 255 < 22118400" if "h < 24" "m < 60" "s < 60" for h m s :: nat
proof -
  have "h * 921600 \<le> 21196800" "m * 15360 \<le> 906240" "s * 256 \<le> 15104" using that by simp_all
  then show ?thesis by (simp add: algebra_simps)
qed

lemma RtcGetCalendarValue_ticks:
  assumes "rtc_running t"
  shows "unat (RtcGetCalendarValue t) = rtc_days t * 22118400 + day_ticks t" "day_ticks t < 22118400"
proof -
  have ok: "rtc_ok t" and sub: "unat (SubSeconds t) \<le> 255"
    using assms by (simp_all add: rtc_running_def PREDIV_S_def word_le_nat_alt)
  let ?h = "unat (rtc_hours t)" and ?m = "unat (rtc_minutes t)" and ?s = "unat (rtc_seconds t)" and ?d = "rtc_days t"
  have hms: "?h < 24" "?m < 60" "?s < 60" using ok by (simp_all add: rtc_ok_def word_less_nat_alt)
  define secs where "secs = ?d * 86400 + (?s + ?m * 60 + ?h * 3600)"
  have secs: "secs < 2 ^ 32" using rtc_days_bound(1) [OF ok] hms by (simp add: secs_def)
  have days: "of_nat (365 * unat (rtc_year t) + (unat (rtc_year t) + 3) div 4) +
      of_nat (sum_list (take (unat (rtc_month t) - 1) (month_lengths (unat (rtc_year t) mod 4 = 0)))) +
      (ucast (rtc_date t) - 1) = (of_nat ?d :: uint32)"
    using rtc_days_bound(2) [OF ok] by (simp add: rtc_days_def Let_def cast_nat of_nat_diff del: of_nat_unat)
  have all: "(of_nat ?d * 86400 + (ucast (rtc_seconds t) + ucast (rtc_minutes t) * 60 + ucast (rtc_hours t) * 3600) :: uint32) = of_nat secs"
    by (simp add: secs_def cast_nat del: of_nat_unat)
  have wide: "(ucast (of_nat secs :: uint32) :: uint64) = of_nat secs"
    using secs by (subst cast_nat) (simp add: unat_of_nat_small del: of_nat_unat)
  have v: "RtcGetCalendarValue t = push_bit 8 (of_nat secs) + ucast (PREDIV_S - SubSeconds t)"
    unfolding RtcGetCalendarValue_def Let_def years_word [OF ok] months_word [OF ok] days all wide by (rule refl)
  have p: "unat (PREDIV_S - SubSeconds t) = 255 - unat (SubSeconds t)"
    using sub by (simp add: PREDIV_S_def unat_sub word_le_nat_alt)
  have "push_bit 8 (of_nat secs) + ucast (PREDIV_S - SubSeconds t) = (of_nat (secs * 256 + (255 - unat (SubSeconds t))) :: uint64)"
    by (simp add: push_bit_eq_mult cast_nat p del: of_nat_unat of_nat_diff)
  moreover have "secs * 256 + (255 - unat (SubSeconds t)) < 2 ^ 64" using secs by simp
  ultimately have "unat (RtcGetCalendarValue t) = secs * 256 + (255 - unat (SubSeconds t))"
    using unat_of_nat_small [of "secs * 256 + (255 - unat (SubSeconds t))", where 'a = 64] unfolding v by simp
  also have "\<dots> = rtc_days t * 22118400 + day_ticks t" using sub by (simp add: secs_def day_ticks_def algebra_simps)
  finally show "unat (RtcGetCalendarValue t) = rtc_days t * 22118400 + day_ticks t" .
  show "day_ticks t < 22118400" unfolding day_ticks_def by (rule le_less_trans [OF diff_le_self]) (rule clock_bound [OF hms])
qed

section \<open>The clock, tick by tick\<close>

lemma rtc_ok_bounds:
  assumes "rtc_ok t"
  shows "unat (rtc_year t) < 100" "0 < unat (rtc_month t)" "unat (rtc_month t) \<le> 12"
    "0 < unat (rtc_date t)" "unat (rtc_date t) \<le> rtc_month_days t" "28 \<le> rtc_month_days t" "rtc_month_days t \<le> 31"
    "unat (rtc_hours t) < 24" "unat (rtc_minutes t) < 60" "unat (rtc_seconds t) < 60"
proof -
  show m: "0 < unat (rtc_month t)" "unat (rtc_month t) \<le> 12"
    using assms by (simp_all add: rtc_ok_def word_less_nat_alt word_le_nat_alt)
  show "28 \<le> rtc_month_days t" "rtc_month_days t \<le> 31"
    using month_cases [OF m] by (auto simp: rtc_month_days_def month_lengths_def)
qed (use assms in \<open>simp_all add: rtc_ok_def word_less_nat_alt word_le_nat_alt\<close>)

lemma next_day_cases:
  assumes "rtc_ok t"
  obtains (same) "unat (rtc_date t) < rtc_month_days t" "rtc_next_day t = t\<lparr>rtc_date := rtc_date t + 1\<rparr>"
      "unat (rtc_date t + 1) = unat (rtc_date t) + 1"
  | (month) "unat (rtc_date t) = rtc_month_days t" "unat (rtc_month t) < 12"
      "rtc_next_day t = t\<lparr>rtc_date := 1, rtc_month := rtc_month t + 1\<rparr>" "unat (rtc_month t + 1) = unat (rtc_month t) + 1"
  | (year) "unat (rtc_date t) = rtc_month_days t" "unat (rtc_month t) = 12" "unat (rtc_year t) < 99"
      "rtc_next_day t = t\<lparr>rtc_date := 1, rtc_month := 1, rtc_year := rtc_year t + 1\<rparr>" "unat (rtc_year t + 1) = unat (rtc_year t) + 1"
  | (wrap) "unat (rtc_date t) = rtc_month_days t" "unat (rtc_month t) = 12" "unat (rtc_year t) = 99"
      "rtc_next_day t = t\<lparr>rtc_date := 1, rtc_month := 1, rtc_year := 0\<rparr>"
proof -
  note b = rtc_ok_bounds [OF assms]
  have suc: "unat (x + 1) = unat x + 1" if "unat x < 100" for x :: uint8 using that by (simp add: unat_word_ariths)
  consider "unat (rtc_date t) < rtc_month_days t" | "unat (rtc_date t) = rtc_month_days t" "unat (rtc_month t) < 12"
    | "unat (rtc_date t) = rtc_month_days t" "unat (rtc_month t) = 12" "unat (rtc_year t) < 99"
    | "unat (rtc_date t) = rtc_month_days t" "unat (rtc_month t) = 12" "unat (rtc_year t) = 99"
    using b by linarith
  then show thesis
  proof cases
    case 1 with b show thesis by (intro same suc) (auto simp: rtc_next_day_def)
  next
    case 2 with b show thesis by (intro month suc) (auto simp: rtc_next_day_def word_less_nat_alt)
  next
    case 3 with b show thesis by (intro year suc) (auto simp: rtc_next_day_def word_less_nat_alt)
  next
    case 4 with b show thesis by (intro wrap) (auto simp: rtc_next_day_def word_less_nat_alt)
  qed
qed

lemma rtc_ok_next_day:
  assumes "rtc_ok t"
  shows "rtc_ok (rtc_next_day t)"
  using assms
proof (cases rule: next_day_cases)
  case month
  then have "0 < unat (rtc_month t + 1)" "unat (rtc_month t + 1) \<le> 12" by simp_all
  from month_cases [OF this] have "1 \<le> month_lengths (unat (rtc_year t) mod 4 = 0) ! (unat (rtc_month t + 1) - 1)"
    by (auto simp: month_lengths_def)
  with month assms show ?thesis by (simp add: rtc_ok_def rtc_month_days_def word_less_nat_alt word_le_nat_alt)
qed (use assms in \<open>auto simp: rtc_ok_def rtc_month_days_def word_less_nat_alt word_le_nat_alt month_lengths_def\<close>)

lemma rtc_days_next_day:
  assumes "rtc_ok t" "\<not> (rtc_year t = 99 \<and> rtc_month t = 12 \<and> rtc_date t = 31)"
  shows "rtc_days (rtc_next_day t) = rtc_days t + 1"
  using assms(1)
proof (cases rule: next_day_cases)
  case same
  then show ?thesis using rtc_ok_bounds(4) [OF assms(1)] by (simp add: rtc_days_def Let_def)
next
  case month
  have "sum_list (take (unat (rtc_month t)) (month_lengths l)) =
      sum_list (take (unat (rtc_month t) - 1) (month_lengths l)) + month_lengths l ! (unat (rtc_month t) - 1)" for l
    using days_next_month [OF month(2)] rtc_ok_bounds(2) [OF assms(1)] by simp
  with month show ?thesis using rtc_ok_bounds(4) [OF assms(1)] by (simp add: rtc_days_def Let_def rtc_month_days_def)
next
  case year
  have m: "rtc_month_days t = 31" using year(2) by (simp add: rtc_month_days_def month_lengths_def)
  have "365 * y + (y + 3) div 4 + sum_list (take 11 (month_lengths (y mod 4 = 0))) + 31 = 365 * (y + 1) + (y + 4) div 4" for y :: nat
  proof -
    have "(y + 4) div 4 = (y + 3) div 4 + (if y mod 4 = 0 then 1 else 0)" by presburger
    then show ?thesis by (simp add: month_lengths_def)
  qed
  from this [of "unat (rtc_year t)"] year m show ?thesis by (simp add: rtc_days_def Let_def)
next
  case wrap
  then have "rtc_month_days t = 31" by (simp add: rtc_month_days_def month_lengths_def)
  with wrap assms(2) show ?thesis by (simp add: word_unat_eq_iff)
qed

definition same_day :: "rtc_regs \<Rightarrow> rtc_regs \<Rightarrow> bool" where
  "same_day t u \<longleftrightarrow> rtc_date u = rtc_date t \<and> rtc_month u = rtc_month t \<and> rtc_year u = rtc_year t"

lemma same_day_next:
  assumes "same_day t u"
  shows "same_day (rtc_next_day t) (rtc_next_day u)" "rtc_days u = rtc_days t" "rtc_month_days u = rtc_month_days t"
proof -
  show m: "rtc_month_days u = rtc_month_days t" using assms by (simp add: rtc_month_days_def same_day_def)
  show "rtc_days u = rtc_days t" using assms by (simp add: rtc_days_def same_day_def)
  show "same_day (rtc_next_day t) (rtc_next_day u)" using assms by (simp add: rtc_next_day_def same_day_def m)
qed

lemma rtc_tick_cases:
  assumes "rtc_running t"
  shows "rtc_running (rtc_tick t) \<and> day_ticks (rtc_tick t) = (day_ticks t + 1) mod 22118400 \<and>
    same_day (if day_ticks t + 1 < 22118400 then t else rtc_next_day t) (rtc_tick t)"
proof -
  have ok: "rtc_ok t" and sub: "unat (SubSeconds t) \<le> 255"
    using assms by (simp_all add: rtc_running_def PREDIV_S_def word_le_nat_alt)
  note b = rtc_ok_bounds(8-10) [OF ok]
  have suc: "unat (x + 1) = unat x + 1" if "unat x < 100" for x :: uint8 using that by (simp add: unat_word_ariths)
  have days: "rtc_month_days (t\<lparr>rtc_seconds := x, rtc_minutes := y, rtc_hours := z, SubSeconds := w\<rparr>) = rtc_month_days t" for x y z w
    by (simp add: rtc_month_days_def)
  consider (sub) "SubSeconds t \<noteq> 0" | (second) "SubSeconds t = 0" "unat (rtc_seconds t) < 59"
    | (minute) "SubSeconds t = 0" "unat (rtc_seconds t) = 59" "unat (rtc_minutes t) < 59"
    | (hour) "SubSeconds t = 0" "unat (rtc_seconds t) = 59" "unat (rtc_minutes t) = 59" "unat (rtc_hours t) < 23"
    | (day) "SubSeconds t = 0" "unat (rtc_seconds t) = 59" "unat (rtc_minutes t) = 59" "unat (rtc_hours t) = 23"
    using b by linarith
  then show ?thesis
  proof cases
    case sub
    then have s: "unat (SubSeconds t - 1) = unat (SubSeconds t) - 1" "0 < unat (SubSeconds t)"
      by (simp_all add: unat_gt_0 unat_minus_one)
    have "rtc_ok (t\<lparr>SubSeconds := x\<rparr>)" for x using ok by (simp add: rtc_ok_def rtc_month_days_def)
    moreover have "day_ticks (rtc_tick t) = day_ticks t + 1" using sub s \<open>unat (SubSeconds t) \<le> 255\<close> by (simp add: rtc_tick_def day_ticks_def)
    moreover have "day_ticks t + 1 < 22118400" unfolding day_ticks_def
      by (rule le_less_trans [of _ "((unat (rtc_hours t) * 60 + unat (rtc_minutes t)) * 60 + unat (rtc_seconds t)) * 256 + 255"])
        (use s clock_bound [OF b] in simp_all)
    ultimately show ?thesis using sub s \<open>unat (SubSeconds t) \<le> 255\<close>
      by (simp add: rtc_running_def rtc_tick_def same_day_def word_le_nat_alt PREDIV_S_def)
  next
    case day
    let ?z = "t\<lparr>rtc_seconds := 0, rtc_minutes := 0, rtc_hours := 0\<rparr>"
    have n: "rtc_tick t = (rtc_next_day ?z)\<lparr>SubSeconds := PREDIV_S\<rparr>"
      using day by (simp add: rtc_tick_def rtc_next_def word_less_nat_alt)
    have "rtc_ok ?z" using ok by (simp add: rtc_ok_def rtc_month_days_def)
    then have "rtc_ok (rtc_next_day ?z)" by (rule rtc_ok_next_day)
    moreover have "rtc_ok (u\<lparr>SubSeconds := x\<rparr>) = rtc_ok u" for u x by (simp add: rtc_ok_def rtc_month_days_def)
    moreover have "day_ticks t + 1 = 22118400" using day by (simp add: day_ticks_def)
    moreover have "same_day (rtc_next_day t) (rtc_next_day ?z)" by (rule same_day_next) (simp add: same_day_def)
    moreover have "rtc_seconds (rtc_next_day ?z) = 0" "rtc_minutes (rtc_next_day ?z) = 0" "rtc_hours (rtc_next_day ?z) = 0"
      by (simp_all add: rtc_next_day_def)
    ultimately show ?thesis unfolding n by (simp add: rtc_running_def day_ticks_def same_day_def PREDIV_S_def)
  qed (use ok b in \<open>simp_all add: rtc_tick_def rtc_next_def rtc_running_def rtc_ok_def rtc_month_days_def day_ticks_def
      same_day_def PREDIV_S_def word_less_nat_alt suc\<close>)
qed

lemma ticks_later:
  assumes "rtc_running t"
  shows "rtc_running ((rtc_tick ^^ n) t) \<and> day_ticks ((rtc_tick ^^ n) t) = (day_ticks t + n) mod 22118400 \<and>
    same_day ((rtc_next_day ^^ ((day_ticks t + n) div 22118400)) t) ((rtc_tick ^^ n) t)"
proof (induction n)
  case 0
  then show ?case using assms RtcGetCalendarValue_ticks(2) [OF assms] by (simp add: same_day_def)
next
  case (Suc n)
  let ?u = "(rtc_tick ^^ n) t" and ?x = "day_ticks t + n"
  from Suc have u: "rtc_running ?u" "day_ticks ?u = ?x mod 22118400" "same_day ((rtc_next_day ^^ (?x div 22118400)) t) ?u"
    by simp_all
  have day: "same_day ((rtc_next_day ^^ (Suc ?x div 22118400)) t) (if day_ticks ?u + 1 < 22118400 then ?u else rtc_next_day ?u)"
  proof (cases "Suc (?x mod 22118400) = 22118400")
    case True
    then have "Suc ?x div 22118400 = Suc (?x div 22118400)" by (simp add: div_Suc mod_Suc)
    with True u(2) same_day_next(1) [OF u(3)] show ?thesis by simp
  next
    case False
    then have "Suc ?x div 22118400 = ?x div 22118400" by (simp add: div_Suc mod_Suc)
    moreover have "?x mod 22118400 < 22118400" by simp
    then have "?x mod 22118400 + 1 < 22118400" using False by linarith
    ultimately show ?thesis using u(2,3) by simp
  qed
  have "day_ticks (rtc_tick ?u) = Suc ?x mod 22118400" using rtc_tick_cases [OF u(1)] u(2) by (simp add: mod_Suc)
  with rtc_tick_cases [OF u(1)] day show ?case by (auto simp: same_day_def)
qed

lemma days_later:
  assumes "rtc_ok t" "q \<le> 27"
  shows "rtc_ok ((rtc_next_day ^^ q) t) \<and> unat (rtc_date ((rtc_next_day ^^ q) t)) =
      (if unat (rtc_date t) + q \<le> rtc_month_days t then unat (rtc_date t) + q else unat (rtc_date t) + q - rtc_month_days t) \<and>
    (unat (rtc_date t) + q \<le> rtc_month_days t \<longrightarrow> rtc_month_days ((rtc_next_day ^^ q) t) = rtc_month_days t)"
  using assms(2)
proof (induction q)
  case 0
  then show ?case using assms(1) rtc_ok_bounds(5) [OF assms(1)] by simp
next
  case (Suc q)
  let ?u = "(rtc_next_day ^^ q) t" and ?d = "unat (rtc_date t)" and ?n = "rtc_month_days t"
  from Suc have u: "rtc_ok ?u" "unat (rtc_date ?u) = (if ?d + q \<le> ?n then ?d + q else ?d + q - ?n)"
    "?d + q \<le> ?n \<Longrightarrow> rtc_month_days ?u = ?n" by simp_all
  have low: "28 \<le> rtc_month_days ?u" "?d \<le> ?n" using rtc_ok_bounds(6) [OF u(1)] rtc_ok_bounds(5) [OF assms(1)] by simp_all
  have ok: "rtc_ok (rtc_next_day ?u)" by (rule rtc_ok_next_day [OF u(1)])
  from u(1) show ?case
  proof (cases rule: next_day_cases)
    case same
    have "rtc_month_days (rtc_next_day ?u) = rtc_month_days ?u" by (simp add: same(2) rtc_month_days_def)
    with same u low ok Suc.prems show ?thesis by (auto split: if_splits)
  qed (use u low ok Suc.prems in \<open>auto split: if_splits\<close>)
qed

section \<open>The alarm\<close>

lemma days_in_month:
  assumes "rtc_ok t"
  shows "unat ((if rtc_year t mod 4 = 0 then DaysInMonthLeapYear else DaysInMonth) ! (unat (rtc_month t) - 1)) = rtc_month_days t"
proof -
  have "rtc_year t mod 4 = 0 \<longleftrightarrow> unat (rtc_year t) mod 4 = 0" by (simp add: word_unat_eq_iff unat_mod)
  then show ?thesis using month_cases [OF rtc_ok_bounds(2,3) [OF assms]]
    by (auto simp: rtc_month_days_def month_lengths_def DaysInMonth_def DaysInMonthLeapYear_def)
qed

lemma alarm_date_later:
  assumes "rtc_ok t" "q \<le> 27"
  shows "ucast (alarm_date t (of_nat (unat (rtc_date t) + q))) = rtc_date ((rtc_next_day ^^ q) t)"
proof -
  let ?d = "unat (rtc_date t)" and ?n = "rtc_month_days t"
  note b = rtc_ok_bounds(4-7) [OF assms(1)] and l = days_later [OF assms]
  let ?len = "(if rtc_year t mod 4 = 0 then DaysInMonthLeapYear else DaysInMonth) ! (unat (rtc_month t) - 1)"
  have len: "(ucast ?len :: uint16) = of_nat ?n" using days_in_month [OF assms(1)] by (subst cast_nat) (simp del: of_nat_unat)
  have w: "unat (of_nat (?d + q) :: uint16) = ?d + q" "unat (of_nat ?n :: uint16) = ?n"
    using b assms(2) by (intro unat_of_nat_small; simp)+
  have "unat (alarm_date t (of_nat (?d + q))) = (if ?n < ?d + q then (?d + q) mod ?n else ?d + q)"
    unfolding alarm_date_def Let_def len by (simp only: word_less_nat_alt w unat_mod if_distrib [of unat])
  also have "\<dots> = unat (rtc_date ((rtc_next_day ^^ q) t))"
    using l b assms(2) by (auto simp: le_mod_geq)
  finally show ?thesis
    by (metis cast_nat of_nat_unat ucast_id)
qed

lemma cast_of_nat:
  "n < 2 ^ LENGTH('a) \<Longrightarrow> ucast (of_nat n :: 'a::len word) = (of_nat n :: 'b::len word)"
  by (subst cast_nat) (simp add: unat_of_nat_small del: of_nat_unat)

lemma carry_small:
  assumes "x < 2 ^ LENGTH('a)" "l < 2 ^ LENGTH('a)" "l \<noteq> 0"
  shows "carry (of_nat l :: 'a::len word) (of_nat x) (of_nat n :: 'b::len word) = (of_nat (x mod l), of_nat (n + x div l))"
proof -
  have "unat (of_nat l :: 'a word) = l" using assms(2) by (rule unat_of_nat_small)
  then show ?thesis using assms by (subst carry_nat) (auto simp: unat_of_nat_small word_unat_eq_iff)
qed

lemma RtcStartAlarm_nat:
  assumes "rtc_running t" "unat T < 27 * 22118400 + 1"
  defines "r1 \<equiv> unat T div 256 mod 86400" and "sub0 \<equiv> 255 - unat (SubSeconds t) + unat T mod 256"
  defines "s0 \<equiv> unat (rtc_seconds t) + r1 mod 3600 mod 60 + sub0 div 256"
  defines "m0 \<equiv> unat (rtc_minutes t) + r1 mod 3600 div 60 + s0 div 60"
  defines "h0 \<equiv> unat (rtc_hours t) + r1 div 3600 + m0 div 60"
  shows "RtcStartAlarm T t = \<lparr>alarm_day = ucast (alarm_date t (of_nat (unat (rtc_date t) + unat T div 256 div 86400 + h0 div 24))),
      alarm_hours = of_nat (h0 mod 24), alarm_minutes = of_nat (m0 mod 60), alarm_seconds = of_nat (s0 mod 60),
      alarm_sub = of_nat (255 - sub0 mod 256)\<rparr>"
proof -
  have sub: "unat (SubSeconds t) \<le> 255" and ok: "rtc_ok t"
    using assms(1) by (simp_all add: rtc_running_def PREDIV_S_def word_le_nat_alt)
  note b = rtc_ok_bounds(8-10) [OF ok]
  have small: "sub0 < 512" "r1 < 86400" "r1 div 3600 < 24" "r1 mod 3600 div 60 < 60" "r1 mod 3600 mod 60 < 60"
    by (simp_all add: sub0_def r1_def less_mult_imp_div_less add_less_le_mono [of _ 256 _ 256, simplified])
  then have s0: "s0 < 256" and m0: "m0 < 1000" using b by (simp_all add: s0_def m0_def)
  have h0: "h0 < 2000" using small(3) b m0 div_le_dividend [of m0 60] unfolding h0_def by linarith
  have T2: "unat T div 256 < 2 ^ LENGTH(32)" "unat T mod 256 < 2 ^ LENGTH(32)"
    using assms(2) less_le_trans [OF mod_less_divisor [of 256 "unat T"], of "2 ^ LENGTH(32)"] by simp_all
  have T: "drop_bit 8 T = of_nat (unat T div 256)" "T AND PREDIV_S = of_nat (unat T mod 256)"
    unfolding word_unat_eq_iff unat_of_nat_small [OF T2(1)] unat_of_nat_small [OF T2(2)]
    by (simp_all add: drop_bit_eq_div unat_div unat_mod PREDIV_S_def mask_numerals take_bit_eq_mod flip: take_bit_eq_mask)
  have sub_w: "(ucast (PREDIV_S - SubSeconds t) + ucast (T AND PREDIV_S) :: uint16) = of_nat sub0"
    using sub unfolding T by (simp add: cast_nat unat_sub word_le_nat_alt PREDIV_S_def sub0_def unat_of_nat_small del: of_nat_unat)
  have c: "carry 86400 (drop_bit 8 T) (ucast (rtc_date t)) =
        (of_nat r1 :: uint32, of_nat (unat (rtc_date t) + unat T div 256 div 86400) :: uint16)"
      "carry 3600 (of_nat r1) (ucast (rtc_hours t)) =
        (of_nat (r1 mod 3600) :: uint32, of_nat (unat (rtc_hours t) + r1 div 3600) :: uint16)"
      "carry 60 (of_nat (r1 mod 3600)) (ucast (rtc_minutes t)) =
        (of_nat (r1 mod 3600 mod 60) :: uint32, of_nat (unat (rtc_minutes t) + r1 mod 3600 div 60) :: uint16)"
    using carry_small [OF T2(1), of 86400 "unat (rtc_date t)"] small(2)
      carry_small [of r1 3600 "unat (rtc_hours t)", where 'a = 32 and 'b = 16]
      carry_small [of "r1 mod 3600" 60 "unat (rtc_minutes t)", where 'a = 32 and 'b = 16]
    unfolding T by (simp_all add: cast_nat r1_def del: of_nat_unat)
  have c2: "carry 256 (of_nat sub0) (ucast (rtc_seconds t) + ucast (of_nat (r1 mod 3600 mod 60) :: uint32)) =
        (of_nat (sub0 mod 256) :: uint16, of_nat s0 :: uint16)"
    using carry_small [of sub0 256 "unat (rtc_seconds t) + r1 mod 3600 mod 60", where 'a = 16 and 'b = 16] small(1,5)
    by (simp add: cast_nat unat_of_nat_small s0_def del: of_nat_unat)
  have c3: "carry 60 (of_nat s0) (of_nat (unat (rtc_minutes t) + r1 mod 3600 div 60)) = (of_nat (s0 mod 60) :: uint16, of_nat m0 :: uint16)"
    "carry 60 (of_nat m0) (of_nat (unat (rtc_hours t) + r1 div 3600)) = (of_nat (m0 mod 60) :: uint16, of_nat h0 :: uint16)"
    "carry 24 (of_nat h0) (of_nat (unat (rtc_date t) + unat T div 256 div 86400)) =
      (of_nat (h0 mod 24) :: uint16, of_nat (unat (rtc_date t) + unat T div 256 div 86400 + h0 div 24) :: uint16)"
    using s0 m0 h0 carry_small [of s0 60 "unat (rtc_minutes t) + r1 mod 3600 div 60", where 'a = 16 and 'b = 16]
      carry_small [of m0 60 "unat (rtc_hours t) + r1 div 3600", where 'a = 16 and 'b = 16]
      carry_small [of h0 24 "unat (rtc_date t) + unat T div 256 div 86400", where 'a = 16 and 'b = 16]
    by (simp_all add: m0_def h0_def)
  have lt: "x mod k < 65536" if "0 < k" "k \<le> 256" for x k :: nat
    using that less_le_trans [OF mod_less_divisor [of k x], of 65536] by simp
  have low: "(ucast (of_nat (x mod 60) :: uint16) :: uint8) = of_nat (x mod 60)" "(ucast (of_nat (x mod 24) :: uint16) :: uint8) = of_nat (x mod 24)"
    "PREDIV_S - ucast (of_nat (x mod 256) :: uint16) = of_nat (255 - x mod 256)" for x
  proof -
    have "x mod 256 \<le> 255" using mod_less_divisor [of 256 x] by linarith
    then have "PREDIV_S - of_nat (x mod 256) = of_nat (255 - x mod 256)" by (simp only: PREDIV_S_def of_nat_diff) simp
    then show "(ucast (of_nat (x mod 60) :: uint16) :: uint8) = of_nat (x mod 60)"
      "(ucast (of_nat (x mod 24) :: uint16) :: uint8) = of_nat (x mod 24)"
      "PREDIV_S - ucast (of_nat (x mod 256) :: uint16) = of_nat (255 - x mod 256)"
      by (simp_all add: cast_of_nat lt)
  qed
  show ?thesis
    unfolding RtcStartAlarm_def Let_def sub_w c prod.case c2 c3 low by (simp add: sub0_def s0_def m0_def h0_def r1_def)
qed

lemma clock_split:
  fixes T a b c d e f g r :: nat
  assumes "a * 256 + b = T" "c * 86400 + r = a" "d * 3600 + e = r" "f * 60 + g = e"
  shows "T = c * 22118400 + ((d * 60 + f) * 60 + g) * 256 + b"
  unfolding assms [symmetric] by simp

lemma clock_add:
  fixes b c c1 c2 c3 c4 d f g h m s v w x y z h0 m0 s0 sub0 :: nat
  assumes "c1 * 256 + y = sub0" "c2 * 60 + z = s0" "c3 * 60 + w = m0" "c4 * 24 + v = h0"
    and "sub0 = x + b" "s0 = s + g + c1" "m0 = m + f + c2" "h0 = h + d + c3"
  shows "((h * 60 + m) * 60 + s) * 256 + x + (c * 22118400 + ((d * 60 + f) * 60 + g) * 256 + b) =
    (c + c4) * 22118400 + (((v * 60 + w) * 60 + z) * 256 + y)"
  using assms by simp

lemma decode_clock:
  assumes "((h * 60 + m) * 60 + s) * 256 + x = ((h' * 60 + m') * 60 + s') * 256 + (x' :: nat)"
    and "m < 60" "s < 60" "x < 256" "m' < 60" "s' < 60" "x' < 256"
  shows "h = h' \<and> m = m' \<and> s = s' \<and> x = x'"
proof -
  have split: "a = c \<and> b = d" if "a * k + b = c * k + d" "b < k" "d < k" for a b c d k :: nat
    using that by (metis add.right_neutral div_less div_mult_self3 mod_less mod_mult_self3 mult.commute not_less_zero)
  have a: "(h * 60 + m) * 60 + s = (h' * 60 + m') * 60 + s'" "x = x'" using split [OF assms(1,4,7)] by blast+
  have b: "h * 60 + m = h' * 60 + m'" "s = s'" using split [OF a(1) assms(3,6)] by blast+
  show ?thesis using split [OF b(1) assms(2,5)] a(2) b(2) by blast
qed

lemma RtcStartAlarm_shown:
  assumes "rtc_running t" "unat T < 27 * 22118400 + 1"
  shows "RtcStartAlarm T t = shown ((rtc_tick ^^ unat T) t)"
proof -
  let ?u = "(rtc_tick ^^ unat T) t"
  define r1 where "r1 = unat T div 256 mod 86400"
  define sub0 where "sub0 = 255 - unat (SubSeconds t) + unat T mod 256"
  define s0 where "s0 = unat (rtc_seconds t) + r1 mod 3600 mod 60 + sub0 div 256"
  define m0 where "m0 = unat (rtc_minutes t) + r1 mod 3600 div 60 + s0 div 60"
  define h0 where "h0 = unat (rtc_hours t) + r1 div 3600 + m0 div 60"
  define q where "q = unat T div 256 div 86400 + h0 div 24"
  have sub: "unat (SubSeconds t) \<le> 255" and ok: "rtc_ok t"
    using assms(1) by (simp_all add: rtc_running_def PREDIV_S_def word_le_nat_alt)
  have "unat T = unat T div 256 div 86400 * 22118400 + ((r1 div 3600 * 60 + r1 mod 3600 div 60) * 60 + r1 mod 3600 mod 60) * 256 + unat T mod 256"
    by (rule clock_split [OF div_mult_mod_eq _ div_mult_mod_eq div_mult_mod_eq]) (simp add: r1_def)
  moreover have "day_ticks t = ((unat (rtc_hours t) * 60 + unat (rtc_minutes t)) * 60 + unat (rtc_seconds t)) * 256 + (255 - unat (SubSeconds t))"
    using sub by (simp add: day_ticks_def)
  ultimately have total: "day_ticks t + unat T = q * 22118400 + (((h0 mod 24 * 60 + m0 mod 60) * 60 + s0 mod 60) * 256 + sub0 mod 256)"
    unfolding q_def using clock_add [OF div_mult_mod_eq div_mult_mod_eq div_mult_mod_eq div_mult_mod_eq sub0_def s0_def m0_def h0_def]
    by simp
  have r: "((h0 mod 24 * 60 + m0 mod 60) * 60 + s0 mod 60) * 256 + sub0 mod 256 < 22118400" (is "?r < _")
    by (rule le_less_trans [OF _ clock_bound [of "h0 mod 24" "m0 mod 60" "s0 mod 60"]]) (use mod_less_divisor [of 256 sub0] in simp_all)
  have qd: "(day_ticks t + unat T) div 22118400 = q" "(day_ticks t + unat T) mod 22118400 = ?r" unfolding total using r by simp_all
  have "day_ticks t < 22118400" by (rule RtcGetCalendarValue_ticks(2) [OF assms(1)])
  then have "q \<le> 27" using assms(2) unfolding qd(1) [symmetric] by simp
  note later = ticks_later [OF assms(1), of "unat T", unfolded qd] and date = alarm_date_later [OF ok this]
  from later have ur: "rtc_running ?u" "day_ticks ?u = ?r" "rtc_date ?u = rtc_date ((rtc_next_day ^^ q) t)" by (simp_all add: same_day_def)
  have usub: "unat (SubSeconds ?u) \<le> 255" using ur(1) by (simp add: rtc_running_def PREDIV_S_def word_le_nat_alt)
  have uok: "rtc_ok ?u" using ur(1) by (simp add: rtc_running_def)
  have "((unat (rtc_hours ?u) * 60 + unat (rtc_minutes ?u)) * 60 + unat (rtc_seconds ?u)) * 256 + (255 - unat (SubSeconds ?u)) = ?r"
    using ur(2) usub by (simp add: day_ticks_def)
  from decode_clock [OF this rtc_ok_bounds(9,10) [OF uok]] have f: "unat (rtc_hours ?u) = h0 mod 24" "unat (rtc_minutes ?u) = m0 mod 60"
    "unat (rtc_seconds ?u) = s0 mod 60" "unat (SubSeconds ?u) = 255 - sub0 mod 256" using usub by auto
  then have "rtc_hours ?u = of_nat (h0 mod 24)" "rtc_minutes ?u = of_nat (m0 mod 60)" "rtc_seconds ?u = of_nat (s0 mod 60)"
    "SubSeconds ?u = of_nat (255 - sub0 mod 256)" by (metis of_nat_unat ucast_id)+
  moreover note RtcStartAlarm_nat [OF assms, folded r1_def sub0_def, folded s0_def, folded m0_def, folded h0_def]
  ultimately show ?thesis using date ur(3) by (simp add: shown_def q_def add.assoc)
qed

lemma shown_day_ticks:
  assumes "shown u = shown v"
  shows "day_ticks u = day_ticks v" "rtc_date u = rtc_date v"
  using assms by (simp_all add: shown_def day_ticks_def)

lemma not_shown_before:
  assumes "rtc_running t" "0 < n" "n \<le> 27 * 22118400"
  shows "shown ((rtc_tick ^^ n) t) \<noteq> shown t"
proof
  let ?u = "(rtc_tick ^^ n) t" and ?q = "(day_ticks t + n) div 22118400"
  assume eq: "shown ?u = shown t"
  note l = ticks_later [OF assms(1), of n]
  have less: "day_ticks t < 22118400" by (rule RtcGetCalendarValue_ticks(2) [OF assms(1)])
  have "(day_ticks t + n) mod 22118400 = day_ticks t" using l shown_day_ticks(1) [OF eq] by simp
  then have n: "n = ?q * 22118400" using div_mult_mod_eq [of "day_ticks t + n" 22118400] by linarith
  with assms(2,3) have q: "0 < ?q" "?q \<le> 27" by (auto intro: gr0I)
  have ok: "rtc_ok t" using assms(1) by (simp add: rtc_running_def)
  have "rtc_date ((rtc_next_day ^^ ?q) t) = rtc_date t"
    using l shown_day_ticks(2) [OF eq] by (simp add: same_day_def)
  with days_later [OF ok q(2)] rtc_ok_bounds(6) [OF ok] q show False by (auto split: if_splits)
qed

lemma calendar_value_step:
  assumes "rtc_running t" "\<not> (rtc_year t = 99 \<and> rtc_month t = 12 \<and> rtc_date t = 31)"
  shows "RtcGetCalendarValue (rtc_tick t) = RtcGetCalendarValue t + 1"
proof -
  have ok: "rtc_ok t" using assms(1) by (simp add: rtc_running_def)
  note tick = rtc_tick_cases [OF assms(1)] and v = RtcGetCalendarValue_ticks [OF assms(1)]
  have "rtc_running (rtc_tick t)" using tick by blast
  note v' = RtcGetCalendarValue_ticks [OF this]
  have "unat (RtcGetCalendarValue (rtc_tick t)) = unat (RtcGetCalendarValue t) + 1"
  proof (cases "day_ticks t + 1 < 22118400")
    case True
    with tick same_day_next(2) [of t "rtc_tick t"] v v' show ?thesis by simp
  next
    case False
    then have "day_ticks t + 1 = 22118400" using v(2) by simp
    with False tick same_day_next(2) [of "rtc_next_day t" "rtc_tick t"] v v' rtc_days_next_day [OF ok assms(2)] show ?thesis by simp
  qed
  moreover have "unat (RtcGetCalendarValue t) + 1 < 2 ^ LENGTH(64)" using v rtc_days_bound(1) [OF ok] by simp
  ultimately show ?thesis by (simp add: word_unat_eq_iff unat_word_ariths)
qed

section \<open>Properties\<close>

lemma alarm_ignores_now:
  \<comment> \<open>the time at which \<open>RtcSetAlarm\<close> is called only decides about stop mode\<close>
  "rtc_alarm_a (RtcSetAlarm timeout now b) = rtc_alarm_a (RtcSetAlarm timeout now' b)"
  by (simp add: RtcSetAlarm_def LpmSetStopMode_def RtcStartAlarm_def RtcStopAlarm_def Let_def split: prod.split)

text \<open>
  C15. The timeout of an alarm counts from the reference that \<open>RtcSetTimerContext\<close> took, not from the call of
  \<open>RtcSetAlarm\<close>: the comments of \<open>RtcSetAlarm\<close> say the latter, the timers of the stack rely on the former, and \<open>now\<close> has no influence
  (\<open>alarm_ignores_now\<close>). An alarm of at most 27 days fires exactly when the timeout has passed since that reference:
  its registers are what the clock shows that many ticks later, across midnight, the end of months of every length and leap
  days, and what it shows at no earlier tick.
\<close>
theorem alarm_fires_on_time:
  assumes "rtc_running (context_regs b)" "unat timeout \<le> 27 * 22118400"
  shows "rtc_alarm_a (RtcSetAlarm timeout now b) = Some (shown ((rtc_tick ^^ unat timeout) (context_regs b))) \<and>
    (\<forall>k < unat timeout. shown ((rtc_tick ^^ k) (context_regs b)) \<noteq> shown ((rtc_tick ^^ unat timeout) (context_regs b)))"
proof (intro conjI allI impI)
  let ?t = "context_regs b"
  show "rtc_alarm_a (RtcSetAlarm timeout now b) = Some (shown ((rtc_tick ^^ unat timeout) ?t))"
    using RtcStartAlarm_shown [OF assms(1), of timeout] assms(2) by (simp add: RtcSetAlarm_def RtcStopAlarm_def LpmSetStopMode_def)
  fix k assume k: "k < unat timeout"
  have "rtc_running ((rtc_tick ^^ k) ?t)" using ticks_later [OF assms(1)] by blast
  from not_shown_before [OF this, of "unat timeout - k"] k assms(2)
  have "shown ((rtc_tick ^^ unat timeout) ?t) \<noteq> shown ((rtc_tick ^^ k) ?t)"
    by (simp add: funpow_add [symmetric, THEN fun_cong, unfolded o_apply])
  then show "shown ((rtc_tick ^^ k) ?t) \<noteq> shown ((rtc_tick ^^ unat timeout) ?t)" by (rule not_sym)
qed

definition leap_evening :: rtc_regs where
  \<comment> \<open>half a second before midnight at the end of 28 February of year 24\<close>
  "leap_evening = \<lparr>rtc_hours = 23, rtc_minutes = 59, rtc_seconds = 59, rtc_date = 28, rtc_month = 2, rtc_year = 24,
     SubSeconds = 127, SecondFraction = 255\<rparr>"

definition board_example :: rtc_board where
  "board_example = \<lparr>context_time = 0, context_regs = leap_evening, rtc_alarm_a = None, StopModeDisable = 0\<rparr>"

theorem alarm_fires_on_time_witness:
  "shown ((rtc_tick ^^ 22118528) leap_evening) =
    \<lparr>alarm_day = 1, alarm_hours = 0, alarm_minutes = 0, alarm_seconds = 0, alarm_sub = 255\<rparr>"
proof -
  have run: "rtc_running (context_regs board_example)" by code_simp
  have "rtc_alarm_a (RtcSetAlarm 22118528 leap_evening board_example) =
    Some \<lparr>alarm_day = 1, alarm_hours = 0, alarm_minutes = 0, alarm_seconds = 0, alarm_sub = 255\<rparr>" by code_simp
  with alarm_fires_on_time [OF run, of 22118528 leap_evening] show ?thesis by (simp add: board_example_def)
qed

text \<open>
  C21. The tick count computed from the calendar, with its table of corrections for the months and leap
  years, grows by exactly one with every tick of the clock, for a hundred years.
\<close>
theorem ticks_follow_the_clock:
  assumes "rtc_running t" "\<not> (rtc_year t = 99 \<and> rtc_month t = 12 \<and> rtc_date t = 31)"
  shows "RtcGetCalendarValue (rtc_tick t) = RtcGetCalendarValue t + 1"
  by (rule calendar_value_step [OF assms])

theorem ticks_follow_the_clock_witness:
  "RtcGetCalendarValue (rtc_tick (leap_day\<lparr>SubSeconds := 0\<rparr>)) = RtcGetCalendarValue leap_day + 1"
proof -
  have "rtc_running leap_day" by code_simp
  from ticks_follow_the_clock [OF this] show ?thesis by (simp add: leap_day_def)
qed

lemma delay_loop_ends:
  assumes "n \<le> m" "\<not> ucast (RtcGetTimerValue (clk m)) - ref < ticks"
  shows "\<exists>k \<le> m. delay_loop clk ref ticks n = Some k \<and> \<not> ucast (RtcGetTimerValue (clk k)) - ref < ticks"
  using assms
proof (induction "m - n" arbitrary: n)
  case 0
  then show ?case by (intro exI [of _ m]) (simp add: delay_loop.simps [of clk ref ticks n])
next
  case (Suc d)
  show ?case
  proof (cases "ucast (RtcGetTimerValue (clk n)) - ref < ticks")
    case True
    with Suc(1) [of "n + 1"] Suc(2-) show ?thesis by (subst delay_loop.simps) simp
  next
    case False
    with Suc(3) show ?thesis by (intro exI [of _ n]) (subst delay_loop.simps, simp)
  qed
qed

lemma RtcDelayMs_waits:
  \<comment> \<open>while the tick count does not wrap around, the delay ends, and not before its time\<close>
  assumes "unat (RtcGetTimerValue (clk 0)) + unat (RtcMs2Tick delay) \<le> unat (RtcGetTimerValue (clk m))" "0 < m"
    and mono: "\<And>k. RtcGetTimerValue (clk 0) \<le> RtcGetTimerValue (clk k)"
  shows "\<exists>k \<le> m. RtcDelayMs clk delay = Some k \<and>
    unat (RtcGetTimerValue (clk 0)) + unat (RtcMs2Tick delay) \<le> unat (RtcGetTimerValue (clk k))"
proof -
  have wide: "unat (ucast x :: uint64) = unat x" for x :: uint32
    using unsigned_less [of x, where 'a = nat] by (simp add: unsigned_ucast_eq take_bit_nat_eq_self)
  have less: "(ucast (RtcGetTimerValue (clk k)) - ucast (RtcGetTimerValue (clk 0)) < (ucast (RtcMs2Tick delay) :: uint64)) \<longleftrightarrow>
      unat (RtcGetTimerValue (clk k)) < unat (RtcGetTimerValue (clk 0)) + unat (RtcMs2Tick delay)" for k
    using mono [of k] by (auto simp: word_less_nat_alt word_le_nat_alt unat_sub wide)
  from delay_loop_ends [of 1 m clk "ucast (RtcGetTimerValue (clk 0))" "ucast (RtcMs2Tick delay)"] assms(1,2)
  show ?thesis unfolding RtcDelayMs_def less by (auto simp: not_less)
qed

section \<open>Two limits\<close>

definition february_end :: rtc_regs where
  \<comment> \<open>28 February of year 23\<close>
  "february_end = leap_evening\<lparr>rtc_year := 23\<rparr>"

lemma alarm_of_28_days:
  \<comment> \<open>after more than 27 days the alarm is set for a day that never comes\<close>
  "alarm_day (RtcStartAlarm (28 * 22118400) february_end) = 0" "rtc_running february_end"
  by code_simp+

lemma delay_cut_short:
  \<comment> \<open>the difference is one of 64 bits: a delay during which the 32 bit tick count wraps around ends at once\<close>
  assumes "RtcGetTimerValue (clk 0) = - 1" "RtcGetTimerValue (clk 1) = 0"
  shows "RtcDelayMs clk delay = Some 1"
proof -
  have "unat (RtcMs2Tick delay) < 2 ^ 32" using unsigned_less [of "RtcMs2Tick delay"] by simp
  then have "unat (ucast (RtcMs2Tick delay) :: uint64) < 2 ^ 32" by (simp add: unsigned_ucast_eq take_bit_nat_eq_self)
  moreover have "(- ucast (- 1 :: uint32) :: uint64) = 0xFFFFFFFF00000001" by code_simp
  ultimately have "\<not> ucast (0 :: uint32) - ucast (- 1 :: uint32) < (ucast (RtcMs2Tick delay) :: uint64)"
    by (simp add: word_less_nat_alt)
  then show ?thesis unfolding RtcDelayMs_def by (subst delay_loop.simps) (simp only: assms if_False)
qed

lemma alarm_interrupt_runs_no_timer:
  \<comment> \<open>in this firmware the interrupt of the alarm only sets \<open>alarmVal\<close>: it leaves the reference and the alarm as they are\<close>
  "context_time (fst (RTC_IRQHandler enabled pending (b, v))) = context_time b"
  "context_regs (fst (RTC_IRQHandler enabled pending (b, v))) = context_regs b"
  "rtc_alarm_a (fst (RTC_IRQHandler enabled pending (b, v))) = rtc_alarm_a b"
  by (simp_all add: RTC_IRQHandler_def LpmSetStopMode_def)

end
