(* ===== verification/Timer_List.thy ===== *)
theory Timer_List
  imports Rtc_Board
begin

text \<open>
  The software timers of the LoRaWAN stack, \<^verbatim>\<open>src/Drivers/LoRaMac-node/system/timer.c\<close>: a linked list of timer objects, soonest
  first, of which the head has the alarm of the clock. The objects live in a heap of addresses, so that a list is a chain of
  \<open>Next\<close> pointers. Every reading of the clock is an event of its own: \<open>clk n\<close> are the registers at the \<open>n\<close>-th reading.
  Calling a callback is the parameter \<open>call\<close>; a callback may use the timers itself. \<open>None\<close> is a routine that does not
  return: a loop over a cyclic list, or a missing callback. \<open>TimerIrqHandler\<close> is what the board support of the stack calls when the
  alarm fires; at this commit \<^verbatim>\<open>src/Src/main.c\<close> has put another function in its place (see \<open>RTC_IRQHandler\<close> in \<open>Rtc_Board\<close>).
\<close>

section \<open>State\<close>

record timer_event =
  Timestamp :: uint32
  ReloadValue :: uint32
  IsStarted :: bool
  IsNext2Expire :: bool
  Callback :: "nat option"
  Context :: nat
  Next :: "nat option"

record 'w timers =
  objects :: "nat \<Rightarrow> timer_event"
  TimerListHead :: "nat option"
  board :: rtc_board
  readings :: nat                \<comment> \<open>of the clock so far\<close>
  world :: 'w                    \<comment> \<open>what the callbacks change besides the timers\<close>

type_synonym clock = "nat \<Rightarrow> rtc_regs"

definition set_object :: "nat \<Rightarrow> (timer_event \<Rightarrow> timer_event) \<Rightarrow> 'w timers \<Rightarrow> 'w timers" where
  "set_object p f s = s\<lparr>objects := (objects s)(p := f (objects s p))\<rparr>"

definition elapsed_at :: "clock \<Rightarrow> 'w timers \<Rightarrow> uint32" where
  \<comment> \<open>what the next \<open>RtcGetTimerElapsedTime\<close> returns\<close>
  "elapsed_at clk s = RtcGetTimerElapsedTime (clk (readings s)) (board s)"

definition read_clock :: "'w timers \<Rightarrow> 'w timers" where
  "read_clock s = s\<lparr>readings := readings s + 1\<rparr>"

definition set_context :: "clock \<Rightarrow> 'w timers \<Rightarrow> 'w timers" where
  "set_context clk s = read_clock (s\<lparr>board := RtcSetTimerContext (clk (readings s)) (board s)\<rparr>)"

definition set_alarm :: "clock \<Rightarrow> uint32 \<Rightarrow> 'w timers \<Rightarrow> 'w timers" where
  "set_alarm clk timeout s = read_clock (s\<lparr>board := RtcSetAlarm timeout (clk (readings s)) (board s)\<rparr>)"

section \<open>Operations\<close>

definition TimerInit :: "nat \<Rightarrow> nat option \<Rightarrow> 'w timers \<Rightarrow> 'w timers" where
  "TimerInit obj callback = set_object obj (\<lambda>_. \<lparr>Timestamp = 0, ReloadValue = 0, IsStarted = False, IsNext2Expire = False,
     Callback = callback, Context = 0, Next = None\<rparr>)"

definition TimerSetContext :: "nat \<Rightarrow> nat \<Rightarrow> 'w timers \<Rightarrow> 'w timers" where
  "TimerSetContext obj ctx = set_object obj (\<lambda>t. t\<lparr>Context := ctx\<rparr>)"

definition TimerIsStarted :: "nat \<Rightarrow> 'w timers \<Rightarrow> bool" where
  "TimerIsStarted obj s = IsStarted (objects s obj)"

definition TimerSetTimeout :: "clock \<Rightarrow> nat \<Rightarrow> 'w timers \<Rightarrow> 'w timers" where
  "TimerSetTimeout clk obj s0 =
    (let s1 = set_object obj (\<lambda>t. t\<lparr>IsNext2Expire := True\<rparr>) s0;
         e = elapsed_at clk s1; s2 = read_clock s1;
         s3 = (if Timestamp (objects s2 obj) < e + RtcGetMinimumTimeout
               then read_clock (set_object obj (\<lambda>t. t\<lparr>Timestamp := elapsed_at clk s2 + RtcGetMinimumTimeout\<rparr>) s2) else s2)
     in set_alarm clk (Timestamp (objects s3 obj)) s3)"

definition TimerInsertNewHeadTimer :: "clock \<Rightarrow> nat \<Rightarrow> 'w timers \<Rightarrow> 'w timers" where
  "TimerInsertNewHeadTimer clk obj s =
    (let cur = TimerListHead s;
         s1 = (case cur of Some p \<Rightarrow> set_object p (\<lambda>t. t\<lparr>IsNext2Expire := False\<rparr>) s | None \<Rightarrow> s);
         s2 = (set_object obj (\<lambda>t. t\<lparr>Next := cur\<rparr>) s1)\<lparr>TimerListHead := Some obj\<rparr>
     in TimerSetTimeout clk obj s2)"

partial_function (option) insert_after :: "nat \<Rightarrow> nat \<Rightarrow> 'w timers \<Rightarrow> 'w timers option" where
  \<comment> \<open>the loop of \<open>TimerInsertTimer\<close>, at \<open>cur\<close>\<close>
  "insert_after obj cur s =
    (case Next (objects s cur) of
       Some next \<Rightarrow>
         if Timestamp (objects s next) < Timestamp (objects s obj) then insert_after obj next s
         else Some (set_object obj (\<lambda>t. t\<lparr>Next := Some next\<rparr>) (set_object cur (\<lambda>t. t\<lparr>Next := Some obj\<rparr>) s))
     | None \<Rightarrow> Some (set_object obj (\<lambda>t. t\<lparr>Next := None\<rparr>) (set_object cur (\<lambda>t. t\<lparr>Next := Some obj\<rparr>) s)))"

declare insert_after.simps [code]

partial_function (option) TimerExists :: "nat \<Rightarrow> nat option \<Rightarrow> 'w timers \<Rightarrow> bool option" where
  \<comment> \<open>the loop, at \<open>cur\<close>\<close>
  "TimerExists obj cur s =
    (case cur of None \<Rightarrow> Some False
     | Some p \<Rightarrow> if p = obj then Some True else TimerExists obj (Next (objects s p)) s)"

declare TimerExists.simps [code]

definition TimerStart :: "clock \<Rightarrow> nat option \<Rightarrow> 'w timers \<Rightarrow> 'w timers option" where
  "TimerStart clk obj0 s =
    (case obj0 of None \<Rightarrow> Some s
     | Some obj \<Rightarrow>
       (case TimerExists obj (TimerListHead s) s of
          None \<Rightarrow> None
        | Some True \<Rightarrow> Some s
        | Some False \<Rightarrow>
          let s1 = set_object obj (\<lambda>t. t\<lparr>Timestamp := ReloadValue t, IsStarted := True, IsNext2Expire := False\<rparr>) s
          in case TimerListHead s1 of
               None \<Rightarrow> Some (TimerInsertNewHeadTimer clk obj (set_context clk s1))
             | Some head \<Rightarrow>
                 let elapsedTime = elapsed_at clk s1;
                     s2 = set_object obj (\<lambda>t. t\<lparr>Timestamp := Timestamp t + elapsedTime\<rparr>) (read_clock s1)
                 in if Timestamp (objects s2 obj) < Timestamp (objects s2 head) then Some (TimerInsertNewHeadTimer clk obj s2)
                    else insert_after obj head s2))"

partial_function (option) remove_after :: "nat \<Rightarrow> nat \<Rightarrow> nat option \<Rightarrow> 'w timers \<Rightarrow> 'w timers option" where
  \<comment> \<open>the loop of \<open>TimerStop\<close>, at \<open>prev\<close> and \<open>cur\<close>\<close>
  "remove_after obj prev cur s =
    (case cur of
       None \<Rightarrow> Some s
     | Some p \<Rightarrow>
         if p = obj then Some (set_object prev (\<lambda>t. t\<lparr>Next := Next (objects s p)\<rparr>) s)
         else remove_after obj p (Next (objects s p)) s)"

declare remove_after.simps [code]

definition TimerStop :: "clock \<Rightarrow> nat option \<Rightarrow> 'w timers \<Rightarrow> 'w timers option" where
  "TimerStop clk obj0 s =
    (case (TimerListHead s, obj0) of
       (Some head, Some obj) \<Rightarrow>
         let s1 = set_object obj (\<lambda>t. t\<lparr>IsStarted := False\<rparr>) s
         in if head = obj then
              if IsNext2Expire (objects s1 head) then
                let s2 = set_object head (\<lambda>t. t\<lparr>IsNext2Expire := False\<rparr>) s1
                in case Next (objects s2 head) of
                     Some next \<Rightarrow> Some (TimerSetTimeout clk next (s2\<lparr>TimerListHead := Some next\<rparr>))
                   | None \<Rightarrow> Some (s2\<lparr>board := RtcStopAlarm (board s2), TimerListHead := None\<rparr>)
              else Some (s1\<lparr>TimerListHead := Next (objects s1 head)\<rparr>)
            else remove_after obj head (Some head) s1
     | _ \<Rightarrow> Some s)"

definition TimerReset :: "clock \<Rightarrow> nat \<Rightarrow> 'w timers \<Rightarrow> 'w timers option" where
  "TimerReset clk obj s = Option.bind (TimerStop clk (Some obj) s) (TimerStart clk (Some obj))"

definition TimerSetValue :: "clock \<Rightarrow> nat \<Rightarrow> uint32 \<Rightarrow> 'w timers \<Rightarrow> 'w timers option" where
  "TimerSetValue clk obj value s =
    (let ticks = RtcMs2Tick value
     in map_option (\<lambda>s1. let ticks = (if ticks < RtcGetMinimumTimeout then RtcGetMinimumTimeout else ticks)
          in set_object obj (\<lambda>t. t\<lparr>Timestamp := ticks, ReloadValue := ticks\<rparr>) s1) (TimerStop clk (Some obj) s))"

definition TimerGetCurrentTime :: "rtc_regs \<Rightarrow> uint32" where
  "TimerGetCurrentTime t = RtcTick2Ms (RtcGetTimerValue t)"

definition TimerGetElapsedTime :: "uint32 \<Rightarrow> rtc_regs \<Rightarrow> uint32" where
  "TimerGetElapsedTime past t = (if past = 0 then 0 else RtcTick2Ms (RtcGetTimerValue t - RtcMs2Tick past))"

section \<open>The interrupt\<close>

partial_function (option) rebase_from :: "uint32 \<Rightarrow> nat \<Rightarrow> 'w timers \<Rightarrow> 'w timers option" where
  \<comment> \<open>the loop over the list, at \<open>cur\<close>\<close>
  "rebase_from delta cur s =
    (case Next (objects s cur) of
       None \<Rightarrow> Some s
     | Some next \<Rightarrow> rebase_from delta next (set_object next (\<lambda>t. t\<lparr>Timestamp :=
         (if delta < Timestamp t then Timestamp t - delta else 0)\<rparr>) s))"

declare rebase_from.simps [code]

definition run_head :: "(nat \<Rightarrow> nat \<Rightarrow> 'w timers \<Rightarrow> 'w timers option) \<Rightarrow> nat \<Rightarrow> 'w timers \<Rightarrow> 'w timers option" where
  \<comment> \<open>take the head \<open>cur\<close> off the list and call its callback\<close>
  "run_head call cur s =
    (let s1 = set_object cur (\<lambda>t. t\<lparr>IsStarted := False\<rparr>) (s\<lparr>TimerListHead := Next (objects s cur)\<rparr>)
     in case Callback (objects s1 cur) of None \<Rightarrow> None | Some cb \<Rightarrow> call cb (Context (objects s1 cur)) s1)"

partial_function (option) run_expired :: "clock \<Rightarrow> (nat \<Rightarrow> nat \<Rightarrow> 'w timers \<Rightarrow> 'w timers option) \<Rightarrow> 'w timers \<Rightarrow> 'w timers option" where
  "run_expired clk call s =
    (case TimerListHead s of
       None \<Rightarrow> Some s
     | Some cur \<Rightarrow>
         if Timestamp (objects s cur) < elapsed_at clk s
         then Option.bind (run_head call cur (read_clock s)) (run_expired clk call)
         else Some (read_clock s))"

declare run_expired.simps [code]

definition rearm :: "clock \<Rightarrow> 'w timers \<Rightarrow> 'w timers" where
  "rearm clk s =
    (case TimerListHead s of
       Some head \<Rightarrow> if \<not> IsNext2Expire (objects s head) then TimerSetTimeout clk head s else s
     | None \<Rightarrow> s)"

definition TimerIrqHandler :: "clock \<Rightarrow> (nat \<Rightarrow> nat \<Rightarrow> 'w timers \<Rightarrow> 'w timers option) \<Rightarrow> 'w timers \<Rightarrow> 'w timers option" where
  "TimerIrqHandler clk call s0 =
    (let old = context_time (board s0); s1 = set_context clk s0; deltaContext = context_time (board s1) - old
     in Option.bind (case TimerListHead s1 of None \<Rightarrow> Some s1 | Some head \<Rightarrow> rebase_from deltaContext head s1) (\<lambda>s2.
        Option.bind (case TimerListHead s2 of None \<Rightarrow> Some s2 | Some head \<Rightarrow> run_head call head s2) (\<lambda>s3.
        map_option (rearm clk) (run_expired clk call s3))))"

section \<open>Chains\<close>

fun chain :: "(nat \<Rightarrow> timer_event) \<Rightarrow> nat option \<Rightarrow> nat list \<Rightarrow> bool" where
  "chain h p [] \<longleftrightarrow> p = None"
| "chain h p (a # as) \<longleftrightarrow> p = Some a \<and> chain h (Next (h a)) as"

lemma chain_cong:
  "(\<And>a. a \<in> set as \<Longrightarrow> Next (h' a) = Next (h a)) \<Longrightarrow> chain h' p as = chain h p as"
  by (induction as arbitrary: p) simp_all

lemma chain_unique: "chain h p as \<Longrightarrow> chain h p bs \<Longrightarrow> as = bs"
proof (induction as arbitrary: p bs)
  case (Cons a as) then show ?case by (cases bs) auto
qed (auto elim: chain.elims)

lemma chain_append: "chain h p (as @ b # bs) \<Longrightarrow> chain h (Some b) (b # bs)"
  by (induction as arbitrary: p) auto

lemma chain_distinct: "chain h p as \<Longrightarrow> distinct as"
proof (induction as arbitrary: p)
  case (Cons a as)
  have "a \<notin> set as"
  proof
    assume "a \<in> set as"
    then obtain us vs where as: "as = us @ a # vs" by (auto simp: in_set_conv_decomp)
    with Cons.prems have "chain h (Next (h a)) (us @ a # vs)" by simp
    from chain_append [OF this] have "chain h (Next (h a)) vs" by simp
    moreover have "chain h (Next (h a)) as" using Cons.prems by simp
    ultimately have "vs = as" by (rule chain_unique)
    with as show False by simp
  qed
  with Cons show ?case by auto
qed simp

lemma set_object_simps [simp]:
  "objects (set_object p f s) = (objects s)(p := f (objects s p))" "TimerListHead (set_object p f s) = TimerListHead s"
  "board (set_object p f s) = board s" "readings (set_object p f s) = readings s" "world (set_object p f s) = world s"
  by (simp_all add: set_object_def)

lemma read_clock_simps [simp]:
  "objects (read_clock s) = objects s" "TimerListHead (read_clock s) = TimerListHead s" "board (read_clock s) = board s"
  "readings (read_clock s) = Suc (readings s)" "world (read_clock s) = world s"
  by (simp_all add: read_clock_def)

lemma set_context_simps [simp]:
  "objects (set_context clk s) = objects s" "TimerListHead (set_context clk s) = TimerListHead s" "world (set_context clk s) = world s"
  "context_time (board (set_context clk s)) = RtcGetTimerValue (clk (readings s))" "context_regs (board (set_context clk s)) = clk (readings s)"
  by (simp_all add: set_context_def RtcSetTimerContext_def)

lemma TimerExists_chain:
  "chain (objects s) p as \<Longrightarrow> TimerExists obj p s = Some (obj \<in> set as)"
proof (induction as arbitrary: p)
  case (Cons a as) then show ?case by (subst TimerExists.simps) auto
qed (subst TimerExists.simps, simp)

definition relinked :: "'w timers \<Rightarrow> 'w timers \<Rightarrow> nat set \<Rightarrow> bool" where
  \<comment> \<open>only \<open>Next\<close> pointers have changed, of the given objects\<close>
  "relinked s s' X \<longleftrightarrow> TimerListHead s' = TimerListHead s \<and> board s' = board s \<and> readings s' = readings s \<and> world s' = world s \<and>
     (\<forall>x. objects s' x = (objects s x)\<lparr>Next := Next (objects s' x)\<rparr>) \<and> (\<forall>x. x \<notin> X \<longrightarrow> Next (objects s' x) = Next (objects s x))"

lemma insert_after_chain:
  assumes "chain (objects s) (Next (objects s cur)) as" "obj \<notin> set (cur # as)" "cur \<notin> set as"
  shows "\<exists>s'. insert_after obj cur s = Some s' \<and> relinked s s' (set (obj # cur # as)) \<and>
    (let P = (\<lambda>a. Timestamp (objects s a) < Timestamp (objects s obj))
     in chain (objects s') (Next (objects s' cur)) (takeWhile P as @ obj # dropWhile P as))"
  using assms
proof (induction as arbitrary: cur)
  case Nil
  then show ?case by (subst insert_after.simps) (auto simp: relinked_def)
next
  case (Cons a as)
  let ?P = "\<lambda>a. Timestamp (objects s a) < Timestamp (objects s obj)"
  have next_cur: "Next (objects s cur) = Some a" and rest: "chain (objects s) (Next (objects s a)) as" using Cons.prems by auto
  have dist: "a \<notin> set as" using chain_distinct [OF Cons.prems(1)] by simp
  show ?case
  proof (cases "?P a")
    case True
    from Cons.IH [OF rest] Cons.prems dist obtain s' where s': "insert_after obj a s = Some s'"
      "relinked s s' (set (obj # a # as))" "chain (objects s') (Next (objects s' a)) (takeWhile ?P as @ obj # dropWhile ?P as)"
      by (auto simp: Let_def)
    have "Next (objects s' cur) = Some a" using s'(2) Cons.prems next_cur by (auto simp: relinked_def)
    then show ?thesis using s' True next_cur by (subst insert_after.simps) (auto simp: relinked_def)
  next
    case False
    let ?s = "set_object obj (\<lambda>t. t\<lparr>Next := Some a\<rparr>) (set_object cur (\<lambda>t. t\<lparr>Next := Some obj\<rparr>) s)"
    have "chain (objects ?s) (Next (objects s a)) as = chain (objects s) (Next (objects s a)) as"
      by (rule chain_cong) (use Cons.prems in auto)
    then show ?thesis using False next_cur rest Cons.prems by (subst insert_after.simps) (auto simp: relinked_def)
  qed
qed

lemma remove_after_chain:
  assumes "chain (objects s) (Some prev) (prev # as)" "obj \<noteq> prev"
  shows "\<exists>s'. remove_after obj prev (Next (objects s prev)) s = Some s' \<and> relinked s s' (set (prev # as)) \<and>
    chain (objects s') (Some prev) (prev # removeAll obj as)"
  using assms
proof (induction as arbitrary: prev)
  case Nil
  then show ?case by (subst remove_after.simps) (auto simp: relinked_def)
next
  case (Cons a as)
  have next_prev: "Next (objects s prev) = Some a" and rest: "chain (objects s) (Some a) (a # as)" using Cons.prems by auto
  have dist: "a \<notin> set as" "prev \<notin> set as" "prev \<noteq> a" using chain_distinct [OF Cons.prems(1)] by simp_all
  show ?case
  proof (cases "a = obj")
    case True
    have "chain (objects (set_object prev f s)) (Next (objects s a)) as = chain (objects s) (Next (objects s a)) as" for f
      by (rule chain_cong) (use dist in auto)
    then show ?thesis using True next_prev rest dist Cons.prems
      by (subst remove_after.simps) (auto simp: relinked_def)
  next
    case False
    from Cons.IH [OF rest] False obtain s' where s': "remove_after obj a (Next (objects s a)) s = Some s'"
      "relinked s s' (set (a # as))" "chain (objects s') (Some a) (a # removeAll obj as)" by auto
    have "Next (objects s' prev) = Some a" using s'(2) dist next_prev by (auto simp: relinked_def)
    then show ?thesis using s' False next_prev by (subst remove_after.simps) (auto simp: relinked_def)
  qed
qed

section \<open>The queue of timers\<close>

definition armed :: "'w timers \<Rightarrow> nat \<Rightarrow> bool" where
  \<comment> \<open>the alarm is the one of this timer\<close>
  "armed s p \<longleftrightarrow> rtc_alarm_a (board s) = Some (RtcStartAlarm (Timestamp (objects s p)) (context_regs (board s)))"

definition timer_queue :: "'w timers \<Rightarrow> nat list \<Rightarrow> bool" where
  "timer_queue s as \<longleftrightarrow> chain (objects s) (TimerListHead s) as \<and> (\<forall>p. IsStarted (objects s p) \<longleftrightarrow> p \<in> set as) \<and>
     (\<forall>p \<in> set (tl as). \<not> IsNext2Expire (objects s p)) \<and> (as \<noteq> [] \<longrightarrow> IsNext2Expire (objects s (hd as)) \<longrightarrow> armed s (hd as))"

definition running :: "'w timers \<Rightarrow> nat list \<Rightarrow> bool" where
  "running s as \<longleftrightarrow> timer_queue s as \<and> (as \<noteq> [] \<longrightarrow> IsNext2Expire (objects s (hd as)))"

definition same_timer :: "timer_event \<Rightarrow> timer_event \<Rightarrow> bool" where
  "same_timer a b \<longleftrightarrow> Timestamp b = Timestamp a \<and> ReloadValue b = ReloadValue a \<and> Callback b = Callback a \<and> Context b = Context a"

lemma same_timer_refl [simp]: "same_timer a a"
  by (simp add: same_timer_def)

definition timeout_of :: "clock \<Rightarrow> nat \<Rightarrow> 'w timers \<Rightarrow> uint32" where
  \<comment> \<open>the timestamp \<open>TimerSetTimeout\<close> leaves, moved when it is too soon\<close>
  "timeout_of clk p s =
    (if Timestamp (objects s p) < elapsed_at clk s + 3 then elapsed_at clk (read_clock s) + 3 else Timestamp (objects s p))"

lemma TimerSetTimeout_facts:
  fixes s :: "'w timers" and clk p
  defines "s' \<equiv> TimerSetTimeout clk p s"
  shows "objects s' = (objects s)(p := (objects s p)\<lparr>IsNext2Expire := True, Timestamp := timeout_of clk p s\<rparr>)"
    "TimerListHead s' = TimerListHead s" "world s' = world s" "context_regs (board s') = context_regs (board s)"
    "context_time (board s') = context_time (board s)" "armed s' p"
  by (simp_all add: s'_def TimerSetTimeout_def set_alarm_def timeout_of_def armed_def RtcSetAlarm_def RtcStopAlarm_def LpmSetStopMode_def
      Let_def RtcGetMinimumTimeout_def MIN_ALARM_DELAY_def elapsed_at_def)

lemma set_timeout_running:
  assumes "timer_queue s (p # as)"
  shows "running (TimerSetTimeout clk p s) (p # as)"
proof -
  have d: "p \<notin> set as" using assms chain_distinct [of "objects s" "TimerListHead s" "p # as"] by (simp add: timer_queue_def)
  have "chain (objects (TimerSetTimeout clk p s)) q as = chain (objects s) q as" for q
    by (rule chain_cong) (auto simp: TimerSetTimeout_facts)
  with assms d show ?thesis by (auto simp: running_def timer_queue_def TimerSetTimeout_facts)
qed

lemma new_head_running:
  assumes "timer_queue s as" "obj \<notin> set as" "s1 = set_object obj (\<lambda>t. t\<lparr>Timestamp := k, IsStarted := True, IsNext2Expire := False\<rparr>) s"
    and "TimerListHead s2 = TimerListHead s" "objects s2 = objects s1"
  shows "running (TimerInsertNewHeadTimer clk obj s2) (obj # as)"
proof -
  define h where "h = (case TimerListHead s of Some p \<Rightarrow> set_object p (\<lambda>t. t\<lparr>IsNext2Expire := False\<rparr>) s2 | None \<Rightarrow> s2)"
  define s3 where "s3 = (set_object obj (\<lambda>t. t\<lparr>Next := TimerListHead s\<rparr>) h)\<lparr>TimerListHead := Some obj\<rparr>"
  have h: "objects h x = (objects s2 x)\<lparr>IsNext2Expire := IsNext2Expire (objects s2 x) \<and> TimerListHead s \<noteq> Some x\<rparr>" for x
    by (auto simp: h_def split: option.split)
  have s3: "objects s3 x = (if x = obj then (objects h obj)\<lparr>Next := TimerListHead s\<rparr> else objects h x)" "TimerListHead s3 = Some obj" for x
    by (simp_all add: s3_def)
  have chain: "chain (objects s3) q as = chain (objects s) q as" for q
    by (rule chain_cong) (use assms(2) in \<open>auto simp: s3(1) h assms(3,5)\<close>)
  have head: "TimerListHead s = (if as = [] then None else Some (hd as))"
    using assms(1) by (cases as) (auto simp: timer_queue_def)
  have "\<not> IsNext2Expire (objects s3 x)" if "x \<in> set as" for x
    using that assms(1,2) unfolding timer_queue_def by (cases as) (auto simp: head s3(1) h assms(3,5))
  moreover have "\<not> IsNext2Expire (objects s3 obj)" by (simp add: s3(1) h assms(3,5))
  moreover have "IsStarted (objects s3 x) \<longleftrightarrow> x = obj \<or> x \<in> set as" for x
    using assms(1) by (simp add: s3(1) h assms(3,5) timer_queue_def)
  ultimately have "timer_queue s3 (obj # as)"
    using assms(1) unfolding timer_queue_def by (simp add: chain s3)
  from set_timeout_running [OF this] show ?thesis
    by (simp add: TimerInsertNewHeadTimer_def Let_def assms(4) s3_def h_def)
qed

definition insert_timer :: "uint32 \<Rightarrow> (nat \<Rightarrow> uint32) \<Rightarrow> nat \<Rightarrow> nat list \<Rightarrow> nat list" where
  \<comment> \<open>the specification of \<open>TimerStart\<close>: before the first of the others that is later, after equal ones but the head\<close>
  "insert_timer k ts obj as =
    (case as of [] \<Rightarrow> [obj]
     | a # bs \<Rightarrow> if k < ts a then obj # as else a # takeWhile (\<lambda>b. ts b < k) bs @ obj # dropWhile (\<lambda>b. ts b < k) bs)"

definition start_time :: "clock \<Rightarrow> nat \<Rightarrow> 'w timers \<Rightarrow> uint32" where
  "start_time clk obj s = (if TimerListHead s = None then ReloadValue (objects s obj) else ReloadValue (objects s obj) + elapsed_at clk s)"

definition timestamp_or_soon :: "clock \<Rightarrow> uint32 \<Rightarrow> 'w timers \<Rightarrow> nat \<Rightarrow> bool" where
  \<comment> \<open>the timer has the timestamp \<open>k\<close>, or the soonest one there is\<close>
  "timestamp_or_soon clk k s p \<longleftrightarrow> Timestamp (objects s p) = k \<or> (\<exists>n. Timestamp (objects s p) = RtcGetTimerElapsedTime (clk n) (board s) + 3)"

lemma set_split_insert: "set (takeWhile P xs @ x # dropWhile P xs) = insert x (set xs)"
  by (metis Un_insert_right list.set(2) set_append takeWhile_dropWhile_id)

lemma set_insert_timer: "set (insert_timer k ts obj as) = insert obj (set as)"
  by (cases as) (auto simp: insert_timer_def set_split_insert simp del: set_append)

lemma elapsed_at_cong:
  "board s = board s' \<Longrightarrow> readings s = readings s' \<Longrightarrow> elapsed_at clk s = elapsed_at clk s'"
  by (simp add: elapsed_at_def)

lemma timeout_or_soon:
  "timestamp_or_soon clk (Timestamp (objects s p)) (TimerSetTimeout clk p s) p"
proof -
  have "RtcGetTimerElapsedTime t (board (TimerSetTimeout clk p s)) = RtcGetTimerElapsedTime t (board s)" for t
    by (simp add: RtcGetTimerElapsedTime_def TimerSetTimeout_facts)
  then show ?thesis by (auto simp: timestamp_or_soon_def TimerSetTimeout_facts timeout_of_def elapsed_at_def)
qed

lemma new_head_frame:
  assumes "x \<noteq> obj"
  shows "same_timer (objects s x) (objects (TimerInsertNewHeadTimer clk obj s) x)"
  using assms by (auto simp: TimerInsertNewHeadTimer_def Let_def TimerSetTimeout_facts same_timer_def split: option.split)

lemma new_head_soon:
  "timestamp_or_soon clk (Timestamp (objects s obj)) (TimerInsertNewHeadTimer clk obj s) obj"
proof -
  let ?h = "case TimerListHead s of Some p \<Rightarrow> set_object p (\<lambda>t. t\<lparr>IsNext2Expire := False\<rparr>) s | None \<Rightarrow> s"
  have "Timestamp (objects ((set_object obj (\<lambda>t. t\<lparr>Next := TimerListHead s\<rparr>) ?h)\<lparr>TimerListHead := Some obj\<rparr>) obj) = Timestamp (objects s obj)"
    by (simp split: option.split)
  then show ?thesis unfolding TimerInsertNewHeadTimer_def Let_def by (metis timeout_or_soon)
qed

lemma new_head_world [simp]: "world (TimerInsertNewHeadTimer clk obj s) = world s"
  by (simp add: TimerInsertNewHeadTimer_def Let_def TimerSetTimeout_facts split: option.split)

lemma TimerStart_queue:
  fixes s :: "'w timers" and clk
  assumes q: "timer_queue s as" and new: "obj \<notin> set as"
  defines "as' \<equiv> insert_timer (start_time clk obj s) (\<lambda>a. Timestamp (objects s a)) obj as"
  obtains s' where "TimerStart clk (Some obj) s = Some s'" "timer_queue s' as'" "running s as \<Longrightarrow> running s' as'"
    "\<And>x. x \<noteq> obj \<Longrightarrow> same_timer (objects s x) (objects s' x)" "world s' = world s"
    "timestamp_or_soon clk (start_time clk obj s) s' obj"
proof -
  let ?s1 = "set_object obj (\<lambda>t. t\<lparr>Timestamp := ReloadValue t, IsStarted := True, IsNext2Expire := False\<rparr>) s"
  have chain: "chain (objects s) (TimerListHead s) as" using q by (simp add: timer_queue_def)
  have ex: "TimerExists obj (TimerListHead s) s = Some False" using TimerExists_chain [OF chain] new by simp
  show thesis
  proof (cases as)
    case Nil
    with chain have h: "TimerListHead s = None" by simp
    let ?s2 = "set_context clk ?s1"
    have r: "running (TimerInsertNewHeadTimer clk obj ?s2) as'"
      using new_head_running [OF q new refl, of ?s2 "ReloadValue (objects s obj)" clk] Nil by (simp add: as'_def insert_timer_def)
    show thesis
    proof (rule that)
      show "TimerStart clk (Some obj) s = Some (TimerInsertNewHeadTimer clk obj ?s2)" by (simp add: TimerStart_def ex [unfolded h] h Let_def)
      show "timestamp_or_soon clk (start_time clk obj s) (TimerInsertNewHeadTimer clk obj ?s2) obj"
        using new_head_soon [of clk ?s2 obj] by (simp add: start_time_def h)
      fix x assume "x \<noteq> obj"
      from new_head_frame [OF this, of ?s2] this show "same_timer (objects s x) (objects (TimerInsertNewHeadTimer clk obj ?s2) x)" by simp
    qed (use r in \<open>simp_all add: running_def\<close>)
  next
    case (Cons a bs)
    with chain have h: "TimerListHead s = Some a" and rest: "chain (objects s) (Next (objects s a)) bs" by simp_all
    let ?k = "start_time clk obj s"
    let ?s2 = "set_object obj (\<lambda>t. t\<lparr>Timestamp := Timestamp t + elapsed_at clk ?s1\<rparr>) (read_clock ?s1)"
    have k: "?k = ReloadValue (objects s obj) + elapsed_at clk ?s1" by (simp add: start_time_def h elapsed_at_def)
    have objs: "objects ?s2 = objects (set_object obj (\<lambda>t. t\<lparr>Timestamp := ?k, IsStarted := True, IsNext2Expire := False\<rparr>) s)"
      unfolding k by (intro ext timer_event.equality) auto
    have ts: "Timestamp (objects ?s2 x) = (if x = obj then ?k else Timestamp (objects s x))" for x by (simp add: k)
    have obj: "obj \<noteq> a" "obj \<notin> set bs" and dist: "a \<notin> set bs" using new Cons chain_distinct [OF chain] by auto
    have "TimerStart clk (Some obj) s = (if Timestamp (objects ?s2 obj) < Timestamp (objects ?s2 a)
        then Some (TimerInsertNewHeadTimer clk obj ?s2) else insert_after obj a ?s2)"
      by (simp add: TimerStart_def ex [unfolded h] h Let_def)
    then have start: "TimerStart clk (Some obj) s = (if ?k < Timestamp (objects s a) then Some (TimerInsertNewHeadTimer clk obj ?s2)
        else insert_after obj a ?s2)"
      by (simp only: ts refl if_True if_not_P [OF obj(1) [symmetric]])
    show thesis
    proof (cases "?k < Timestamp (objects s a)")
      case True
      have r: "running (TimerInsertNewHeadTimer clk obj ?s2) as'"
        using new_head_running [OF q new refl _ objs, of clk] True Cons by (simp add: as'_def insert_timer_def)
      show thesis
      proof (rule that)
        show "TimerStart clk (Some obj) s = Some (TimerInsertNewHeadTimer clk obj ?s2)" using start True by simp
        show "timestamp_or_soon clk ?k (TimerInsertNewHeadTimer clk obj ?s2) obj" using new_head_soon [of clk ?s2 obj] by (simp only: ts refl if_True)
        fix x assume "x \<noteq> obj"
        from new_head_frame [OF this, of ?s2] this show "same_timer (objects s x) (objects (TimerInsertNewHeadTimer clk obj ?s2) x)" by simp
      qed (use r in \<open>simp_all add: running_def\<close>)
    next
      case False
      have nxt: "Next (objects ?s2 x) = Next (objects s x)" for x by simp
      have "chain (objects ?s2) (Next (objects ?s2 a)) bs"
        unfolding nxt using rest chain_cong [of bs "objects ?s2" "objects s"] nxt by blast
      from insert_after_chain [OF this, of obj] obj dist obtain s' where s': "insert_after obj a ?s2 = Some s'"
        "relinked ?s2 s' (set (obj # a # bs))"
        "let P = (\<lambda>x. Timestamp (objects ?s2 x) < Timestamp (objects ?s2 obj))
         in chain (objects s') (Next (objects s' a)) (takeWhile P bs @ obj # dropWhile P bs)" by auto
      have "takeWhile (\<lambda>x. Timestamp (objects ?s2 x) < Timestamp (objects ?s2 obj)) bs = takeWhile (\<lambda>b. Timestamp (objects s b) < ?k) bs"
        "dropWhile (\<lambda>x. Timestamp (objects ?s2 x) < Timestamp (objects ?s2 obj)) bs = dropWhile (\<lambda>b. Timestamp (objects s b) < ?k) bs"
        using obj(2) unfolding ts by (intro takeWhile_cong dropWhile_cong refl; auto)+
      with s'(3) False Cons have c: "as' = a # tl as'" "chain (objects s') (Next (objects s' a)) (tl as')"
        by (simp_all add: as'_def insert_timer_def Let_def)
      have mem: "set (tl as') = insert obj (set bs)" using False Cons by (simp add: as'_def insert_timer_def set_split_insert del: set_append)
      have link: "objects s' x = (objects ?s2 x)\<lparr>Next := Next (objects s' x)\<rparr>" for x using s'(2) by (simp add: relinked_def)
      have same: "TimerListHead s' = Some a" "board s' = board s" "world s' = world s" using s'(2) h by (simp_all add: relinked_def)
      have f: "IsStarted (objects s' x) = (x = obj \<or> IsStarted (objects s x))" "Timestamp (objects s' x) = Timestamp (objects ?s2 x)"
        "IsNext2Expire (objects s' x) = (x \<noteq> obj \<and> IsNext2Expire (objects s x))" for x
        by (subst link; simp)+
      have "timer_queue s' (a # tl as') \<and> (running s as \<longrightarrow> running s' (a # tl as'))"
        using q c(2) new obj unfolding running_def timer_queue_def armed_def same Cons
        by (auto simp: mem f ts)
      with c(1) have r: "timer_queue s' as'" "running s as \<Longrightarrow> running s' as'" by simp_all
      show thesis
      proof (rule that)
        show "TimerStart clk (Some obj) s = Some s'" using start False s'(1) by simp
        show "timestamp_or_soon clk ?k s' obj" unfolding timestamp_or_soon_def f(2) ts by simp
        fix x assume "x \<noteq> obj"
        then show "same_timer (objects s x) (objects s' x)" by (subst link) (simp add: same_timer_def)
      qed (use r same in simp_all)
    qed
  qed
qed


lemma queue_head:
  assumes "timer_queue s (a # bs)"
  shows "TimerListHead s = Some a" "chain (objects s) (Next (objects s a)) bs" "a \<notin> set bs" "distinct bs"
    "\<And>x. x \<in> set bs \<Longrightarrow> \<not> IsNext2Expire (objects s x)" "IsStarted (objects s x) \<longleftrightarrow> x = a \<or> x \<in> set bs"
  using assms chain_distinct [of "objects s" "TimerListHead s" "a # bs"] by (auto simp: timer_queue_def)

lemma pop_head_queue:
  assumes q: "timer_queue s (a # bs)" and h: "TimerListHead s' = Next (objects s a)" and a: "\<not> IsStarted (objects s' a)"
    and same: "\<And>x. x \<noteq> a \<Longrightarrow> IsStarted (objects s' x) = IsStarted (objects s x) \<and>
      IsNext2Expire (objects s' x) = IsNext2Expire (objects s x) \<and> Next (objects s' x) = Next (objects s x)"
  shows "timer_queue s' bs"
proof -
  note f = queue_head [OF q]
  have s: "Next (objects s' x) = Next (objects s x)" "\<not> IsNext2Expire (objects s' x)" if "x \<in> set bs" for x
    using that f(3,5) same by metis+
  have "chain (objects s') (Next (objects s a)) bs"
    using f(2) chain_cong [of bs "objects s'" "objects s"] s(1) by blast
  moreover have "IsStarted (objects s' x) \<longleftrightarrow> x \<in> set bs" for x using a f(3,6) same by metis
  moreover have "\<not> IsNext2Expire (objects s' x)" if "x \<in> set (tl bs)" for x using that by (intro s(2)) (cases bs, auto)
  moreover have "bs \<noteq> [] \<Longrightarrow> \<not> IsNext2Expire (objects s' (hd bs))" by (intro s(2)) simp
  ultimately show ?thesis unfolding timer_queue_def h by blast
qed

lemma TimerStop_queue:
  fixes s :: "'w timers" and clk obj
  assumes q: "timer_queue s as"
  obtains s' where "TimerStop clk (Some obj) s = Some s'" "timer_queue s' (removeAll obj as)"
    "running s as \<Longrightarrow> running s' (removeAll obj as)" "world s' = world s"
    "as = [] \<or> hd as \<noteq> obj \<Longrightarrow> (\<forall>x. same_timer (objects s x) (objects s' x)) \<and> board s' = board s"
proof (cases as)
  case Nil
  with q have "TimerStop clk (Some obj) s = Some s" by (simp add: TimerStop_def timer_queue_def)
  with q Nil that [of s] show thesis by simp
next
  case (Cons a bs)
  note f = queue_head [OF q [unfolded Cons]]
  let ?s1 = "set_object obj (\<lambda>t. t\<lparr>IsStarted := False\<rparr>) s"
  show thesis
  proof (cases "a = obj")
    case True
    have rem: "removeAll obj as = bs" using True Cons f(3) by simp
    let ?s2 = "set_object a (\<lambda>t. t\<lparr>IsNext2Expire := False\<rparr>) ?s1"
    have no: "as \<noteq> [] \<and> hd as = obj" using True Cons by simp
    show thesis
    proof (cases "IsNext2Expire (objects s a)")
      case expire: True
      show thesis
      proof (cases bs)
        case Nil
        let ?s3 = "?s2\<lparr>board := RtcStopAlarm (board s), TimerListHead := None\<rparr>"
        have "TimerStop clk (Some obj) s = Some ?s3" using expire True Nil f(1,2) by (simp add: TimerStop_def Let_def)
        moreover have "timer_queue ?s3 bs" using f(2) Nil by (intro pop_head_queue [OF q [unfolded Cons]]) (auto simp: True)
        moreover from this have "running ?s3 bs" using Nil by (simp add: running_def)
        ultimately show thesis using that [of ?s3] no rem by simp
      next
        case (Cons b cs)
        let ?s3 = "?s2\<lparr>TimerListHead := Some b\<rparr>"
        have "timer_queue ?s3 bs" using f(2) Cons by (intro pop_head_queue [OF q [unfolded \<open>as = a # bs\<close>]]) (auto simp: True)
        then have "running (TimerSetTimeout clk b ?s3) bs" unfolding Cons by (rule set_timeout_running)
        moreover have "TimerStop clk (Some obj) s = Some (TimerSetTimeout clk b ?s3)"
          using expire True Cons f(1,2) by (simp add: TimerStop_def Let_def)
        ultimately show thesis using that [of "TimerSetTimeout clk b ?s3"] no rem by (simp add: running_def TimerSetTimeout_facts)
      qed
    next
      case expire: False
      let ?s3 = "?s1\<lparr>TimerListHead := Next (objects ?s1 a)\<rparr>"
      have "TimerStop clk (Some obj) s = Some ?s3" using expire True f(1) by (simp add: TimerStop_def Let_def)
      moreover have "timer_queue ?s3 bs" by (intro pop_head_queue [OF q [unfolded Cons]]) (auto simp: True)
      moreover have "\<not> running s as" using expire Cons by (simp add: running_def)
      ultimately show thesis using that [of ?s3] no rem by simp
    qed
  next
    case False
    have "chain (objects ?s1) (Some a) (a # bs)"
      using f(2) chain_cong [of bs "objects ?s1" "objects s"] False by simp
    from remove_after_chain [OF this not_sym [OF False]] obtain s' where s': "remove_after obj a (Next (objects ?s1 a)) ?s1 = Some s'"
      "relinked ?s1 s' (set (a # bs))" "chain (objects s') (Some a) (a # removeAll obj bs)" by blast
    have start: "TimerStop clk (Some obj) s = Some s'"
      using s'(1) False f(1) by (simp add: TimerStop_def Let_def remove_after.simps [of obj a "Some a"])
    have rem: "removeAll obj as = a # removeAll obj bs" using False Cons by simp
    have link: "objects s' x = (objects ?s1 x)\<lparr>Next := Next (objects s' x)\<rparr>" for x using s'(2) by (simp add: relinked_def)
    have same: "TimerListHead s' = Some a" "board s' = board s" "world s' = world s" using s'(2) f(1) by (simp_all add: relinked_def)
    have g: "IsStarted (objects s' x) = (x \<noteq> obj \<and> IsStarted (objects s x))" "Timestamp (objects s' x) = Timestamp (objects s x)"
      "IsNext2Expire (objects s' x) = IsNext2Expire (objects s x)" for x by (subst link; simp)+
    have "timer_queue s' (a # removeAll obj bs) \<and> (running s as \<longrightarrow> running s' (a # removeAll obj bs))"
      using q s'(3) False unfolding running_def timer_queue_def armed_def same Cons by (auto simp: g)
    moreover have "same_timer (objects s x) (objects s' x)" for x by (subst link) (simp add: same_timer_def)
    ultimately show thesis using that [OF start] same rem by simp
  qed
qed

lemma running_queue: "running s as \<Longrightarrow> timer_queue s as"
  by (simp add: running_def)

lemma started_queue:
  assumes "timer_queue s as" "obj \<in> set as"
  shows "TimerStart clk (Some obj) s = Some s"
  using assms TimerExists_chain [of s "TimerListHead s" as obj] by (simp add: TimerStart_def timer_queue_def)

lemma touch_queue:
  \<comment> \<open>the fields of an object that is not in the list, or those the list does not depend on\<close>
  assumes q: "timer_queue s as" and "\<And>t. f t = t\<lparr>Timestamp := Timestamp (f t), ReloadValue := ReloadValue (f t), Context := Context (f t)\<rparr>"
    and "p \<in> set as \<Longrightarrow> (\<And>t. Timestamp (f t) = Timestamp t)"
  shows "timer_queue (set_object p f s) as" "running s as \<Longrightarrow> running (set_object p f s) as"
proof -
  have f: "Next (f t) = Next t" "IsStarted (f t) = IsStarted t" "IsNext2Expire (f t) = IsNext2Expire t" for t
    by (subst assms(2), simp)+
  have c: "chain (objects (set_object p f s)) q as = chain (objects s) q as" for q by (rule chain_cong) (simp add: f)
  have a: "armed (set_object p f s) (hd as) = armed s (hd as)" if "as \<noteq> []"
    using assms(3) that hd_in_set [OF that] by (auto simp: armed_def)
  show "timer_queue (set_object p f s) as" using q c a unfolding timer_queue_def by (auto simp: f)
  then show "running s as \<Longrightarrow> running (set_object p f s) as" by (auto simp: running_def f)
qed

section \<open>Operations in a row\<close>

datatype timer_op = Start nat | Stop nat | Reset nat | Set_Value nat uint32 | Set_Context nat nat

fun do_op :: "clock \<Rightarrow> timer_op \<Rightarrow> 'w timers \<Rightarrow> 'w timers option" where
  "do_op clk (Start p) s = TimerStart clk (Some p) s"
| "do_op clk (Stop p) s = TimerStop clk (Some p) s"
| "do_op clk (Reset p) s = TimerReset clk p s"
| "do_op clk (Set_Value p v) s = TimerSetValue clk p v s"
| "do_op clk (Set_Context p c) s = Some (TimerSetContext p c s)"

fun do_ops :: "clock \<Rightarrow> timer_op list \<Rightarrow> 'w timers \<Rightarrow> 'w timers option" where
  "do_ops clk [] s = Some s"
| "do_ops clk (op # ops) s = Option.bind (do_op clk op s) (do_ops clk ops)"

definition keeps_queue :: "('w timers \<Rightarrow> 'w timers option) \<Rightarrow> bool" where
  "keeps_queue f \<longleftrightarrow> (\<forall>s as. timer_queue s as \<longrightarrow> (\<exists>s' as'. f s = Some s' \<and> timer_queue s' as' \<and> (running s as \<longrightarrow> running s' as')))"

lemma keeps_bind:
  fixes f g :: "'w timers \<Rightarrow> 'w timers option"
  assumes "keeps_queue f" "keeps_queue g"
  shows "keeps_queue (\<lambda>s. Option.bind (f s) g)"
  unfolding keeps_queue_def
proof (intro allI impI)
  fix s :: "'w timers" and as
  assume "timer_queue s as"
  then obtain s1 as1 where 1: "f s = Some s1" "timer_queue s1 as1" "running s as \<longrightarrow> running s1 as1"
    using assms(1) unfolding keeps_queue_def by blast
  then obtain s2 as2 where "g s1 = Some s2" "timer_queue s2 as2" "running s1 as1 \<longrightarrow> running s2 as2"
    using assms(2) unfolding keeps_queue_def by blast
  with 1 show "\<exists>s' as'. Option.bind (f s) g = Some s' \<and> timer_queue s' as' \<and> (running s as \<longrightarrow> running s' as')" by auto
qed

lemma keeps_start: "keeps_queue (TimerStart clk (Some p))"
  unfolding keeps_queue_def
proof (intro allI impI)
  fix s :: "'w timers" and as
  assume q: "timer_queue s as"
  show "\<exists>s' as'. TimerStart clk (Some p) s = Some s' \<and> timer_queue s' as' \<and> (running s as \<longrightarrow> running s' as')"
  proof (cases "p \<in> set as")
    case True
    with started_queue [OF q] q show ?thesis by blast
  next
    case False
    with TimerStart_queue [OF q this] show ?thesis by metis
  qed
qed

lemma keeps_stop: "keeps_queue (TimerStop clk (Some p))"
  unfolding keeps_queue_def using TimerStop_queue by metis

lemma keeps_set_value: "keeps_queue (TimerSetValue clk p v)"
  unfolding keeps_queue_def
proof (intro allI impI)
  fix s :: "'w timers" and as
  assume q: "timer_queue s as"
  from TimerStop_queue [OF q] obtain s1 where 1: "TimerStop clk (Some p) s = Some s1" "timer_queue s1 (removeAll p as)"
    "running s as \<Longrightarrow> running s1 (removeAll p as)" by metis
  let ?f = "\<lambda>t. t\<lparr>Timestamp := max (RtcMs2Tick v) RtcGetMinimumTimeout, ReloadValue := max (RtcMs2Tick v) RtcGetMinimumTimeout\<rparr>"
  have "TimerSetValue clk p v s = Some (set_object p ?f s1)"
    using 1(1) by (simp add: TimerSetValue_def Let_def max_def not_le [symmetric])
  moreover have "timer_queue (set_object p ?f s1) (removeAll p as)" "running s as \<Longrightarrow> running (set_object p ?f s1) (removeAll p as)"
    using 1(3) by (auto intro!: touch_queue [OF 1(2)])
  ultimately show "\<exists>s' as'. TimerSetValue clk p v s = Some s' \<and> timer_queue s' as' \<and> (running s as \<longrightarrow> running s' as')" by blast
qed

lemma keeps_set_context: "keeps_queue (\<lambda>s. Some (TimerSetContext p c s))"
  unfolding keeps_queue_def TimerSetContext_def using touch_queue [where f = "\<lambda>t. t\<lparr>Context := c\<rparr>" and p = p] by fastforce

lemma keeps_eq: "(\<And>s. f s = g s) \<Longrightarrow> keeps_queue g \<Longrightarrow> keeps_queue f"
  by (simp add: keeps_queue_def)

lemma keeps_op: "keeps_queue (do_op clk op :: 'w timers \<Rightarrow> 'w timers option)"
proof (cases op)
  case (Start p)
  show ?thesis unfolding Start by (rule keeps_eq [OF do_op.simps(1) keeps_start])
next
  case (Stop p)
  show ?thesis unfolding Stop by (rule keeps_eq [OF do_op.simps(2) keeps_stop])
next
  case (Reset p)
  show ?thesis unfolding Reset by (rule keeps_eq [OF _ keeps_bind [OF keeps_stop keeps_start]]) (simp add: TimerReset_def)
next
  case (Set_Value p v)
  show ?thesis unfolding Set_Value by (rule keeps_eq [OF do_op.simps(4) keeps_set_value])
next
  case (Set_Context p c)
  show ?thesis unfolding Set_Context by (rule keeps_eq [OF do_op.simps(5) keeps_set_context])
qed

lemma keeps_ops: "keeps_queue (do_ops clk ops :: 'w timers \<Rightarrow> 'w timers option)"
proof (induction ops)
  case Nil show ?case by (auto simp: keeps_queue_def)
next
  case (Cons op ops)
  show ?case by (rule keeps_eq [OF do_ops.simps(2) keeps_bind [OF keeps_op Cons]])
qed

section \<open>The interrupt keeps the queue\<close>

definition rebased :: "uint32 \<Rightarrow> uint32 \<Rightarrow> uint32" where
  \<comment> \<open>a time, seen from a context this much later\<close>
  "rebased delta t = (if delta < t then t - delta else 0)"

lemma rebase_from_chain:
  assumes "chain (objects s) (Next (objects s cur)) as" "cur \<notin> set as"
  shows "rebase_from delta cur s = Some (s\<lparr>objects := (\<lambda>x. if x \<in> set as
    then (objects s x)\<lparr>Timestamp := rebased delta (Timestamp (objects s x))\<rparr> else objects s x)\<rparr>)"
  using assms
proof (induction as arbitrary: cur s)
  case Nil
  then show ?case by (subst rebase_from.simps) simp
next
  case (Cons a as)
  let ?s = "set_object a (\<lambda>t. t\<lparr>Timestamp := rebased delta (Timestamp t)\<rparr>) s"
  have a: "a \<notin> set as" using chain_distinct [OF Cons.prems(1)] by simp
  have "chain (objects ?s) (Next (objects ?s a)) as"
    using Cons.prems(1) chain_cong [of as "objects ?s" "objects s"] a by simp
  from Cons.IH [OF this a] have "rebase_from delta a ?s = Some (?s\<lparr>objects := (\<lambda>x. if x \<in> set as
    then (objects ?s x)\<lparr>Timestamp := rebased delta (Timestamp (objects ?s x))\<rparr> else objects ?s x)\<rparr>)" .
  also have "\<dots> = Some (s\<lparr>objects := (\<lambda>x. if x \<in> set (a # as)
    then (objects s x)\<lparr>Timestamp := rebased delta (Timestamp (objects s x))\<rparr> else objects s x)\<rparr>)"
    using a by (auto simp: set_object_def fun_eq_iff)
  finally have eq: "rebase_from delta a ?s = Some (s\<lparr>objects := (\<lambda>x. if x \<in> set (a # as)
    then (objects s x)\<lparr>Timestamp := rebased delta (Timestamp (objects s x))\<rparr> else objects s x)\<rparr>)" .
  have "rebase_from delta cur s = rebase_from delta a ?s"
    using Cons.prems(1) by (subst rebase_from.simps) (simp add: rebased_def)
  with eq show ?case by simp
qed

definition irq_state :: "clock \<Rightarrow> 'w timers \<Rightarrow> nat \<Rightarrow> nat list \<Rightarrow> 'w timers" where
  \<comment> \<open>in which the callback of the head is called\<close>
  "irq_state clk s a bs =
    (let s1 = set_context clk s; delta = context_time (board s1) - context_time (board s)
     in set_object a (\<lambda>t. t\<lparr>IsStarted := False\<rparr>) (s1\<lparr>objects := (\<lambda>x. if x \<in> set bs
       then (objects s x)\<lparr>Timestamp := rebased delta (Timestamp (objects s x))\<rparr> else objects s x), TimerListHead := Next (objects s a)\<rparr>))"

lemma irq_head:
  assumes q: "timer_queue s (a # bs)" and cb: "Callback (objects s a) = Some cb"
  shows "TimerIrqHandler clk call s =
    Option.bind (call cb (Context (objects s a)) (irq_state clk s a bs)) (\<lambda>s3. map_option (rearm clk) (run_expired clk call s3))"
proof -
  note f = queue_head [OF q]
  let ?s1 = "set_context clk s"
  have "chain (objects ?s1) (Next (objects ?s1 a)) bs" using f(2) by simp
  from rebase_from_chain [OF this f(3)] f(1,3) cb show ?thesis
    by (simp add: TimerIrqHandler_def Let_def run_head_def irq_state_def cong: if_cong)
qed

lemma irq_state_queue:
  assumes q: "timer_queue s (a # bs)"
  shows "timer_queue (irq_state clk s a bs) bs"
  by (rule pop_head_queue [OF q]) (simp_all add: irq_state_def Let_def)

lemma irq_empty:
  assumes "timer_queue s []"
  shows "TimerIrqHandler clk call s = Some (set_context clk s)" "running (set_context clk s) []"
  using assms by (simp_all add: TimerIrqHandler_def Let_def timer_queue_def running_def run_expired.simps rearm_def)

lemma rearm_running:
  assumes "timer_queue s as"
  shows "running (rearm clk s) as"
proof (cases as)
  case Nil
  with assms show ?thesis by (simp add: rearm_def running_def timer_queue_def)
next
  case (Cons a bs)
  with assms queue_head(1) [OF assms [unfolded Cons]] show ?thesis
    by (auto simp: rearm_def running_def intro: set_timeout_running [THEN running_queue]
        dest: set_timeout_running [of s a bs clk] split: if_splits)
qed

locale timer_client =
  fixes call :: "nat \<Rightarrow> nat \<Rightarrow> 'w timers \<Rightarrow> 'w timers option"
  assumes call_keeps: "timer_queue s as \<Longrightarrow> call cb ctx s = Some s' \<Longrightarrow> \<exists>as'. timer_queue s' as'"
begin

lemma run_expired_queue:
  assumes "run_expired clk call s = Some s'" "timer_queue s as"
  shows "\<exists>as'. timer_queue s' as'"
proof -
  have "\<forall>as. call' = call \<longrightarrow> timer_queue s as \<longrightarrow> (\<exists>as'. timer_queue s' as')"
    if "run_expired clk call' s = Some s'" for clk call' s s'
  proof (rule run_expired.raw_induct [OF _ that,
      where P = "\<lambda>clk call' s s'. \<forall>as. call' = call \<longrightarrow> timer_queue s as \<longrightarrow> (\<exists>as'. timer_queue s' as')"], goal_cases)
    case (1 f clk call' s s')
    show ?case
    proof (intro allI impI)
      fix as assume c: "call' = call" and q: "timer_queue s as"
      show "\<exists>as'. timer_queue s' as'"
      proof (cases as)
        case Nil
        with q have "TimerListHead s = None" by (simp add: timer_queue_def)
        with 1(2) q show ?thesis by auto
      next
        case (Cons a bs)
        have read: "timer_queue (read_clock s) as" using q by (simp add: timer_queue_def armed_def)
        show ?thesis
        proof (cases "Timestamp (objects s a) < elapsed_at clk s")
          case True
          from 1(2) [unfolded c] True queue_head(1) [OF q [unfolded Cons]] obtain t where
            t: "run_head call a (read_clock s) = Some t" "f clk call t = Some s'"
            by (auto simp: bind_eq_Some_conv)
          let ?s1 = "set_object a (\<lambda>t. t\<lparr>IsStarted := False\<rparr>) ((read_clock s)\<lparr>TimerListHead := Next (objects (read_clock s) a)\<rparr>)"
          have "timer_queue ?s1 bs" by (rule pop_head_queue [OF read [unfolded Cons]]) simp_all
          with t(1) have "\<exists>as1. timer_queue t as1"
            by (auto simp: run_head_def Let_def split: option.splits intro: call_keeps)
          then obtain as1 where "timer_queue t as1" by blast
          with 1(1) [OF t(2)] c show ?thesis by blast
        next
          case False
          with 1(2) queue_head(1) [OF q [unfolded Cons]] read show ?thesis by auto
        qed
      qed
    qed
  qed
  with assms show ?thesis by blast
qed

lemma irq_running:
  assumes "timer_queue s as" "TimerIrqHandler clk call s = Some s'"
  shows "\<exists>as'. running s' as'"
proof (cases as)
  case Nil
  with assms irq_empty [OF assms(1) [unfolded Nil]] show ?thesis by auto
next
  case (Cons a bs)
  note q = assms(1) [unfolded Cons]
  show ?thesis
  proof (cases "Callback (objects s a)")
    case None
    with assms(2) queue_head(1-3) [OF q] rebase_from_chain [of "set_context clk s" a bs] show ?thesis
      by (simp add: TimerIrqHandler_def Let_def run_head_def)
  next
    case (Some cb)
    from assms(2) [unfolded irq_head [OF q Some]] obtain s3 s4 where
      s: "call cb (Context (objects s a)) (irq_state clk s a bs) = Some s3" "run_expired clk call s3 = Some s4" "s' = rearm clk s4"
      by (auto simp: bind_eq_Some_conv)
    from call_keeps [OF irq_state_queue [OF q] s(1)] run_expired_queue [OF s(2)] obtain as4 where "timer_queue s4 as4" by blast
    from rearm_running [OF this] s(3) show ?thesis by blast
  qed
qed

end

definition timer_program :: "clock \<Rightarrow> (nat \<Rightarrow> nat \<Rightarrow> 'w \<Rightarrow> 'w \<times> timer_op list) \<Rightarrow> nat \<Rightarrow> nat \<Rightarrow> 'w timers \<Rightarrow> 'w timers option" where
  \<comment> \<open>a callback that changes what is its own and then uses the timers, as \<open>prog\<close> says\<close>
  "timer_program clk prog cb ctx s = (let (w, ops) = prog cb ctx (world s) in do_ops clk ops (s\<lparr>world := w\<rparr>))"

lemma world_queue: "timer_queue (s\<lparr>world := w\<rparr>) as = timer_queue s as"
  by (simp add: timer_queue_def armed_def)

lemma timer_program_keeps:
  assumes q: "timer_queue s as" and c: "timer_program clk prog cb ctx s = Some s'"
  shows "\<exists>as'. timer_queue s' as'"
proof -
  obtain w ops where p: "prog cb ctx (world s) = (w, ops)" by fastforce
  have "timer_queue (s\<lparr>world := w\<rparr>) as" using q by (simp add: world_queue)
  with keeps_ops [of clk ops] obtain t as' where "do_ops clk ops (s\<lparr>world := w\<rparr>) = Some t" "timer_queue t as'"
    unfolding keeps_queue_def by blast
  with c p show ?thesis by (auto simp: timer_program_def)
qed

interpretation programs: timer_client "timer_program clk prog" for clk prog
  by unfold_locales (rule timer_program_keeps)

section \<open>Every state the stack can bring about\<close>

inductive timers_reachable :: "clock \<Rightarrow> (nat \<Rightarrow> nat \<Rightarrow> 'w \<Rightarrow> 'w \<times> timer_op list) \<Rightarrow> 'w timers \<Rightarrow> bool" for clk prog where
  reset: "TimerListHead s = None \<Longrightarrow> (\<forall>p. \<not> TimerIsStarted p s) \<Longrightarrow> timers_reachable clk prog s"
| init: "timers_reachable clk prog s \<Longrightarrow> \<not> TimerIsStarted p s \<Longrightarrow> timers_reachable clk prog (TimerInit p cb s)"
| op: "timers_reachable clk prog s \<Longrightarrow> do_op clk op s = Some s' \<Longrightarrow> timers_reachable clk prog s'"
| alarm: "timers_reachable clk prog s \<Longrightarrow> TimerIrqHandler clk (timer_program clk prog) s = Some s' \<Longrightarrow> timers_reachable clk prog s'"

lemma TimerInit_queue:
  assumes "running s as" "p \<notin> set as"
  shows "running (TimerInit p cb s) as"
proof -
  have "chain (objects (TimerInit p cb s)) q as = chain (objects s) q as" for q
    by (rule chain_cong) (use assms(2) in \<open>auto simp: TimerInit_def\<close>)
  moreover have "as \<noteq> [] \<Longrightarrow> hd as \<noteq> p" using assms(2) by auto
  moreover have "x \<in> set (tl as) \<Longrightarrow> x \<noteq> p" for x using assms(2) by (cases as) auto
  ultimately show ?thesis using assms unfolding running_def timer_queue_def armed_def by (auto simp: TimerInit_def)
qed

lemma reachable_running:
  assumes "timers_reachable clk prog s"
  shows "\<exists>as. running s as"
  using assms
proof induction
  case (reset s)
  then have "running s []" by (simp add: running_def timer_queue_def TimerIsStarted_def)
  then show ?case ..
next
  case (init s p cb)
  then obtain as where r: "running s as" by blast
  with init(2) have "p \<notin> set as" by (simp add: running_def timer_queue_def TimerIsStarted_def)
  from TimerInit_queue [OF r this] show ?case ..
next
  case (op s op s')
  then obtain as where "running s as" by blast
  with keeps_op [of clk op] op(2) running_queue show ?case unfolding keeps_queue_def by fastforce
next
  case (alarm s s')
  then show ?case using programs.irq_running running_queue by blast
qed

text \<open>C13. In every state the stack can bring about by initialising, starting, stopping, resetting and setting
  its timers and by the interrupts of the clock, whose callbacks use the timers themselves: the started timers are exactly
  those of the linked list, which is not cyclic, and when there is one, the alarm of the clock is set for the first of them,
  at its time counted from the current reference of the clock.\<close>

theorem alarm_follows_queue:
  assumes "timers_reachable clk prog s"
  shows "\<exists>as. chain (objects s) (TimerListHead s) as \<and> distinct as \<and> (\<forall>p. TimerIsStarted p s \<longleftrightarrow> p \<in> set as) \<and>
    (as \<noteq> [] \<longrightarrow> rtc_alarm_a (board s) = Some (RtcStartAlarm (Timestamp (objects s (hd as))) (context_regs (board s))))"
proof -
  from reachable_running [OF assms] obtain as where r: "running s as" by blast
  then have "chain (objects s) (TimerListHead s) as" by (simp add: running_def timer_queue_def)
  from chain_distinct [OF this] this r show ?thesis
    by (intro exI [of _ as]) (auto simp: running_def timer_queue_def armed_def TimerIsStarted_def)
qed

text \<open>C19. Starting a timer that is not in the list puts it where the specification of an ordered queue
  says, and changes nothing else: the time of the timer is its reload value counted from the reference of the clock (or the
  soonest the alarm can be set for), before the first timer that is not earlier (the head only gives way to a
  strictly earlier one), every other timer keeps its time, reload value, callback and context.\<close>

theorem TimerStart_inserts:
  assumes "timer_queue s as" "obj \<notin> set as"
  shows "\<exists>s'. TimerStart clk (Some obj) s = Some s' \<and>
    timer_queue s' (insert_timer (start_time clk obj s) (\<lambda>a. Timestamp (objects s a)) obj as) \<and>
    timestamp_or_soon clk (start_time clk obj s) s' obj \<and> (\<forall>x. x \<noteq> obj \<longrightarrow> same_timer (objects s x) (objects s' x)) \<and> world s' = world s"
  by (rule TimerStart_queue [OF assms, of clk]) blast

section \<open>What the interrupt runs\<close>

fun expired :: "clock \<Rightarrow> uint32 \<Rightarrow> nat \<Rightarrow> (nat \<Rightarrow> uint32) \<Rightarrow> nat list \<Rightarrow> nat list" where
  \<comment> \<open>the timers at the front of the list that are over, the clock being read for each\<close>
  "expired clk ref n ts [] = []"
| "expired clk ref n ts (a # as) = (if ts a < RtcGetTimerValue (clk n) - ref then a # expired clk ref (Suc n) ts as else [])"

definition calling :: "(nat \<Rightarrow> nat \<Rightarrow> 'w \<Rightarrow> 'w) \<Rightarrow> nat \<Rightarrow> nat \<Rightarrow> 'w timers \<Rightarrow> 'w timers option" where
  \<comment> \<open>callbacks that do not use the timers\<close>
  "calling f cb ctx s = Some (s\<lparr>world := f cb ctx (world s)\<rparr>)"

definition effect_of :: "(nat \<Rightarrow> nat \<Rightarrow> 'w \<Rightarrow> 'w) \<Rightarrow> 'w timers \<Rightarrow> nat \<Rightarrow> 'w \<Rightarrow> 'w" where
  "effect_of f s p = f (the (Callback (objects s p))) (Context (objects s p))"

lemma run_expired_calls:
  fixes s :: "'w timers" and clk f
  assumes "timer_queue s as" "\<forall>p \<in> set as. Callback (objects s p) \<noteq> None"
  defines "run \<equiv> expired clk (context_time (board s)) (readings s) (\<lambda>p. Timestamp (objects s p)) as"
  shows "\<exists>s'. run_expired clk (calling f) s = Some s' \<and> timer_queue s' (drop (length run) as) \<and>
    world s' = fold (effect_of f s) run (world s)"
  using assms(1,2) unfolding run_def
proof (induction as arbitrary: s)
  case Nil
  then show ?case by (intro exI [of _ s]) (simp add: timer_queue_def run_expired.simps)
next
  case (Cons a bs)
  note h = queue_head [OF Cons.prems(1)]
  show ?case
  proof (cases "Timestamp (objects s a) < elapsed_at clk s")
    case True
    obtain cb where cb: "Callback (objects s a) = Some cb" using Cons.prems(2) by auto
    let ?s1 = "s\<lparr>readings := Suc (readings s), TimerListHead := Next (objects s a),
      objects := (objects s)(a := (objects s a)\<lparr>IsStarted := False\<rparr>), world := f cb (Context (objects s a)) (world s)\<rparr>"
    have same: "Timestamp (objects ?s1 x) = Timestamp (objects s x)" "Callback (objects ?s1 x) = Callback (objects s x)"
      "Context (objects ?s1 x) = Context (objects s x)" for x by simp_all
    have q: "timer_queue ?s1 bs" by (rule pop_head_queue [OF Cons.prems(1)]) simp_all
    have eff: "effect_of f ?s1 = effect_of f s" by (rule ext) (simp only: effect_of_def same)
    have step: "run_expired clk (calling f) s = run_expired clk (calling f) ?s1"
      using True h(1) cb by (subst run_expired.simps) (simp add: run_head_def calling_def Let_def read_clock_def set_object_def)
    have "\<forall>p \<in> set bs. Callback (objects ?s1 p) \<noteq> None" unfolding same using Cons.prems(2) by simp
    from Cons.IH [OF q this] True cb show ?thesis unfolding same eff step
      by (simp add: elapsed_at_def RtcGetTimerElapsedTime_def effect_of_def)
  next
    case False
    then show ?thesis using h(1) Cons.prems(1)
      by (subst run_expired.simps) (simp add: elapsed_at_def RtcGetTimerElapsedTime_def timer_queue_def armed_def)
  qed
qed

text \<open>C14. The interrupt of the alarm, with callbacks that do not use the timers, returns: it
  calls the callback of the head, whatever the clock says, then in the order of the list those of the timers that are over,
  counted from the new reference of the clock, and of no others; those left are queued, the alarm set for the first of them.\<close>

theorem TimerIrqHandler_runs_expired:
  assumes "timer_queue s (a # bs)" "\<forall>p \<in> set (a # bs). Callback (objects s p) \<noteq> None"
    and "now = RtcGetTimerValue (clk (readings s))"
    and "run = expired clk now (readings s + 1) (\<lambda>p. rebased (now - context_time (board s)) (Timestamp (objects s p))) bs"
  shows "\<exists>s'. TimerIrqHandler clk (calling f) s = Some s' \<and> world s' = fold (effect_of f s) (a # run) (world s) \<and>
    running s' (drop (length run) bs)"
proof -
  obtain cb where cb: "Callback (objects s a) = Some cb" using assms(2) by auto
  have world: "world (irq_state clk s a bs) = world s" by (simp add: irq_state_def Let_def)
  define s1 where "s1 = (irq_state clk s a bs)\<lparr>world := f cb (Context (objects s a)) (world s)\<rparr>"
  have q: "timer_queue s1 bs" unfolding s1_def world_queue by (rule irq_state_queue [OF assms(1)])
  have same: "Callback (objects s1 x) = Callback (objects s x)" "Context (objects s1 x) = Context (objects s x)"
    "x \<in> set bs \<Longrightarrow> Timestamp (objects s1 x) = rebased (now - context_time (board s)) (Timestamp (objects s x))" for x
    using queue_head(3) [OF assms(1)] by (auto simp: s1_def irq_state_def Let_def assms(3))
  have st: "world s1 = f cb (Context (objects s a)) (world s)" "readings s1 = Suc (readings s)" "context_time (board s1) = now"
    by (simp_all add: s1_def irq_state_def Let_def assms(3) set_context_def RtcSetTimerContext_def)
  have eff: "effect_of f s1 = effect_of f s" by (rule ext) (simp only: effect_of_def same)
  have cong: "(\<And>x. x \<in> set as \<Longrightarrow> ts x = ts' x) \<Longrightarrow> expired clk now n ts as = expired clk now n ts' as" for n ts ts' as
    by (induction as arbitrary: n) auto
  have "expired clk (context_time (board s1)) (readings s1) (\<lambda>p. Timestamp (objects s1 p)) bs = run"
    unfolding assms(4) st by (simp add: cong [OF same(3)])
  with run_expired_calls [OF q, of clk f] assms(2) same(1) obtain s2 where
    s2: "run_expired clk (calling f) s1 = Some s2" "timer_queue s2 (drop (length run) bs)" "world s2 = fold (effect_of f s1) run (world s1)"
    by auto
  have "TimerIrqHandler clk (calling f) s = Some (rearm clk s2)"
    using s2(1) world unfolding irq_head [OF assms(1) cb] s1_def by (simp add: calling_def)
  moreover have "world (rearm clk s2) = world s2" by (simp add: rearm_def TimerSetTimeout_facts split: option.split)
  ultimately show ?thesis using rearm_running [OF s2(2), of clk] s2(3)
    by (simp add: eff st effect_of_def cb)
qed

section \<open>The time since an earlier time\<close>

lemma RtcTick2Ms_nat: "RtcTick2Ms x = of_nat (unat x * 125 div 32)"
proof -
  let ?q = "unat x div 256" and ?r = "unat x mod 256"
  have q: "drop_bit 8 x = of_nat ?q" by (simp add: drop_bit_eq_div word_arith_nat_div)
  have "x AND PREDIV_S = take_bit 8 x" unfolding PREDIV_S_def by (simp add: take_bit_eq_mask mask_eq_decr_exp flip: mask_eq_exp_minus_1)
  then have r: "x AND PREDIV_S = of_nat ?r" by (simp add: take_bit_eq_mod word_arith_nat_mod)
  have "unat (of_nat ?r * 1000 :: uint32) = ?r * 1000"
    using unat_of_nat_small [of "?r * 1000", where 'a = 32] by (simp add: unat_word_ariths)
  then have "drop_bit 8 (of_nat ?r * 1000 :: uint32) = of_nat (?r * 1000 div 256)"
    by (simp add: drop_bit_eq_div word_arith_nat_div)
  then have "RtcTick2Ms x = of_nat (?q * 1000 + ?r * 1000 div 256)" unfolding RtcTick2Ms_def Let_def q r by simp
  also have "?q * 1000 + ?r * 1000 div 256 = unat x * 125 div 32"
  proof -
    have "(256 * q + r) * 125 div 32 = q * 1000 + r * 1000 div 256" for q r :: nat
    proof -
      have "(256 * q + r) * 125 = r * 125 + (q * 1000) * 32" "r * 1000 = (r * 125) * 8" by simp_all
      moreover have "(r * 125) * 8 div (32 * 8) = r * 125 div 32" by (rule div_mult_mult2) simp
      ultimately show ?thesis by simp
    qed
    from this [of ?q ?r] show ?thesis by simp
  qed
  finally show ?thesis .
qed

lemma RtcMs2Tick_nat: "unat (RtcMs2Tick m) = unat m * 32 div 125"
proof -
  have m: "unat m < 2 ^ 32" using unsigned_less [of m] by simp
  have "unat (ucast m * 32 :: uint64) = unat m * 32"
    using m by (simp add: unat_word_ariths unsigned_ucast_eq take_bit_nat_eq_self)
  then have "unat (ucast m * 32 div 125 :: uint64) = unat m * 32 div 125" by (simp add: unat_div)
  moreover have "unat m * 32 div 125 < 2 ^ 32" using m by simp
  ultimately show ?thesis unfolding RtcMs2Tick_def by (simp add: unsigned_ucast_eq take_bit_nat_eq_self)
qed

lemma elapsed_nat:
  \<comment> \<open>the wrap-around \<open>w\<close> of the milliseconds comes out unchanged\<close>
  fixes a e p w :: nat
  assumes "p + w = a * 125 div 32"
  shows "p * 32 div 125 \<le> a" "w + e * 125 div 32 \<le> (e + (a - p * 32 div 125)) * 125 div 32"
    "(e + (a - p * 32 div 125)) * 125 div 32 \<le> w + e * 125 div 32 + 5"
proof -
  define pt where "pt = p * 32 div 125"
  have pt: "125 * pt \<le> p * 32" "p * 32 < 125 * pt + 125" unfolding pt_def by linarith+
  have a: "32 * (p + w) \<le> a * 125" "a * 125 < 32 * (p + w) + 32"
    using times_div_less_eq_dividend [of 32 "a * 125"] dividend_less_times_div [of 32 "a * 125"] unfolding assms by simp_all
  have le: "pt \<le> a" using pt a by simp
  then show "p * 32 div 125 \<le> a" by (simp only: pt_def)
  from le obtain d where d: "a = pt + d" using le_Suc_ex by blast
  have d125: "32 * w \<le> d * 125" "d * 125 < 32 * w + 157" using pt a unfolding d by simp_all
  have "(32 * w + e * 125) div 32 \<le> (e + d) * 125 div 32" "(e + d) * 125 div 32 \<le> (32 * w + e * 125 + 160) div 32"
    using d125 by (auto intro!: div_le_mono)
  moreover have "(32 * w + e * 125) div 32 = w + e * 125 div 32" "(32 * w + e * 125 + 160) div 32 = w + e * 125 div 32 + 5"
    by simp_all
  ultimately show "w + e * 125 div 32 \<le> (e + (a - p * 32 div 125)) * 125 div 32"
    "(e + (a - p * 32 div 125)) * 125 div 32 \<le> w + e * 125 div 32 + 5"
    using d by (simp_all add: pt_def [symmetric])
qed

lemma ticks_run:
  assumes "rtc_running t" "unat (RtcGetCalendarValue t) + e < 36524 * 22118400"
  shows "rtc_running ((rtc_tick ^^ e) t)" "RtcGetCalendarValue ((rtc_tick ^^ e) t) = RtcGetCalendarValue t + of_nat e"
proof -
  have run: "rtc_running ((rtc_tick ^^ e) t)" for e using ticks_later [OF assms(1)] by blast
  then show "rtc_running ((rtc_tick ^^ e) t)" .
  show "RtcGetCalendarValue ((rtc_tick ^^ e) t) = RtcGetCalendarValue t + of_nat e" using assms(2)
  proof (induction e)
    case (Suc e)
    let ?u = "(rtc_tick ^^ e) t"
    have v: "RtcGetCalendarValue ?u = RtcGetCalendarValue t + of_nat e" using Suc by simp
    have "RtcGetCalendarValue ?u = of_nat (unat (RtcGetCalendarValue t) + e)" using v by simp
    moreover have "unat (RtcGetCalendarValue t) + e < 2 ^ 64" using Suc.prems by simp
    ultimately have "unat (RtcGetCalendarValue ?u) = unat (RtcGetCalendarValue t) + e"
      using unat_of_nat_small [of "unat (RtcGetCalendarValue t) + e", where 'a = 64] by simp
    then have "unat (RtcGetCalendarValue ?u) < 36524 * 22118400" using Suc.prems by simp
    moreover have "rtc_days ?u = 36524" if "rtc_year ?u = 99 \<and> rtc_month ?u = 12 \<and> rtc_date ?u = 31"
      using that by (simp add: rtc_days_def Let_def month_lengths_def)
    ultimately have "\<not> (rtc_year ?u = 99 \<and> rtc_month ?u = 12 \<and> rtc_date ?u = 31)"
      using RtcGetCalendarValue_ticks(1) [OF run [of e]] by auto
    from calendar_value_step [OF run this] v show ?case by simp
  qed simp
qed

text \<open>C20. The time since an earlier time of the clock, both in milliseconds of 32 bits, is right to
  5 ms for 24 days (2^29 ticks): although the milliseconds wrap around after 49 days and the ticks after 194, at different
  moments, and although a time of 0 means none. \<open>e\<close> is the number of ticks in between.\<close>

theorem elapsed_time_accuracy:
  assumes "rtc_running t" "unat (RtcGetCalendarValue t) + e < 36524 * 22118400" "e < 2 ^ 29" "TimerGetCurrentTime t \<noteq> 0"
  shows "unat (TimerGetElapsedTime (TimerGetCurrentTime t) ((rtc_tick ^^ e) t)) \<in> {e * 125 div 32 .. e * 125 div 32 + 5}"
proof -
  let ?past = "TimerGetCurrentTime t" and ?v = "unat (RtcGetCalendarValue t)"
  define a where "a = unat (RtcGetTimerValue t)"
  define p where "p = a * 125 div 32 mod 4294967296"
  define k where "k = a * 125 div 32 div 4294967296"
  define d where "d = a - p * 32 div 125"
  have past: "unat ?past = p" by (simp add: TimerGetCurrentTime_def RtcTick2Ms_nat a_def p_def unat_of_nat)
  have pk: "p + k * 4294967296 = a * 125 div 32" by (simp add: p_def k_def)
  note el = elapsed_nat(1) [OF pk] elapsed_nat(2,3) [OF pk, of e]
  have "a < 4294967296" using unsigned_less [of "RtcGetTimerValue t", where 'a = nat] by (simp add: a_def)
  then have "a * 125 div 32 < 4 * 4294967296" by (intro less_mult_imp_div_less) simp
  then have "k < 4" unfolding k_def by (rule less_mult_imp_div_less)
  then have k: "k \<le> 3" by simp
  obtain r where r: "(e + d) * 125 div 32 = k * 4294967296 + r" "e * 125 div 32 \<le> r" "r \<le> e * 125 div 32 + 5"
    using el(2,3) le_Suc_ex [of "k * 4294967296" "(e + d) * 125 div 32"] unfolding d_def [symmetric] by fastforce
  have e: "e * 125 div 32 \<le> 2097152000" using assms(3) by (simp add: div_le_mono2)
  have "(e + d) * 125 < 32 * (k * 4294967296 + r) + 32" using dividend_less_times_div [of 32 "(e + d) * 125"] r(1) by simp
  then have T: "e + d < 2 ^ 32" using k r(3) e by simp
  have n: "RtcGetTimerValue ((rtc_tick ^^ e) t) = of_nat (?v + e)"
  proof -
    have "RtcGetCalendarValue t + of_nat e = of_nat (?v + e)" by simp
    then show ?thesis using unat_of_nat_small [of "?v + e", where 'a = 64] assms(2)
      unfolding RtcGetTimerValue_def ticks_run(2) [OF assms(1,2)] by (simp only: cast_nat) simp
  qed
  have a: "(of_nat a :: uint32) = of_nat ?v" unfolding a_def RtcGetTimerValue_def by simp
  have now: "RtcGetTimerValue ((rtc_tick ^^ e) t) = of_nat a + of_nat e" by (simp only: n of_nat_add a)
  have "RtcMs2Tick ?past = of_nat (unat (RtcMs2Tick ?past))" by simp
  also have "\<dots> = of_nat (p * 32 div 125)" unfolding RtcMs2Tick_nat past by (rule refl)
  finally have "RtcGetTimerValue ((rtc_tick ^^ e) t) - RtcMs2Tick ?past = of_nat (e + d)"
    using el(1) by (simp add: now d_def of_nat_diff)
  then have "TimerGetElapsedTime ?past ((rtc_tick ^^ e) t) = of_nat ((e + d) * 125 div 32)"
    using assms(4) unat_of_nat_small [of "e + d", where 'a = 32] T by (simp add: TimerGetElapsedTime_def RtcTick2Ms_nat)
  also have "\<dots> = of_nat r"
  proof -
    have wrap: "(4294967296 :: uint32) = 0" by code_simp
    show ?thesis unfolding r(1) of_nat_add of_nat_mult of_nat_numeral wrap by simp
  qed
  finally have "unat (TimerGetElapsedTime ?past ((rtc_tick ^^ e) t)) = r"
    using unat_of_nat_small [of r, where 'a = 32] r(3) e by simp
  with r(2,3) show ?thesis by simp
qed

theorem elapsed_time_accuracy_witness:
  \<comment> \<open>the milliseconds wrap around every 49 days: here three times before the earlier time, once after it\<close>
  "unat (TimerGetElapsedTime (TimerGetCurrentTime leap_evening) ((rtc_tick ^^ 500000000) leap_evening)) \<in> {1953125000..1953125005}"
proof -
  have run: "rtc_running leap_evening" by code_simp
  have "RtcGetCalendarValue leap_evening < 807000000000" by code_simp
  then have v: "unat (RtcGetCalendarValue leap_evening) + 500000000 < 36524 * 22118400" by (simp add: word_less_nat_alt)
  have p: "TimerGetCurrentTime leap_evening \<noteq> 0" by code_simp
  have n: "500000000 * 125 div 32 = (1953125000 :: nat)" "1953125000 + 5 = (1953125005 :: nat)" "(500000000 :: nat) < 2 ^ 29" by simp_all
  from elapsed_time_accuracy [OF run v n(3) p] show ?thesis unfolding n(1,2) .
qed

section \<open>Examples\<close>

definition timers_example :: "nat list timers" where
  \<comment> \<open>no timer is started; what the callbacks do is to note which has been called\<close>
  "timers_example = \<lparr>objects = (\<lambda>p. \<lparr>Timestamp = 0, ReloadValue = of_nat (p * 100), IsStarted = False, IsNext2Expire = False,
     Callback = Some p, Context = 0, Next = None\<rparr>), TimerListHead = None, board = board_example, readings = 0, world = []\<rparr>"

definition late_clock :: clock where
  \<comment> \<open>the clock ticks between two readings, from two and a half seconds after \<open>leap_evening\<close>\<close>
  "late_clock n = leap_evening\<lparr>rtc_hours := 0, rtc_minutes := 0, rtc_seconds := 2, rtc_date := 29, SubSeconds := 255 - of_nat n\<rparr>"

definition started_example :: "nat list timers" where
  "started_example = the (do_ops late_clock [Start 3, Start 2, Reset 3] timers_example)"

lemma reachable_ops:
  "timers_reachable clk prog s \<Longrightarrow> do_ops clk ops s = Some s' \<Longrightarrow> timers_reachable clk prog s'"
  by (induction ops arbitrary: s) (auto simp: bind_eq_Some_conv intro: timers_reachable.op)

lemma started_example_reachable: "timers_reachable late_clock prog started_example"
proof (rule reachable_ops)
  show "timers_reachable late_clock prog timers_example"
    by (rule timers_reachable.reset) (simp_all add: timers_example_def TimerIsStarted_def)
  have "do_ops late_clock [Start 3, Start 2, Reset 3] timers_example \<noteq> None" by code_simp
  then show "do_ops late_clock [Start 3, Start 2, Reset 3] timers_example = Some started_example"
    by (simp add: started_example_def)
qed

theorem alarm_follows_queue_witness:
  "\<exists>as. chain (objects started_example) (TimerListHead started_example) as \<and> distinct as \<and>
    (\<forall>p. TimerIsStarted p started_example \<longleftrightarrow> p \<in> set as) \<and>
    (as \<noteq> [] \<longrightarrow> rtc_alarm_a (board started_example) =
      Some (RtcStartAlarm (Timestamp (objects started_example (hd as))) (context_regs (board started_example))))"
  by (rule alarm_follows_queue [OF started_example_reachable [of "\<lambda>cb ctx w. (cb # w, [Start cb])"]])

definition queue_example :: "nat list timers" where
  \<comment> \<open>timers 3, 5 and 7 are started, for 300, 500 and 700 ticks after \<open>leap_evening\<close>\<close>
  "queue_example = \<lparr>objects = (\<lambda>p. \<lparr>Timestamp = of_nat (p * 100), ReloadValue = 10, IsStarted = (p \<in> {3, 5, 7}),
     IsNext2Expire = (p = 3), Callback = Some p, Context = 0, Next = (if p = 3 then Some 5 else if p = 5 then Some 7 else None)\<rparr>),
     TimerListHead = Some 3, board = board_example\<lparr>context_time := 1921351552, rtc_alarm_a := Some (RtcStartAlarm 300 leap_evening)\<rparr>,
     readings = 0, world = []\<rparr>"

lemma queue_example_queue: "timer_queue queue_example [3, 5, 7]"
  by (auto simp: timer_queue_def armed_def queue_example_def board_example_def)

theorem TimerStart_inserts_witness:
  \<comment> \<open>650 ticks later, a timer of 10 ticks\<close>
  "\<exists>s'. TimerStart late_clock (Some 4) queue_example = Some s' \<and> timer_queue s' [3, 5, 4, 7]"
proof -
  have "insert_timer (start_time late_clock 4 queue_example) (\<lambda>a. Timestamp (objects queue_example a)) 4 [3, 5, 7] = [3, 5, 4, 7]"
    by code_simp
  with TimerStart_inserts [OF queue_example_queue, of 4 late_clock] show ?thesis by auto
qed

theorem TimerIrqHandler_runs_expired_witness:
  \<comment> \<open>the interrupt of the first timer is served so late that the second one is over, too\<close>
  "\<exists>s'. TimerIrqHandler late_clock (calling (\<lambda>cb ctx w. w @ [cb])) queue_example = Some s' \<and> world s' = [3, 5] \<and> running s' [7]"
proof -
  have cb: "\<forall>p \<in> set [3, 5, 7]. Callback (objects queue_example p) \<noteq> None" by (simp add: queue_example_def)
  let ?now = "RtcGetTimerValue (late_clock (readings queue_example))"
  let ?run = "expired late_clock ?now (readings queue_example + 1)
    (\<lambda>p. rebased (?now - context_time (board queue_example)) (Timestamp (objects queue_example p))) [5, 7]"
  have run: "?run = [5]" by code_simp
  have log: "fold (effect_of (\<lambda>cb ctx w. w @ [cb]) queue_example) [3, 5] (world queue_example) = [3, 5]"
    by (simp add: effect_of_def queue_example_def)
  from TimerIrqHandler_runs_expired [OF queue_example_queue cb refl refl, where f = "\<lambda>cb ctx w. w @ [cb]" and clk = late_clock]
  show ?thesis unfolding run log by simp
qed

end
