(* ===== verification/Stop_Mode.thy ===== *)
theory Stop_Mode
  imports Device_Config
begin

unbundle bit_operations_syntax

text \<open>
  The pins of the device and its stop mode: \<^verbatim>\<open>src/Src/gpio.c\<close>, \<^verbatim>\<open>src/Src/hardware.c\<close> from \<open>hal_deinit\<close> to
  \<open>HW_ExitStopMode\<close>, \<^verbatim>\<open>HAL_GPIO_EXTI_Callback\<close> of \<^verbatim>\<open>src/Src/main.c\<close>, on the registers as
  \<^verbatim>\<open>stm32l0xx_hal_gpio.c\<close> writes them. A register with a field per pin is a function of the port and the pin, one
  with a bit per interrupt line a function of the line. The sensors of a family are those of \<^verbatim>\<open>main.h\<close>.
\<close>

section \<open>Registers\<close>

datatype port = GPIOA | GPIOB
datatype moder = MODE_INPUT | MODE_OUTPUT | MODE_AF | MODE_ANALOG
datatype pull = GPIO_NOPULL | GPIO_PULLUP | GPIO_PULLDOWN
datatype speed = GPIO_SPEED_FREQ_LOW | GPIO_SPEED_FREQ_HIGH

record pin_mode =
  \<comment> \<open>the constants \<open>GPIO_MODE_*\<close>, by their parts\<close>
  direction :: moder
  exti_it :: bool
  rising :: bool
  falling :: bool

definition GPIO_MODE_INPUT :: pin_mode where
  "GPIO_MODE_INPUT = \<lparr>direction = MODE_INPUT, exti_it = False, rising = False, falling = False\<rparr>"
definition GPIO_MODE_OUTPUT_PP :: pin_mode where
  "GPIO_MODE_OUTPUT_PP = \<lparr>direction = MODE_OUTPUT, exti_it = False, rising = False, falling = False\<rparr>"
definition GPIO_MODE_ANALOG :: pin_mode where
  "GPIO_MODE_ANALOG = \<lparr>direction = MODE_ANALOG, exti_it = False, rising = False, falling = False\<rparr>"
definition GPIO_MODE_IT_RISING :: pin_mode where
  "GPIO_MODE_IT_RISING = \<lparr>direction = MODE_INPUT, exti_it = True, rising = True, falling = False\<rparr>"
definition GPIO_MODE_IT_FALLING :: pin_mode where
  "GPIO_MODE_IT_FALLING = \<lparr>direction = MODE_INPUT, exti_it = True, rising = False, falling = True\<rparr>"
definition GPIO_MODE_IT_RISING_FALLING :: pin_mode where
  "GPIO_MODE_IT_RISING_FALLING = \<lparr>direction = MODE_INPUT, exti_it = True, rising = True, falling = True\<rparr>"

record gpio_init =
  Pin :: uint16
  Mode :: pin_mode
  Pull :: pull
  Speed :: speed

record board_pins =
  MODER :: "port \<Rightarrow> nat \<Rightarrow> moder"
  PUPDR :: "port \<Rightarrow> nat \<Rightarrow> pull"
  OSPEEDR :: "port \<Rightarrow> nat \<Rightarrow> speed"
  open_drain :: "port \<Rightarrow> nat \<Rightarrow> bool"       \<comment> \<open>\<open>OTYPER\<close>\<close>
  ODR :: "port \<Rightarrow> nat \<Rightarrow> bool"
  EXTICR :: "nat \<Rightarrow> port"
  IMR :: "nat \<Rightarrow> bool"
  EMR :: "nat \<Rightarrow> bool"
  RTSR :: "nat \<Rightarrow> bool"
  FTSR :: "nat \<Rightarrow> bool"
  adc_running :: bool
  hwSlept :: bool

definition HAL_GPIO_Init :: "port \<Rightarrow> gpio_init \<Rightarrow> board_pins \<Rightarrow> board_pins" where
  \<comment> \<open>the loop over the pins; the register of alternate functions is left out, as no mode used here selects one\<close>
  "HAL_GPIO_Init g i s =
    (let m = Mode i; sel = (\<lambda>p n. p = g \<and> bit (Pin i) n); out = (direction m = MODE_OUTPUT \<or> direction m = MODE_AF);
         line = (\<lambda>n. bit (Pin i) n \<and> exti_it m)
     in s\<lparr>OSPEEDR := (\<lambda>p n. if sel p n \<and> out then Speed i else OSPEEDR s p n),
          open_drain := (\<lambda>p n. if sel p n \<and> out then False else open_drain s p n),
          PUPDR := (\<lambda>p n. if sel p n \<and> direction m \<noteq> MODE_ANALOG then Pull i else PUPDR s p n),
          MODER := (\<lambda>p n. if sel p n then direction m else MODER s p n),
          EXTICR := (\<lambda>n. if line n then g else EXTICR s n),
          IMR := (\<lambda>n. if line n then True else IMR s n),
          EMR := (\<lambda>n. if line n then False else EMR s n),
          RTSR := (\<lambda>n. if line n then rising m else RTSR s n),
          FTSR := (\<lambda>n. if line n then falling m else FTSR s n)\<rparr>)"

definition HAL_GPIO_WritePin :: "port \<Rightarrow> uint16 \<Rightarrow> bool \<Rightarrow> board_pins \<Rightarrow> board_pins" where
  "HAL_GPIO_WritePin g pins level s = s\<lparr>ODR := (\<lambda>p n. if p = g \<and> bit pins n then level else ODR s p n)\<rparr>"

section \<open>Pins\<close>

definition Button0_Pin :: uint16 where "Button0_Pin = 0x0001"
definition NFC_Int_Pin :: uint16 where "NFC_Int_Pin = 0x0002"
definition RF_Switch_Pin :: uint16 where "RF_Switch_Pin = 0x0004"
definition TEMP_Int_Pin :: uint16 where "TEMP_Int_Pin = 0x0008"
definition SX126x_SPI_NSS_Pin :: uint16 where "SX126x_SPI_NSS_Pin = 0x0010"
definition LED_1_Pin :: uint16 where "LED_1_Pin = 0x0001"
definition LED_2_Pin :: uint16 where "LED_2_Pin = 0x0002"
definition DC_Conv_Mode_Pin :: uint16 where "DC_Conv_Mode_Pin = 0x0100"
definition Reed_Switch_Pin :: uint16 where "Reed_Switch_Pin = 0x0200"
definition LIGHT_Int_Pin :: uint16 where "LIGHT_Int_Pin = 0x0400"
definition SX126x_Busy_Pin :: uint16 where "SX126x_Busy_Pin = 0x0800"
definition SX126x_DIO3_Pin :: uint16 where "SX126x_DIO3_Pin = 0x1000"
definition SX126x_Reset_Pin :: uint16 where "SX126x_Reset_Pin = 0x0010"
definition SX126x_DIO1_Pin :: uint16 where "SX126x_DIO1_Pin = 0x0020"

lemmas pin_defs = Button0_Pin_def NFC_Int_Pin_def RF_Switch_Pin_def TEMP_Int_Pin_def SX126x_SPI_NSS_Pin_def LED_1_Pin_def
  LED_2_Pin_def DC_Conv_Mode_Pin_def Reed_Switch_Pin_def LIGHT_Int_Pin_def SX126x_Busy_Pin_def SX126x_DIO3_Pin_def
  SX126x_Reset_Pin_def SX126x_DIO1_Pin_def

lemma bit_power: "bit (2 ^ k :: uint16) n \<longleftrightarrow> n = k" if "k < 16"
  using that by (auto simp: bit_exp_iff possible_bit_word)

lemma pin_bits:
  "bit Button0_Pin n \<longleftrightarrow> n = 0" "bit NFC_Int_Pin n \<longleftrightarrow> n = 1" "bit RF_Switch_Pin n \<longleftrightarrow> n = 2"
  "bit TEMP_Int_Pin n \<longleftrightarrow> n = 3" "bit SX126x_SPI_NSS_Pin n \<longleftrightarrow> n = 4" "bit LED_1_Pin n \<longleftrightarrow> n = 0"
  "bit LED_2_Pin n \<longleftrightarrow> n = 1" "bit DC_Conv_Mode_Pin n \<longleftrightarrow> n = 8" "bit Reed_Switch_Pin n \<longleftrightarrow> n = 9"
  "bit LIGHT_Int_Pin n \<longleftrightarrow> n = 10" "bit SX126x_Busy_Pin n \<longleftrightarrow> n = 11" "bit SX126x_DIO3_Pin n \<longleftrightarrow> n = 12"
  "bit SX126x_Reset_Pin n \<longleftrightarrow> n = 4" "bit SX126x_DIO1_Pin n \<longleftrightarrow> n = 5"
  using bit_power [of 0 n] bit_power [of 1 n] bit_power [of 2 n] bit_power [of 3 n] bit_power [of 4 n] bit_power [of 5 n] bit_power [of 8 n] bit_power [of 9 n] bit_power [of 10 n] bit_power [of 11 n] bit_power [of 12 n]
  by (simp_all add: pin_defs del: One_nat_def)

lemmas mode_defs = GPIO_MODE_INPUT_def GPIO_MODE_OUTPUT_PP_def GPIO_MODE_ANALOG_def GPIO_MODE_IT_RISING_def GPIO_MODE_IT_FALLING_def
  GPIO_MODE_IT_RISING_FALLING_def

lemma mode_parts:
  "exti_it GPIO_MODE_INPUT = False" "exti_it GPIO_MODE_OUTPUT_PP = False" "exti_it GPIO_MODE_ANALOG = False"
  "exti_it GPIO_MODE_IT_RISING" "exti_it GPIO_MODE_IT_FALLING" "exti_it GPIO_MODE_IT_RISING_FALLING"
  "direction GPIO_MODE_IT_RISING = MODE_INPUT" "direction GPIO_MODE_IT_FALLING = MODE_INPUT"
  "direction GPIO_MODE_IT_RISING_FALLING = MODE_INPUT" "direction GPIO_MODE_ANALOG = MODE_ANALOG"
  by (simp_all add: mode_defs)

definition MX_GPIO_Init :: "board_pins \<Rightarrow> board_pins" where
  "MX_GPIO_Init s0 =
    (let s1 = HAL_GPIO_WritePin GPIOA (RF_Switch_Pin OR SX126x_SPI_NSS_Pin OR DC_Conv_Mode_Pin OR SX126x_DIO3_Pin) False s0;
         s2 = HAL_GPIO_WritePin GPIOB (LED_1_Pin OR LED_2_Pin OR SX126x_Reset_Pin) False s1;
         i3 = \<lparr>Pin = Button0_Pin OR Reed_Switch_Pin, Mode = GPIO_MODE_IT_RISING_FALLING, Pull = GPIO_PULLDOWN, Speed = GPIO_SPEED_FREQ_LOW\<rparr>;
         s3 = HAL_GPIO_Init GPIOA i3 s2;
         i4 = i3\<lparr>Pin := NFC_Int_Pin OR LIGHT_Int_Pin, Mode := GPIO_MODE_IT_FALLING, Pull := GPIO_PULLUP\<rparr>;
         s4 = HAL_GPIO_Init GPIOA i4 s3;
         i5 = i4\<lparr>Pin := RF_Switch_Pin OR DC_Conv_Mode_Pin, Mode := GPIO_MODE_OUTPUT_PP, Pull := GPIO_NOPULL, Speed := GPIO_SPEED_FREQ_LOW\<rparr>;
         s5 = HAL_GPIO_Init GPIOA i5 s4;
         i6 = i5\<lparr>Pin := TEMP_Int_Pin, Mode := GPIO_MODE_IT_RISING, Pull := GPIO_NOPULL\<rparr>;
         s6 = HAL_GPIO_Init GPIOA i6 s5;
         i7 = i6\<lparr>Pin := SX126x_SPI_NSS_Pin OR SX126x_DIO3_Pin, Mode := GPIO_MODE_OUTPUT_PP, Pull := GPIO_NOPULL, Speed := GPIO_SPEED_FREQ_HIGH\<rparr>;
         s7 = HAL_GPIO_Init GPIOA i7 s6;
         i8 = i7\<lparr>Pin := LED_1_Pin OR LED_2_Pin OR SX126x_Reset_Pin, Mode := GPIO_MODE_OUTPUT_PP, Pull := GPIO_NOPULL, Speed := GPIO_SPEED_FREQ_LOW\<rparr>;
         s8 = HAL_GPIO_Init GPIOB i8 s7;
         i9 = i8\<lparr>Pin := SX126x_Busy_Pin, Mode := GPIO_MODE_INPUT, Pull := GPIO_PULLUP\<rparr>;
         s9 = HAL_GPIO_Init GPIOA i9 s8;
         i10 = i9\<lparr>Pin := SX126x_DIO1_Pin, Mode := GPIO_MODE_IT_RISING, Pull := GPIO_NOPULL\<rparr>
     in HAL_GPIO_Init GPIOB i10 s9)"

definition HW_GPIO_PostInit :: "family \<Rightarrow> board_pins \<Rightarrow> board_pins" where
  "HW_GPIO_PostInit f =
    (let pins = (if f = STA then Reed_Switch_Pin else 0) OR (if f \<noteq> STX then LIGHT_Int_Pin else 0) OR (if f \<noteq> STX then TEMP_Int_Pin else 0)
     in HAL_GPIO_Init GPIOA \<lparr>Pin = pins, Mode = GPIO_MODE_ANALOG, Pull = GPIO_NOPULL, Speed = GPIO_SPEED_FREQ_LOW\<rparr>)"

definition hal_deinit :: "board_pins \<Rightarrow> board_pins" where
  "hal_deinit s =
    (let i = \<lparr>Pin = SX126x_Busy_Pin OR SX126x_SPI_NSS_Pin OR SX126x_DIO3_Pin OR RF_Switch_Pin, Mode = GPIO_MODE_ANALOG,
           Pull = GPIO_NOPULL, Speed = GPIO_SPEED_FREQ_LOW\<rparr>
     in HAL_GPIO_Init GPIOB (i\<lparr>Pin := SX126x_DIO1_Pin OR SX126x_Reset_Pin OR LED_1_Pin OR LED_2_Pin\<rparr>) (HAL_GPIO_Init GPIOA i s))"

definition hal_reinit :: "family \<Rightarrow> board_pins \<Rightarrow> board_pins" where
  "hal_reinit f s = HW_GPIO_PostInit f (MX_GPIO_Init s)"

section \<open>Stop mode\<close>

definition HW_ExitStopMode :: "family \<Rightarrow> board_pins \<Rightarrow> board_pins" where
  "HW_ExitStopMode f s =
    (if \<not> hwSlept s then s
     else HAL_GPIO_WritePin GPIOA RF_Switch_Pin True (HAL_GPIO_WritePin GPIOA DC_Conv_Mode_Pin True
       (hal_reinit f (s\<lparr>hwSlept := False, adc_running := True\<rparr>))))"

definition HAL_GPIO_EXTI_Callback :: "family \<Rightarrow> board_pins \<Rightarrow> board_pins" where
  "HAL_GPIO_EXTI_Callback f = HW_ExitStopMode f"

definition asleep :: "board_pins \<Rightarrow> board_pins" where
  \<comment> \<open>in which \<open>HW_EnterStopMode\<close> stops the processor\<close>
  "asleep s =
    (hal_deinit (HAL_GPIO_WritePin GPIOA RF_Switch_Pin False (HAL_GPIO_WritePin GPIOA DC_Conv_Mode_Pin False
       (s\<lparr>adc_running := False\<rparr>))))\<lparr>hwSlept := True\<rparr>"

definition HW_EnterStopMode :: "family \<Rightarrow> nat \<Rightarrow> board_pins \<Rightarrow> board_pins" where
  \<comment> \<open>\<open>n\<close> is the number of pin interrupts that are served before the code after the stop runs\<close>
  "HW_EnterStopMode f n s = HW_ExitStopMode f ((HAL_GPIO_EXTI_Callback f ^^ n) (asleep s))"

section \<open>The pins that wake the device\<close>

definition wake_pins :: "family \<Rightarrow> (nat \<times> pin_mode \<times> pull) list" where
  \<comment> \<open>all on port A\<close>
  "wake_pins f = [(0, GPIO_MODE_IT_RISING_FALLING, GPIO_PULLDOWN), (1, GPIO_MODE_IT_FALLING, GPIO_PULLUP)] @
    (if f \<noteq> STA then [(9, GPIO_MODE_IT_RISING_FALLING, GPIO_PULLDOWN)] else []) @
    (if f = STX then [(10, GPIO_MODE_IT_FALLING, GPIO_PULLUP), (3, GPIO_MODE_IT_RISING, GPIO_NOPULL)] else [])"

lemma wake_pins_distinct: "\<forall>f. distinct (map fst (wake_pins f))"
  by code_simp

definition pin_ready :: "board_pins \<Rightarrow> nat \<times> pin_mode \<times> pull \<Rightarrow> bool" where
  \<comment> \<open>an edge of the pin is an interrupt\<close>
  "pin_ready s = (\<lambda>(n, m, p). MODER s GPIOA n = direction m \<and> PUPDR s GPIOA n = p \<and> EXTICR s n = GPIOA \<and> IMR s n \<and>
     RTSR s n = rising m \<and> FTSR s n = falling m)"

definition wake_ready :: "family \<Rightarrow> board_pins \<Rightarrow> bool" where
  "wake_ready f s \<longleftrightarrow> list_all (pin_ready s) (wake_pins f)"

definition same_wake :: "family \<Rightarrow> board_pins \<Rightarrow> board_pins \<Rightarrow> bool" where
  \<comment> \<open>the rest of the firmware may use the other pins\<close>
  "same_wake f s s' \<longleftrightarrow> hwSlept s' = hwSlept s \<and> (\<forall>n \<in> fst ` set (wake_pins f). MODER s' GPIOA n = MODER s GPIOA n \<and>
     PUPDR s' GPIOA n = PUPDR s GPIOA n \<and> EXTICR s' n = EXTICR s n \<and> IMR s' n = IMR s n \<and> RTSR s' n = RTSR s n \<and> FTSR s' n = FTSR s n)"

inductive powered :: "family \<Rightarrow> board_pins \<Rightarrow> bool" for f where
  boot: "powered f (HW_GPIO_PostInit f (MX_GPIO_Init (s\<lparr>hwSlept := False\<rparr>)))"
| stop: "powered f s \<Longrightarrow> powered f (HW_EnterStopMode f n s)"
| pin_interrupt: "powered f s \<Longrightarrow> powered f (HAL_GPIO_EXTI_Callback f s)"
| other: "powered f s \<Longrightarrow> same_wake f s s' \<Longrightarrow> powered f s'"

lemma HAL_GPIO_Init_frame:
  \<comment> \<open>what is set for other pins does not touch the pin: interrupt lines are shared by the ports\<close>
  assumes "\<not> bit (Pin i) (fst w) \<or> g \<noteq> GPIOA \<and> \<not> exti_it (Mode i)"
  shows "pin_ready (HAL_GPIO_Init g i s) w = pin_ready s w"
  using assms by (cases w) (auto simp: pin_ready_def HAL_GPIO_Init_def Let_def)

lemma HAL_GPIO_Init_ready:
  assumes "bit (Pin i) n" "Mode i = m" "exti_it m" "direction m \<noteq> MODE_ANALOG" "Pull i = p"
  shows "pin_ready (HAL_GPIO_Init GPIOA i s) (n, m, p)"
  using assms by (auto simp add: pin_ready_def HAL_GPIO_Init_def Let_def)

lemma ready_frame [simp]:
  "pin_ready (HAL_GPIO_WritePin g pins l s) w = pin_ready s w"
  "pin_ready (s\<lparr>hwSlept := b\<rparr>) w = pin_ready s w" "pin_ready (s\<lparr>adc_running := b\<rparr>) w = pin_ready s w"
  by (simp_all add: HAL_GPIO_WritePin_def pin_ready_def)

lemma asleep_ready:
  assumes "wake_ready f s"
  shows "wake_ready f (asleep s)"
proof -
  have "pin_ready (asleep s) w" if w: "w \<in> set (wake_pins f)" "pin_ready s w" for w
  proof -
    have "fst w \<in> {0, 1, 3, 9, 10}" using w(1) by (auto simp: wake_pins_def split: if_splits)
    then have "\<not> bit (SX126x_Busy_Pin OR SX126x_SPI_NSS_Pin OR SX126x_DIO3_Pin OR RF_Switch_Pin) (fst w)"
      by (auto simp: pin_bits bit_or_iff)
    then show ?thesis using w(2) by (simp add: asleep_def hal_deinit_def Let_def HAL_GPIO_Init_frame mode_parts)
  qed
  with assms show ?thesis by (simp add: wake_ready_def list_all_iff)
qed

lemma MX_GPIO_Init_ready:
  "pin_ready (MX_GPIO_Init s) (0, GPIO_MODE_IT_RISING_FALLING, GPIO_PULLDOWN)"
  "pin_ready (MX_GPIO_Init s) (9, GPIO_MODE_IT_RISING_FALLING, GPIO_PULLDOWN)"
  "pin_ready (MX_GPIO_Init s) (1, GPIO_MODE_IT_FALLING, GPIO_PULLUP)"
  "pin_ready (MX_GPIO_Init s) (10, GPIO_MODE_IT_FALLING, GPIO_PULLUP)"
  "pin_ready (MX_GPIO_Init s) (3, GPIO_MODE_IT_RISING, GPIO_NOPULL)"
  unfolding MX_GPIO_Init_def Let_def by (simp_all add: HAL_GPIO_Init_frame HAL_GPIO_Init_ready mode_parts pin_bits bit_or_iff del: One_nat_def)

lemma reinit_ready: "wake_ready f (hal_reinit f s)"
  unfolding wake_ready_def wake_pins_def hal_reinit_def HW_GPIO_PostInit_def Let_def
  by (cases f) (simp_all add: HAL_GPIO_Init_frame MX_GPIO_Init_ready mode_parts pin_bits bit_or_iff del: One_nat_def)

lemma exit_ready: "wake_ready f (HW_ExitStopMode f s) \<longleftrightarrow> hwSlept s \<or> wake_ready f s"
  using reinit_ready [of f "s\<lparr>hwSlept := False, adc_running := True\<rparr>"] by (simp add: HW_ExitStopMode_def wake_ready_def list_all_iff)

lemma hwSlept_registers [simp]:
  "hwSlept (HAL_GPIO_Init g i s) = hwSlept s" "hwSlept (HAL_GPIO_WritePin g pins l s) = hwSlept s"
  by (simp_all add: HAL_GPIO_Init_def HAL_GPIO_WritePin_def Let_def)

lemma hwSlept_simps [simp]:
  "hwSlept (asleep s)" "hwSlept (hal_reinit f s) = hwSlept s" "\<not> hwSlept (HW_ExitStopMode f s)"
proof -
  show r: "hwSlept (hal_reinit f s) = hwSlept s" for s by (simp add: hal_reinit_def HW_GPIO_PostInit_def MX_GPIO_Init_def Let_def)
  show "hwSlept (asleep s)" by (simp add: asleep_def)
  show "\<not> hwSlept (HW_ExitStopMode f s)" by (simp add: HW_ExitStopMode_def r)
qed

lemma exit_again: "HW_ExitStopMode f (HW_ExitStopMode f s) = HW_ExitStopMode f s"
  by (subst HW_ExitStopMode_def) simp

lemma enter_once: "HW_EnterStopMode f n s = HW_ExitStopMode f (asleep s)"
  by (induction n) (simp_all add: HW_EnterStopMode_def HAL_GPIO_EXTI_Callback_def funpow_swap1 exit_again)

lemma powered_ready:
  assumes "powered f s"
  shows "wake_ready f s \<and> \<not> hwSlept s"
  using assms
proof induction
  case (boot s)
  show ?case using reinit_ready [of f "s\<lparr>hwSlept := False\<rparr>"] hwSlept_simps(2) [of f "s\<lparr>hwSlept := False\<rparr>"]
    unfolding hal_reinit_def by simp
next
  case (stop s n)
  then show ?case by (simp add: enter_once exit_ready)
next
  case (pin_interrupt s)
  then show ?case by (simp add: HAL_GPIO_EXTI_Callback_def exit_ready)
next
  case (other s s')
  then have "pin_ready s' w = pin_ready s w" if "w \<in> set (wake_pins f)" for w
  proof -
    obtain n m p where w: "w = (n, m, p)" by (cases w)
    from conjunct2 [OF other(2) [unfolded same_wake_def], THEN bspec, OF imageI [OF that]] w
    show ?thesis by (simp add: pin_ready_def)
  qed
  with other show ?case by (simp add: wake_ready_def list_all_iff same_wake_def)
qed

text \<open>C16. Whenever the device goes to sleep, after any number of stops, pin interrupts and uses of the other
  pins, the pins that are to wake it (button, NFC tag, on all but the STA the reed switch, on the STX the two sensors) are
  inputs with their pull and their edges, and their interrupt lines are enabled and belong to port A, although the LEDs on port
  B have the same line numbers.\<close>

theorem wake_pins_survive_stop:
  assumes "powered f s"
  shows "wake_ready f (asleep s)"
  using asleep_ready powered_ready [OF assms] by blast

definition reset_pins :: board_pins where
  \<comment> \<open>after a reset of the processor\<close>
  "reset_pins = \<lparr>MODER = (\<lambda>p n. MODE_ANALOG), PUPDR = (\<lambda>p n. GPIO_NOPULL), OSPEEDR = (\<lambda>p n. GPIO_SPEED_FREQ_LOW),
     open_drain = (\<lambda>p n. False), ODR = (\<lambda>p n. False), EXTICR = (\<lambda>n. GPIOA), IMR = (\<lambda>n. False), EMR = (\<lambda>n. False),
     RTSR = (\<lambda>n. False), FTSR = (\<lambda>n. False), adc_running = False, hwSlept = False\<rparr>"

theorem wake_pins_survive_stop_witness:
  "wake_ready STX (asleep (HW_EnterStopMode STX 2 (HW_GPIO_PostInit STX (MX_GPIO_Init reset_pins))))"
proof -
  have "reset_pins = reset_pins\<lparr>hwSlept := False\<rparr>" by (simp add: reset_pins_def)
  with powered.boot [of STX reset_pins] have "powered STX (HW_GPIO_PostInit STX (MX_GPIO_Init reset_pins))" by simp
  from wake_pins_survive_stop [OF powered.stop [OF this]] show ?thesis .
qed

section \<open>After the stop\<close>

lemma pin_registers:
  "ODR (HAL_GPIO_Init g i s) = ODR s"
  "ODR (HAL_GPIO_WritePin g pins l s) p n = (if p = g \<and> bit pins n then l else ODR s p n)"
  "MODER (HAL_GPIO_WritePin g pins l s) = MODER s"
  "MODER (HAL_GPIO_Init g i s) p n = (if p = g \<and> bit (Pin i) n then direction (Mode i) else MODER s p n)"
  "adc_running (HAL_GPIO_Init g i s) = adc_running s" "adc_running (HAL_GPIO_WritePin g pins l s) = adc_running s"
  by (simp_all add: HAL_GPIO_Init_def HAL_GPIO_WritePin_def Let_def)

definition drives :: "board_pins \<Rightarrow> port \<Rightarrow> nat \<Rightarrow> bool \<Rightarrow> bool" where
  "drives s g n level \<longleftrightarrow> MODER s g n = MODE_OUTPUT \<and> ODR s g n = level"

lemma mode_directions:
  "direction GPIO_MODE_INPUT = MODE_INPUT" "direction GPIO_MODE_OUTPUT_PP = MODE_OUTPUT"
  by (simp_all add: mode_defs)

lemma MX_GPIO_Init_drives:
  "drives (MX_GPIO_Init s) GPIOA 2 False" "drives (MX_GPIO_Init s) GPIOA 8 False" "drives (MX_GPIO_Init s) GPIOB 4 False"
  "adc_running (MX_GPIO_Init s) = adc_running s"
  unfolding drives_def MX_GPIO_Init_def Let_def
  by (simp_all add: pin_registers mode_parts mode_directions pin_bits bit_or_iff del: One_nat_def)

lemma hal_reinit_drives:
  "drives (hal_reinit f s) GPIOA 2 False" "drives (hal_reinit f s) GPIOA 8 False" "drives (hal_reinit f s) GPIOB 4 False"
  "adc_running (hal_reinit f s) = adc_running s"
  using MX_GPIO_Init_drives [of s] unfolding drives_def hal_reinit_def HW_GPIO_PostInit_def Let_def
  by (cases f; simp add: pin_registers mode_parts pin_bits bit_or_iff del: One_nat_def)+

lemma after_stop:
  "drives (HW_EnterStopMode f n s) GPIOA 2 True" "drives (HW_EnterStopMode f n s) GPIOA 8 True"
  "drives (HW_EnterStopMode f n s) GPIOB 4 False" "adc_running (HW_EnterStopMode f n s)"
  using hal_reinit_drives [of f "(asleep s)\<lparr>hwSlept := False, adc_running := True\<rparr>"]
  unfolding enter_once HW_ExitStopMode_def drives_def by (simp_all add: pin_registers pin_bits del: One_nat_def)

lemma stop_mode_is_left_once:
  \<comment> \<open>however many pin interrupts wake the device, the peripherals are restored once: the converter is on, the switch of the radio
    (PA2) and the supply (PA8) are driven high, the wake-up pins are armed\<close>
  "HW_EnterStopMode f n s = HW_EnterStopMode f 0 s \<and> adc_running (HW_EnterStopMode f n s) \<and> \<not> hwSlept (HW_EnterStopMode f n s) \<and>
    drives (HW_EnterStopMode f n s) GPIOA 2 True \<and> drives (HW_EnterStopMode f n s) GPIOA 8 True \<and> wake_ready f (HW_EnterStopMode f n s)"
  using after_stop by (simp add: enter_once exit_ready)

lemma radio_held_in_reset:
  \<comment> \<open>the radio driver leaves its reset pin (PB4) to the pull-up of the radio; after a stop it is driven low\<close>
  "drives (HW_EnterStopMode f n s) GPIOB 4 False"
  by (rule after_stop(3))

end
