(* ===== verification/Secure_Element.thy ===== *)
theory Secure_Element
  imports Firmware_Prelude
begin

text \<open>
  The transport to the ATECC608A secure element, \<^verbatim>\<open>src/Src/atecc608a_integration.c\<close>: the functions the vendored
  library calls to talk to the chip over I2C. The bus is a parameter: what the \<open>n\<close>-th transfer makes of the buffer it is given
  (it may fail having written some of it), and whether it succeeds. \<open>None\<close> is an access outside a buffer.
\<close>

section \<open>State\<close>

datatype ATCA_STATUS = ATCA_SUCCESS | ATCA_BAD_PARAM | ATCA_RX_TIMEOUT | ATCA_SMALL_BUFFER | ATCA_UNIMPLEMENTED | ATCA_TX_FAIL
  | ATCA_ALLOC_FAILURE

record mbed_i2c_hal_data =
  active :: bool
  slave_address :: uint8
  bus :: uint8
  baud :: uint32
  wake_delay :: uint16
  rx_retries :: int

record ATCAIfaceCfg =
  is_i2c :: bool                  \<comment> \<open>\<open>iface_type == ATCA_I2C_IFACE\<close>\<close>
  cfg_slave_address :: uint8
  cfg_bus :: uint8
  cfg_baud :: uint32
  cfg_wake_delay :: uint16
  cfg_rx_retries :: int

record hal_state =
  first_init :: bool
  hal_slots :: "mbed_i2c_hal_data list"

definition ATAC_HAL_MBED_MAX_I2C :: nat where "ATAC_HAL_MBED_MAX_I2C = 1"

record i2c_env =
  receive :: "nat \<Rightarrow> bytes \<Rightarrow> bool \<times> bytes"
  transmit :: "nat \<Rightarrow> uint8 \<Rightarrow> bytes \<Rightarrow> bool"
  address_0 :: uint8              \<comment> \<open>the byte at address 0 of the memory\<close>

definition bus_ok :: "i2c_env \<Rightarrow> bool" where
  \<comment> \<open>a transfer stays within its buffer\<close>
  "bus_ok env \<longleftrightarrow> (\<forall>n bs. length (snd (receive env n bs)) = length bs)"

section \<open>Interfaces\<close>

definition hal_i2c_init :: "ATCAIfaceCfg \<Rightarrow> hal_state \<Rightarrow> (ATCA_STATUS \<times> nat option) \<times> hal_state" where
  \<comment> \<open>with the slot it hands out\<close>
  "hal_i2c_init cfg s0 =
    (let s = (if first_init s0 then \<lparr>first_init = False, hal_slots = map (\<lambda>h. h\<lparr>active := False\<rparr>) (hal_slots s0)\<rparr> else s0)
     in if \<not> is_i2c cfg then ((ATCA_BAD_PARAM, None), s)
        else case find (\<lambda>ix. \<not> active (hal_slots s ! ix)) [0..<ATAC_HAL_MBED_MAX_I2C] of
          None \<Rightarrow> ((ATCA_ALLOC_FAILURE, None), s)
        | Some ix \<Rightarrow> ((ATCA_SUCCESS, Some ix), s\<lparr>hal_slots := (hal_slots s)[ix := \<lparr>active = True,
            slave_address = cfg_slave_address cfg, bus = cfg_bus cfg, baud = cfg_baud cfg, wake_delay = cfg_wake_delay cfg,
            rx_retries = cfg_rx_retries cfg\<rparr>]\<rparr>))"

definition hal_i2c_release :: "nat \<Rightarrow> hal_state \<Rightarrow> ATCA_STATUS \<times> hal_state" where
  "hal_i2c_release ix s = (ATCA_SUCCESS, s\<lparr>hal_slots := (hal_slots s)[ix := (hal_slots s ! ix)\<lparr>active := False\<rparr>]\<rparr>)"

section \<open>Transfers\<close>

definition hal_i2c_send :: "i2c_env \<Rightarrow> bytes \<Rightarrow> nat \<Rightarrow> nat \<Rightarrow> (ATCA_STATUS \<times> bytes) option" where
  \<comment> \<open>the buffer is that of a packet, whose first byte is reserved; the length is that of the rest\<close>
  "hal_i2c_send env txdata txlength n =
    (if txdata = [] then None
     else let txdata = txdata[0 := 3]; txlength = unat (of_nat (txlength + 1) :: uint16)
       in if length txdata < txlength then None
          else Some (if transmit env n 0xC0 (take txlength txdata) then ATCA_SUCCESS else ATCA_TX_FAIL, txdata))"

function receive_loop :: "i2c_env \<Rightarrow> int \<Rightarrow> bytes \<Rightarrow> nat \<Rightarrow> bool \<times> bytes \<times> nat" where
  \<comment> \<open>\<open>while(--retries > 0 && r != 0)\<close>\<close>
  "receive_loop env retries buf n =
    (if 0 < retries - 1 then case receive env n buf of (ok, buf') \<Rightarrow>
       if ok then (True, buf', n + 1) else receive_loop env (retries - 1) buf' (n + 1)
     else (False, buf, n))"
  by pat_completeness auto
termination
  by (relation "measure (\<lambda>(env, retries, buf, n). nat retries)") auto

declare receive_loop.simps [simp del]

definition hal_i2c_receive :: "i2c_env \<Rightarrow> int \<Rightarrow> bytes \<Rightarrow> uint16 \<Rightarrow> nat \<Rightarrow> (ATCA_STATUS \<times> bytes \<times> uint16 \<times> nat) option" where
  "hal_i2c_receive env retries rxdata rxlength n =
    (case receive_loop env retries [0] n of (ok, lengthPackage, n1) \<Rightarrow>
       if \<not> ok then Some (ATCA_RX_TIMEOUT, rxdata, rxlength, n1)
       else let bytesToRead = lengthPackage ! 0 - 1
         in if rxlength < ucast bytesToRead then Some (ATCA_SMALL_BUFFER, rxdata, rxlength, n1)
            else if length rxdata < unat rxlength then None
            else let rxdata = replicate (unat rxlength) 0 @ drop (unat rxlength) rxdata
              in if rxdata = [] then None
                 else let rxdata = rxdata[0 := lengthPackage ! 0]
                   in if length rxdata < 1 + unat bytesToRead then None
                      else case receive_loop env retries (take (unat bytesToRead) (drop 1 rxdata)) n1 of (ok, part, n2) \<Rightarrow>
                        let rxdata = take 1 rxdata @ part @ drop (1 + unat bytesToRead) rxdata
                        in if \<not> ok then Some (ATCA_RX_TIMEOUT, rxdata, rxlength, n2)
                           else Some (ATCA_SUCCESS, rxdata, ucast (lengthPackage ! 0), n2))"

definition hal_i2c_wake :: "i2c_env \<Rightarrow> nat \<Rightarrow> ATCA_STATUS \<times> (uint8 \<times> bytes)" where
  \<comment> \<open>with what is sent: the data pointer is NULL\<close>
  "hal_i2c_wake env n = (ATCA_SUCCESS, (0x00, [address_0 env]))"

definition hal_i2c_idle :: "i2c_env \<Rightarrow> nat \<Rightarrow> ATCA_STATUS \<times> (uint8 \<times> bytes)" where
  "hal_i2c_idle env n = (ATCA_SUCCESS, (0xC0, [0x2]))"

definition hal_i2c_sleep :: "i2c_env \<Rightarrow> nat \<Rightarrow> ATCA_STATUS \<times> (uint8 \<times> bytes)" where
  "hal_i2c_sleep env n = (ATCA_SUCCESS, (0xC0, [0x1]))"

section \<open>Receiving\<close>

lemma receive_loop_length:
  "bus_ok env \<Longrightarrow> length (fst (snd (receive_loop env retries buf n))) = length buf"
proof (induction env retries buf n rule: receive_loop.induct)
  case (1 env retries buf n)
  have "length (snd (receive env n buf)) = length buf" using 1(2) by (simp add: bus_ok_def)
  with 1(1) [OF _ _ _ 1(2)] show ?case by (subst receive_loop.simps) (auto split: prod.splits)
qed

lemma receive_loop_attempts:
  "case receive_loop env retries buf n of (ok, buf', n') \<Rightarrow> n \<le> n' \<and> int n' \<le> int n + max 0 (retries - 1) \<and> (\<not> ok \<longrightarrow> int n' = int n + max 0 (retries - 1))"
proof (induction env retries buf n rule: receive_loop.induct)
  case (1 env retries buf n)
  show ?case
  proof (cases "0 < retries - 1")
    case True
    obtain ok b where r: "receive env n buf = (ok, b)" by (cases "receive env n buf")
    obtain ok2 b2 n2 where l: "receive_loop env (retries - 1) b (n + 1) = (ok2, b2, n2)" by (metis prod_cases3)
    have loop: "receive_loop env retries buf n = (if ok then (True, b, n + 1) else (ok2, b2, n2))"
      using True r l by (subst receive_loop.simps) simp
    show ?thesis
    proof (cases ok)
      case False
      from 1 [OF True r [symmetric] False] True l loop False show ?thesis by auto
    qed (use True loop in simp)
  next
    case False
    then show ?thesis by (subst receive_loop.simps) simp
  qed
qed

lemma single_retry_never_tries:
  \<comment> \<open>the loop makes one attempt less than configured\<close>
  "hal_i2c_receive env 1 rxdata rxlength n = Some (ATCA_RX_TIMEOUT, rxdata, rxlength, n)"
  by (simp add: hal_i2c_receive_def receive_loop.simps)

lemma length_byte:
  assumes "bus_ok env" "receive_loop env retries [0] n = (ok, lp, n1)"
  obtains L where "lp = [L]"
  using receive_loop_length [OF assms(1), of retries "[0]" n] assms(2) by (auto simp: length_Suc_conv)

lemma receive_cases:
  assumes env: "bus_ok env" and len: "length rxdata = unat rxlength" and L: "receive_loop env retries [0] n = (True, [L], n1)"
  obtains (small) "unat rxlength < unat (L - 1)" "hal_i2c_receive env retries rxdata rxlength n = Some (ATCA_SMALL_BUFFER, rxdata, rxlength, n1)"
  | (overflow) "unat rxlength = unat (L - 1)" "hal_i2c_receive env retries rxdata rxlength n = None"
  | (fits) ok part n2 where "unat (L - 1) < unat rxlength" "length part = unat (L - 1)"
      "receive_loop env retries (replicate (unat (L - 1)) 0) n1 = (ok, part, n2)"
      "hal_i2c_receive env retries rxdata rxlength n =
        Some (if ok then ATCA_SUCCESS else ATCA_RX_TIMEOUT, L # part @ replicate (unat rxlength - 1 - unat (L - 1)) 0,
          if ok then ucast L else rxlength, n2)"
proof -
  have wide: "rxlength < ucast (L - 1) \<longleftrightarrow> unat rxlength < unat (L - 1)"
    using unsigned_less [of "L - 1", where 'a = nat] by (simp add: word_less_nat_alt unsigned_ucast_eq take_bit_nat_eq_self)
  consider "unat rxlength < unat (L - 1)" | "unat rxlength = unat (L - 1)" | "unat (L - 1) < unat rxlength" by linarith
  then show thesis
  proof cases
    case 1
    with wide show thesis by (intro small) (simp_all add: hal_i2c_receive_def L Let_def)
  next
    case 2
    with wide len show thesis by (intro overflow) (simp_all add: hal_i2c_receive_def L Let_def)
  next
    case 3
    obtain ok part n2 where r: "receive_loop env retries (replicate (unat (L - 1)) 0) n1 = (ok, part, n2)" by (metis prod_cases3)
    from receive_loop_length [OF env, of retries "replicate (unat (L - 1)) 0" n1] r have p: "length part = unat (L - 1)" by simp
    have z: "(replicate (unat rxlength) 0)[0 := L] = L # replicate (unat rxlength - 1) 0"
      using 3 by (cases "unat rxlength") simp_all
    have "take (unat (L - 1)) (replicate (unat rxlength - 1) (0 :: uint8)) = replicate (unat (L - 1)) 0" using 3 by (simp add: min_def)
    with 3 wide len r p show thesis
      by (intro fits [OF 3 p r]) (auto simp: hal_i2c_receive_def L Let_def z replicate_empty)
  qed
qed

text \<open>C22. With a buffer of exactly the stated size, receiving a response stays within the buffer unless
  the chip announces one byte more than fits (or 0, with a buffer of 255): the check compares the bytes after the length byte with
  the size of the whole buffer.\<close>

theorem hal_i2c_receive_in_bounds:
  assumes "bus_ok env" "length rxdata = unat rxlength"
  shows "hal_i2c_receive env retries rxdata rxlength n = None \<longleftrightarrow>
    (\<exists>L n1. receive_loop env retries [0] n = (True, [L], n1) \<and> unat (L - 1) = unat rxlength)"
proof (cases "receive_loop env retries [0] n")
  case (fields ok lp n1)
  from length_byte [OF assms(1) fields] obtain L where lp: "lp = [L]" .
  show ?thesis
  proof (cases ok)
    case True
    with fields lp have L: "receive_loop env retries [0] n = (True, [L], n1)" by simp
    show ?thesis by (cases rule: receive_cases [OF assms L]) (auto simp: L)
  next
    case False
    with fields show ?thesis by (simp add: hal_i2c_receive_def)
  qed
qed

definition i2c_example :: "uint8 \<Rightarrow> i2c_env" where
  \<comment> \<open>the chip answers every other transfer with its response\<close>
  "i2c_example L = \<lparr>receive = (\<lambda>n bs. if even n then (False, bs) else (True, take (length bs) (L # replicate (length bs) 0x11))),
     transmit = (\<lambda>n a bs. True), address_0 = 0\<rparr>"

theorem hal_i2c_receive_in_bounds_witness:
  \<comment> \<open>an announced length of 8 overflows a buffer of 7 bytes\<close>
  "hal_i2c_receive (i2c_example 8) 20 (replicate 7 0) 7 0 = None"
proof -
  have "bus_ok (i2c_example 8)" by (auto simp: bus_ok_def i2c_example_def)
  moreover have "receive_loop (i2c_example 8) 20 [0] 0 = (True, [8], 2)" by code_simp
  ultimately show ?thesis using hal_i2c_receive_in_bounds [of "i2c_example 8" "replicate 7 0" 7 20 0] by simp
qed

section \<open>One interface at a time\<close>

lemma hal_i2c_init_once:
  assumes "length (hal_slots s) = 1" "is_i2c cfg" "hal_i2c_init cfg s = ((st, ix), s')"
  shows "st = (if first_init s \<or> \<not> active (hal_slots s ! 0) then ATCA_SUCCESS else ATCA_ALLOC_FAILURE)"
    "st = ATCA_SUCCESS \<Longrightarrow> ix = Some 0 \<and> active (hal_slots s' ! 0)" "length (hal_slots s') = 1" "\<not> first_init s'"
  using assms by (auto simp: hal_i2c_init_def ATAC_HAL_MBED_MAX_I2C_def Let_def split: if_splits)

lemma interface_reusable:
  assumes "length (hal_slots s) = 1" "is_i2c cfg" "is_i2c cfg'" "hal_i2c_init cfg s = ((ATCA_SUCCESS, ix), s')"
  shows "fst (fst (hal_i2c_init cfg' s')) = ATCA_ALLOC_FAILURE"
    "fst (fst (hal_i2c_init cfg' (snd (hal_i2c_release 0 s')))) = ATCA_SUCCESS"
proof -
  note 1 = hal_i2c_init_once [OF assms(1,2,4)]
  obtain r s2 where "hal_i2c_init cfg' s' = (r, s2)" by (cases "hal_i2c_init cfg' s'")
  then show "fst (fst (hal_i2c_init cfg' s')) = ATCA_ALLOC_FAILURE"
    using hal_i2c_init_once(1) [OF 1(3) assms(3), of "fst r" "snd r" s2] 1(2,4) by simp
  let ?f = "snd (hal_i2c_release 0 s')"
  obtain r2 s3 where i: "hal_i2c_init cfg' ?f = (r2, s3)" by (cases "hal_i2c_init cfg' ?f")
  have "length (hal_slots ?f) = 1" "\<not> active (hal_slots ?f ! 0)" using 1(3) by (simp_all add: hal_i2c_release_def)
  with hal_i2c_init_once(1) [OF this(1) assms(3), of "fst r2" "snd r2" s3] i
  show "fst (fst (hal_i2c_init cfg' ?f)) = ATCA_SUCCESS" by simp
qed

end
