(* ===== verification/Spec2Isabelle.thy ===== *)
theory Spec2Isabelle
  imports Nfc_Decode Task_Manager Config_Encode Eeprom_Store Nfc_Session Sensor_Reports Gestures Main_Loop Nfc_Driver Start_Up Timer_List Stop_Mode Secure_Element
begin

text \<open>
  Verification of the application firmware of the nfhw sensor devices: the action button STA, the multi sensor STX and the
  environment sensor STE.

  \<^bold>\<open>The program.\<close> A device has one configuration, \<open>DevCfg\<close> (\<^verbatim>\<open>src/Inc/eeprom.h\<close>). A phone reads and writes it as protobuf
  messages through the mailbox of an NFC tag; it is kept in the data EEPROM of the processor; the LoRaWAN stack and the sensors
  are brought into agreement with it. Presses of the button, the reed switch, limits of the sensors and a schedule put messages into
  a queue of three, which an event loop sends over LoRaWAN. When nothing is left to do the loop stops the processor until a pin or the
  clock wakes it. Every change of the configuration raises a flag, and the loop does what the flags ask for: this is how the
  interrupt of the tag, the network and the loop communicate.

  \<^bold>\<open>The theories\<close>, in the order of the imports, and what they model:

  \<^item> \<open>Firmware_Prelude\<close>: the integer types, the conventions, generic lemmas.
  \<^item> \<open>Wire_Format\<close>: \<open>PBEncodeField\<close>, \<open>PBDecodeVarint\<close> and what they use, of \<^verbatim>\<open>src/Src/protobuf.c\<close>. Shown: the encoder is the
    clipped write of a reference encoding, varints are read back.
  \<^item> \<open>Message_Ids\<close>, \<open>Device_Config\<close>: the keys of \<^verbatim>\<open>src/Inc/protobuf.h\<close>; \<open>DevCfg\<close>, its defaults and setter macros. The locale
    \<open>config_member\<close> is the contract of a setter (it writes its part and raises its flag), interpreted on the setters of five parts.
  \<^item> \<open>Field_Parser\<close>: the loop that \<open>PBDecodeMsg\<close> and \<open>EEPROM_Load\<close> share. The locale \<open>kv_reader\<close> is the contract between the
    loop and the action on a field; its lemmas (fields are applied in order, no byte outside the message matters, invariants of the
    action) are proved once and interpreted by both users.
  \<^item> \<open>Nfc_Decode\<close>: \<open>PBDecodeMsg\<close>. Shown: it implements the abstract effect of a list of fields, whatever the message it keeps the
    sizes of the arrays and tracks changes; a message on which it does not return.
  \<^item> \<open>Task_Manager\<close>, \<open>Gestures\<close>: \<^verbatim>\<open>src/Src/task_mgr.c\<close>; the button and reed switch of \<^verbatim>\<open>src/Src/isr.c\<close>. Shown: a tick runs
    exactly the due tasks; bounces are ignored and presses classified across the wrap-around of the time.
  \<^item> \<open>Lorawan_Mac\<close>, \<open>Lrw_Config\<close>: the information base of the stack as far as the firmware uses it; \<open>LRW_FromDevCfg\<close> and
    \<open>LRW_ToDevCfg\<close> of \<^verbatim>\<open>src/Src/lrw.c\<close>. Shown: what is applied to an idle stack holds there, and is read back unchanged.
  \<^item> \<open>Config_Encode\<close>: the two messages a device sends over NFC. Shown: they are the clipped writes of their fields; without a password
    the answer does not depend on the configuration (the documents say that it may).
  \<^item> \<open>Eeprom_Memory\<close>, \<open>Board_Utilities\<close>, \<open>Eeprom_Store\<close>: the memory and its word programming (\<^verbatim>\<open>src/Src/hardware.c\<close>), the checksum and
    the chip identifier, \<open>EEPROM_Save\<close> and \<open>EEPROM_Load\<close> (\<^verbatim>\<open>src/Src/eeprom.c\<close>). Shown: what is saved is loaded, setting by
    setting, except in the humidity modes of an STX, where the threshold changes; damage in up to four adjacent bytes is detected.
  \<^item> \<open>Nfc_Session\<close>: \<open>NFCISR\<close> of \<^verbatim>\<open>src/Src/isr.c\<close>. Shown: over any sequence of interrupts, whatever the rest of the firmware does
    in between, nothing is privileged without the password, and until a factory reset, which needs none, boot mode and password stay as
    they are; the answers fit the mailbox; a configuration is nevertheless accepted without password.
  \<^item> \<open>Sensors\<close>, \<open>Sensor_Reports\<close>: \<^verbatim>\<open>src/Src/sensors.c\<close>; the payloads of the sensors, from the reading to the request to the stack, read back with
    the documented tables. Where the code does not follow the document (the trigger of an STX, bright light, some values of the organic compounds)
    the theorem says what is sent or excludes the values, and a lemma shows the difference.
  \<^item> \<open>Uplink_Queue\<close>, \<open>Uplink_Delivery\<close>: the queue, the composition and the retransmission of messages in \<^verbatim>\<open>src/Src/lrw.c\<close>. The
    locale \<open>slot_queue\<close> is a bounded queue of slots, interpreted on the code's queue. Shown: an invariant of all runs, what
    every event does to every queued message, the three requests for a confirmed one, what a late acknowledgement discards.
  \<^item> \<open>Rtc_Wakeup\<close>: time and wake-up timer of \<^verbatim>\<open>src/Src/hardware.c\<close>. Shown: the deadlines are a set, of which the soonest wakes.
  \<^item> \<open>Main_Loop\<close>, \<open>Start_Up\<close>: \<^verbatim>\<open>src/Src/main.c\<close>. Shown: changes are stored and survive, are in force after a reset together
    with the stored session (the start is modelled as if the endless test of the clock in front of it were not there), the device
    sleeps only when idle, a scheduled message is queued and the schedule kept up.
  \<^item> \<open>Nfc_Driver\<close>: \<open>NFC_Init\<close> and the transfers of \<^verbatim>\<open>src/Src/nfc.c\<close> with \<^verbatim>\<open>src/Drivers/ST25DV\<close>. Shown: total correctness of the
    initialisation against a tag that behaves as documented, with its two device addresses, and when it succeeds; the results of the
    wait for the tag under a running clock.
  \<^item> \<open>Session_Store\<close>: the LoRaWAN session in the EEPROM (\<^verbatim>\<open>LoRaMac.c\<close>, \<^verbatim>\<open>NvmDataMgmt.c\<close>, \<^verbatim>\<open>nvmm.c\<close>, \<^verbatim>\<open>eeprom-board.c\<close>). Shown: stored
    groups are restored, and only all together.
  \<^item> \<open>Rtc_Board\<close>, \<open>Timer_List\<close>: the clock ticks and the alarm (\<^verbatim>\<open>rtc-board.c\<close>) and the linked list of software timers
    (\<^verbatim>\<open>timer.c\<close>) under the stack. Shown: the ticks follow the calendar for a hundred years, an alarm fires exactly on time, counted from the
    reference that \<open>RtcSetTimerContext\<close> took, the list is an acyclic queue whose head has the alarm in every reachable state, starting a timer refines insertion into an ordered
    list, the interrupt runs what is over and returns. (At this commit \<^verbatim>\<open>main.c\<close> takes the interrupt of the alarm for its test of
    the clock and does not call the interrupt of the timers; the timers are modelled as the stack means them.) The locale \<open>timer_client\<close> is what a callback must keep; it is interpreted on
    callbacks that change their own state and use the timers.
  \<^item> \<open>Stop_Mode\<close>: pins, interrupt lines and stop mode (\<^verbatim>\<open>gpio.c\<close>, \<^verbatim>\<open>hardware.c\<close>). Shown: the pins that wake the device are armed
    whenever it goes to sleep.
  \<^item> \<open>Secure_Element\<close>: the transport to the ATECC608A (\<^verbatim>\<open>atecc608a_integration.c\<close>). Shown: exactly when receiving leaves the buffer.

  \<^bold>\<open>Conventions.\<close> C integers are words of their width, so wrap-around is that of the code; a buffer is the list of the bytes that may
  be accessed through its pointer. \<open>None\<close> is undefined behaviour (an access outside an object, a failed assertion) or, for
  routines with unbounded loops, not returning; where both can happen the type is \<open>outcome option\<close>. Errors are values of a sum or
  of the code's status type. The product family is an argument where the code has \<open>#ifdef\<close>. What lies outside the program is a
  parameter with named hypotheses: the stack's answers (\<open>radio_env\<close>, \<open>mac_init\<close>), the sensor readings (\<open>measurements\<close>), the success of
  bus and EEPROM accesses (\<open>bus\<close>, \<open>ok\<close>, \<open>tag_env\<close>, \<open>i2c_env\<close>), the clock (\<open>clk\<close>, \<open>wait_env\<close>), callbacks (\<open>call\<close>), the phone
  (\<open>nfc_env\<close>), the surroundings of the loop (\<open>loop_env\<close>, \<open>boot_env\<close>). Every theorem with hypotheses has a witness at concrete values.

  \<^bold>\<open>Loops.\<close> No fuel is used. Loops that end by their structure are \<open>fun\<close> or \<open>function\<close> with a measure. Loops that may not end are
  \<open>partial_function\<close>: the reader of fields (its termination on well-formed messages is part of the refinement, a message on which it
  does not end is shown), the polling and waiting of the NFC driver (they end when the tag and the clock behave), the delay of the
  clock (it ends under an advancing clock), the loops over the list of timers (they end because the list is a chain) and over the
  expired timers (they end when the callbacks do not start timers).

  \<^bold>\<open>Not modelled\<close>, with the reasons: debug output; the code from \<^verbatim>\<open>main.c:138\<close> to 186, an endless test of the clock in front of the
  event loop, which makes the loop unreachable at this commit (the loop is modelled from line 364 on as it is written); the patterns
  of \<open>LEDBlink\<close>, which returns at its first line; the measurement of the battery and the temperature compensation of the clock, which
  compute with floats on readings; \<open>BSEC_Init\<close>, which passes constants to the closed BSEC library; routines that are never called; the
  set-up of peripherals generated by STM32CubeMX and the interrupt vectors; the registers of the power and interrupt controllers, which
  are set to constants; third-party code (the HAL but for the pins, the LoRaWAN stack but for the parts above, radio, sensor,
  cryptographic and NFC libraries).
\<close>

end
